(* ===== verification/Prelude.thy ===== *)
theory Prelude
  imports Complex_Main "HOL-Library.Word" "HOL-Library.Sublist"
begin

text \<open>
  Shared vocabulary of the development: the theorem collections the component proofs draw on,
  \<^verbatim>\<open>std::to_string\<close> on integers with its injectivity, the truncating integer division of C++,
  and small facts on lists and partial maps that several components use.
\<close>

section \<open>Theorem collections\<close>

named_theorems wire_simps \<open>conversions between SDK values and their protobuf form\<close>
named_theorems scan_simps \<open>the effect of one history event on the prescan\<close>
named_theorems runner_defs \<open>the outbound operations of the workflow runner\<close>
named_theorems emit_defs \<open>the command-emitting helpers of the workflow runner\<close>

section \<open>Decimal strings\<close>

text \<open>
  \<^verbatim>\<open>std::to_string\<close>: decimal digits, most significant first, and a leading minus sign for a
  negative value.
\<close>

definition digit_char :: "nat \<Rightarrow> char" where
  "digit_char n = (''0123456789'' ! n)"

fun nat_to_string :: "nat \<Rightarrow> string" where
  "nat_to_string n =
     (if n < 10 then [digit_char n] else nat_to_string (n div 10) @ [digit_char (n mod 10)])"

declare nat_to_string.simps [simp del]

definition to_string :: "int \<Rightarrow> string" where
  "to_string i = (if i < 0 then CHR ''-'' # nat_to_string (nat (- i)) else nat_to_string (nat i))"

text \<open>The inverse direction (\<^verbatim>\<open>std::stoull\<close> on a string of digits).\<close>

definition digit_val :: "char \<Rightarrow> nat" where
  "digit_val c = of_char c - 48"

definition parse_digits :: "string \<Rightarrow> nat" where
  "parse_digits s = foldl (\<lambda>acc c. 10 * acc + digit_val c) 0 s"

definition is_digit :: "char \<Rightarrow> bool" where
  "is_digit c \<longleftrightarrow> c \<in> set ''0123456789''"

lemma less_10_cases:
  fixes n :: nat
  assumes "n < 10"
  shows "n \<in> {0, 1, 2, 3, 4, 5, 6, 7, 8, 9}"
  using assms by auto

lemma digit_val_digit_char [simp]: "n < 10 \<Longrightarrow> digit_val (digit_char n) = n"
  by (drule less_10_cases) (auto simp: digit_val_def digit_char_def)

lemma is_digit_digit_char [simp]: "n < 10 \<Longrightarrow> is_digit (digit_char n)"
  by (drule less_10_cases) (auto simp: is_digit_def digit_char_def)

lemma nat_to_string_small [simp]: "n < 10 \<Longrightarrow> nat_to_string n = [digit_char n]"
  by (subst nat_to_string.simps) simp

lemma nat_to_string_not_Nil [simp]: "nat_to_string n \<noteq> []"
  by (subst nat_to_string.simps) simp

lemma parse_digits_snoc: "parse_digits (s @ [c]) = 10 * parse_digits s + digit_val c"
  by (simp add: parse_digits_def)

lemma parse_nat_to_string [simp]: "parse_digits (nat_to_string n) = n"
proof (induction n rule: nat_to_string.induct)
  case (1 n)
  show ?case
  proof (cases "n < 10")
    case True
    then show ?thesis by (simp add: parse_digits_def)
  next
    case False
    then have "parse_digits (nat_to_string n) = 10 * parse_digits (nat_to_string (n div 10)) + n mod 10"
      by (subst nat_to_string.simps) (simp add: parse_digits_snoc)
    with "1.IH" False show ?thesis by simp
  qed
qed

lemma nat_to_string_inject [simp]: "nat_to_string m = nat_to_string n \<longleftrightarrow> m = n"
  by (metis parse_nat_to_string)

lemma nat_to_string_digits: "c \<in> set (nat_to_string n) \<Longrightarrow> is_digit c"
proof (induction n rule: nat_to_string.induct)
  case (1 n)
  then show ?case
    by (cases "n < 10") (auto simp: nat_to_string.simps [of n])
qed

lemma minus_not_digit [simp]: "\<not> is_digit (CHR ''-'')"
  by (simp add: is_digit_def)

lemma hd_nat_to_string_not_minus [simp]: "nat_to_string n \<noteq> CHR ''-'' # s"
proof
  assume "nat_to_string n = CHR ''-'' # s"
  then have "CHR ''-'' \<in> set (nat_to_string n)" by simp
  then show False using nat_to_string_digits minus_not_digit by blast
qed

lemma to_string_inject [simp]: "to_string i = to_string j \<longleftrightarrow> i = j"
  by (auto simp: to_string_def hd_nat_to_string_not_minus [symmetric])

lemma to_string_of_nat [simp]: "to_string (int n) = nat_to_string n"
  by (simp add: to_string_def)

section \<open>Truncating division\<close>

text \<open>
  \<^verbatim>\<open>std::chrono::duration_cast\<close> and integer division round towards zero.
\<close>

definition tdiv :: "int \<Rightarrow> int \<Rightarrow> int" where
  "tdiv a b = sgn a * sgn b * (\<bar>a\<bar> div \<bar>b\<bar>)"

lemma tdiv_nonneg [simp]: "0 \<le> a \<Longrightarrow> 0 < b \<Longrightarrow> tdiv a b = a div b"
  by (cases "a = 0") (auto simp: tdiv_def)

lemma tdiv_neg: "a < 0 \<Longrightarrow> 0 < b \<Longrightarrow> tdiv a b = - ((- a) div b)"
  by (auto simp: tdiv_def)

section \<open>Lists and maps\<close>

lemma list_all2_take_iff:
  "list_all2 P (take (length ys) xs) ys \<longleftrightarrow>
     length ys \<le> length xs \<and> (\<forall>i < length ys. P (xs ! i) (ys ! i))"
  by (auto simp: list_all2_conv_all_nth min_def)

lemma map_prod_id_eq: "map_prod f id x = (y, r) \<longleftrightarrow> (\<exists>a. x = (a, r) \<and> y = f a)"
  by (cases x) auto

end
