(* ===== verification/Determinism.thy ===== *)
theory Determinism
  imports Prelude
begin

text \<open>
  Non-determinism detection (\<^verbatim>\<open>src/internal/determinism.h\<close>): the command kinds, the pairwise
  comparison of a produced command with a recorded one, and the scan that reports the first
  divergence. The lemmas characterise the scan by a prefix relation and show that it is
  insensitive to trailing commands.
\<close>

section \<open>Commands as the detector sees them\<close>

datatype kind =
    Activity
  | RequestCancelActivity
  | Timer
  | CancelTimer
  | ChildWorkflow
  | RequestCancelExternalWorkflow
  | SignalExternalWorkflow
  | UpsertSearchAttributes
  | NexusOperation
  | Marker
  | CompleteWorkflow
  | FailWorkflow
  | ContinueAsNew

record CommandEvent =
  ce_kind :: kind
  ce_id :: string
  ce_name :: string

definition mk_command_event :: "kind \<Rightarrow> string \<Rightarrow> string \<Rightarrow> CommandEvent" where
  "mk_command_event k i n = \<lparr>ce_kind = k, ce_id = i, ce_name = n\<rparr>"

fun kind_index :: "kind \<Rightarrow> nat" where
  "kind_index Activity = 0"
| "kind_index RequestCancelActivity = 1"
| "kind_index Timer = 2"
| "kind_index CancelTimer = 3"
| "kind_index ChildWorkflow = 4"
| "kind_index RequestCancelExternalWorkflow = 5"
| "kind_index SignalExternalWorkflow = 6"
| "kind_index UpsertSearchAttributes = 7"
| "kind_index NexusOperation = 8"
| "kind_index Marker = 9"
| "kind_index CompleteWorkflow = 10"
| "kind_index FailWorkflow = 11"
| "kind_index ContinueAsNew = 12"

definition kCommandKindNames :: "string list" where
  "kCommandKindNames =
     [''ScheduleActivity'', ''RequestCancelActivity'', ''StartTimer'', ''CancelTimer'',
      ''StartChildWorkflow'', ''RequestCancelExternalWorkflowExecution'',
      ''SignalExternalWorkflowExecution'', ''UpsertWorkflowSearchAttributes'',
      ''ScheduleNexusOperation'', ''RecordMarker'', ''CompleteWorkflowExecution'',
      ''FailWorkflowExecution'', ''ContinueAsNewWorkflowExecution'']"

definition CommandKindName :: "kind \<Rightarrow> string" where
  "CommandKindName k =
     (let idx = kind_index k
      in if idx < length kCommandKindNames then kCommandKindNames ! idx else ''Unknown'')"

fun CommandMatchesEvent :: "CommandEvent \<Rightarrow> CommandEvent \<Rightarrow> bool" where
  "CommandMatchesEvent produced expected =
     (if ce_kind produced \<noteq> ce_kind expected then False
      else (case ce_kind produced of
              Activity \<Rightarrow> ce_id produced = ce_id expected \<and> ce_name produced = ce_name expected
            | ChildWorkflow \<Rightarrow> ce_id produced = ce_id expected \<and> ce_name produced = ce_name expected
            | RequestCancelActivity \<Rightarrow> ce_id produced = ce_id expected
            | RequestCancelExternalWorkflow \<Rightarrow> ce_id produced = ce_id expected
            | SignalExternalWorkflow \<Rightarrow> ce_id produced = ce_id expected
            | UpsertSearchAttributes \<Rightarrow> ce_id produced = ce_id expected
            | Timer \<Rightarrow> ce_id produced = ce_id expected
            | CancelTimer \<Rightarrow> ce_id produced = ce_id expected
            | NexusOperation \<Rightarrow> ce_id produced = ce_id expected
            | Marker \<Rightarrow> ce_id produced = ce_id expected
            | CompleteWorkflow \<Rightarrow> True
            | FailWorkflow \<Rightarrow> True
            | ContinueAsNew \<Rightarrow> True))"

declare CommandMatchesEvent.simps [simp del]

definition Describe :: "CommandEvent \<Rightarrow> string" where
  "Describe c =
     CommandKindName (ce_kind c)
     @ (if ce_id c \<noteq> [] then ''/'' @ ce_id c else [])
     @ (if ce_name c \<noteq> [] then ''/'' @ ce_name c else [])"

definition missing_message :: "CommandEvent \<Rightarrow> string" where
  "missing_message e =
     ''[TMPRL1100] nondeterministic workflow: missing replay command for history '' @ Describe e"

definition mismatch_message :: "nat \<Rightarrow> CommandEvent \<Rightarrow> CommandEvent \<Rightarrow> string" where
  "mismatch_message i p e =
     ''[TMPRL1100] nondeterministic workflow: at command #'' @ nat_to_string i
     @ '' history recorded '' @ Describe e @ '' but replay produced '' @ Describe p"

text \<open>The loop over \<^verbatim>\<open>expected\<close>, with its index \<^verbatim>\<open>i\<close>.\<close>

function match_from ::
  "CommandEvent list \<Rightarrow> CommandEvent list \<Rightarrow> nat \<Rightarrow> string option" where
  "match_from produced expected i =
     (if i < length expected then
        (if length produced \<le> i then Some (missing_message (expected ! i))
         else if \<not> CommandMatchesEvent (produced ! i) (expected ! i)
           then Some (mismatch_message i (produced ! i) (expected ! i))
         else match_from produced expected (Suc i))
      else None)"
  by pat_completeness auto
termination
  by (relation "measure (\<lambda>(p, e, i). length e - i)") auto

declare match_from.simps [simp del]

definition MatchReplayCommands ::
  "CommandEvent list \<Rightarrow> CommandEvent list \<Rightarrow> string option" where
  "MatchReplayCommands produced expected = match_from produced expected 0"

section \<open>Facts\<close>

lemma mk_command_event_simps [simp]:
  "ce_kind (mk_command_event k i n) = k"
  "ce_id (mk_command_event k i n) = i"
  "ce_name (mk_command_event k i n) = n"
  by (simp_all add: mk_command_event_def)

lemma length_kCommandKindNames [simp]: "length kCommandKindNames = 13"
  by (simp add: kCommandKindNames_def)

lemma kind_index_bound [simp]: "kind_index k < 13"
  by (cases k) auto

lemma CommandKindName_nth: "CommandKindName k = kCommandKindNames ! kind_index k"
  by (simp add: CommandKindName_def Let_def)

lemma CommandMatchesEvent_refl [simp]: "CommandMatchesEvent c c"
  by (simp add: CommandMatchesEvent.simps split: kind.split)

lemma CommandMatchesEvent_sym: "CommandMatchesEvent a b \<Longrightarrow> CommandMatchesEvent b a"
  by (auto simp: CommandMatchesEvent.simps split: if_splits kind.splits)

lemma CommandMatchesEvent_trans:
  "CommandMatchesEvent a b \<Longrightarrow> CommandMatchesEvent b c \<Longrightarrow> CommandMatchesEvent a c"
  by (auto simp: CommandMatchesEvent.simps split: if_splits kind.splits)

text \<open>What the loop finds from index \<open>i\<close> on.\<close>

definition agrees_at :: "CommandEvent list \<Rightarrow> CommandEvent list \<Rightarrow> nat \<Rightarrow> bool" where
  "agrees_at produced expected i \<longleftrightarrow>
     i < length produced \<and> CommandMatchesEvent (produced ! i) (expected ! i)"

lemma match_from_None_iff:
  "match_from produced expected i = None \<longleftrightarrow>
     (\<forall>j. i \<le> j \<and> j < length expected \<longrightarrow> agrees_at produced expected j)"
proof (induction produced expected i rule: match_from.induct)
  case (1 produced expected i)
  show ?case
  proof (cases "i < length expected \<and> agrees_at produced expected i")
    case True
    then have "match_from produced expected i = match_from produced expected (Suc i)"
      by (subst match_from.simps) (auto simp: agrees_at_def)
    moreover from True "1.IH" have "match_from produced expected (Suc i) = None \<longleftrightarrow>
        (\<forall>j. Suc i \<le> j \<and> j < length expected \<longrightarrow> agrees_at produced expected j)"
      by (auto simp: agrees_at_def)
    ultimately show ?thesis using True by (metis Suc_leI le_neq_implies_less le_SucI Suc_le_eq less_or_eq_imp_le)
  next
    case False
    then show ?thesis
      by (subst match_from.simps) (auto simp: agrees_at_def)
  qed
qed

lemma match_from_first:
  assumes "i \<le> k" and "k < length expected" and "\<not> agrees_at produced expected k"
    and "\<forall>j. i \<le> j \<and> j < k \<longrightarrow> agrees_at produced expected j"
  shows "match_from produced expected i =
    Some (if length produced \<le> k then missing_message (expected ! k)
          else mismatch_message k (produced ! k) (expected ! k))"
  using assms
proof (induction produced expected i rule: match_from.induct)
  case (1 produced expected i)
  show ?case
  proof (cases "i = k")
    case True
    with "1.prems" show ?thesis
      by (subst match_from.simps) (auto simp: agrees_at_def)
  next
    case False
    with "1.prems" have "agrees_at produced expected i" and "i < length expected" by auto
    then have "match_from produced expected i = match_from produced expected (Suc i)"
      by (subst match_from.simps) (auto simp: agrees_at_def)
    with "1.IH" "1.prems" False \<open>agrees_at produced expected i\<close> \<open>i < length expected\<close>
    show ?thesis by (auto simp: agrees_at_def)
  qed
qed

lemma agrees_everywhere_iff:
  "(\<forall>j < n. agrees_at produced expected j) \<longleftrightarrow>
     n \<le> length produced \<and> (\<forall>j < n. CommandMatchesEvent (produced ! j) (expected ! j))"
proof (cases "n \<le> length produced")
  case True
  then show ?thesis by (auto simp: agrees_at_def)
next
  case False
  then have "\<not> agrees_at produced expected (length produced)" and "length produced < n"
    by (simp_all add: agrees_at_def)
  with False show ?thesis by blast
qed

lemma MatchReplayCommands_None:
  "MatchReplayCommands produced expected = None \<longleftrightarrow>
     list_all2 CommandMatchesEvent (take (length expected) produced) expected"
  by (simp add: MatchReplayCommands_def match_from_None_iff list_all2_take_iff
      flip: agrees_everywhere_iff)

lemma MatchReplayCommands_self [simp]: "MatchReplayCommands cs cs = None"
  by (simp add: MatchReplayCommands_None list_all2_refl)

section \<open>The verdict\<close>

text \<open>
  C13. The determinism check accepts exactly when the commands the replay produced start with ones
  that match the recorded commands pairwise; otherwise it reports the first recorded command that
  has no match: missing if the replay produced too few, else a mismatch at its position.
\<close>

theorem MatchReplayCommands_verdict:
  "MatchReplayCommands produced expected =
     (if list_all2 CommandMatchesEvent (take (length expected) produced) expected then None
      else (let k = (LEAST i. i < length expected \<and> \<not> agrees_at produced expected i)
            in Some (if length produced \<le> k then missing_message (expected ! k)
                     else mismatch_message k (produced ! k) (expected ! k))))"
proof (cases "list_all2 CommandMatchesEvent (take (length expected) produced) expected")
  case True
  then show ?thesis by (simp add: MatchReplayCommands_None)
next
  case False
  define k where "k = (LEAST i. i < length expected \<and> \<not> agrees_at produced expected i)"
  from False obtain i where "i < length expected \<and> \<not> agrees_at produced expected i"
    by (auto simp: list_all2_take_iff simp flip: agrees_everywhere_iff)
  then have bad: "k < length expected \<and> \<not> agrees_at produced expected k"
    unfolding k_def by (rule LeastI)
  have "agrees_at produced expected j" if "j < k" for j
    using not_less_Least [OF that [unfolded k_def]] that bad by simp
  with bad have "match_from produced expected 0 = Some (if length produced \<le> k
      then missing_message (expected ! k) else mismatch_message k (produced ! k) (expected ! k))"
    by (intro match_from_first) simp_all
  with False show ?thesis by (simp only: MatchReplayCommands_def Let_def if_False flip: k_def)
qed

end
