(* ===== verification/Proto_Util.thy ===== *)
theory Proto_Util
  imports Prelude
begin

unbundle bit_operations_syntax

text \<open>
  Values that cross the wire (\<^verbatim>\<open>include/temporal/common/payload.h\<close>, \<^verbatim>\<open>options.h\<close>) and their
  protobuf form (\<^verbatim>\<open>src/internal/proto_util.cpp\<close>). A protobuf message is a record with the fields
  the SDK reads or writes; an unset sub-message is \<open>None\<close>. A payload's metadata is a partial map
  from keys to byte strings.
\<close>

section \<open>Payloads\<close>

record Payload =
  metadata :: "string \<rightharpoonup> string"
  pdata :: string

type_synonym Payloads = "Payload list"

definition empty_payload :: Payload where
  "empty_payload = \<lparr>metadata = Map.empty, pdata = []\<rparr>"

record proto_payload =
  pb_metadata :: "string \<rightharpoonup> string"
  pb_data :: string

definition ToProtoPayload :: "Payload \<Rightarrow> proto_payload" where
  "ToProtoPayload p = \<lparr>pb_metadata = metadata p, pb_data = pdata p\<rparr>"

definition FromProtoPayload :: "proto_payload \<Rightarrow> Payload" where
  "FromProtoPayload p = \<lparr>metadata = pb_metadata p, pdata = pb_data p\<rparr>"

definition ToProtoPayloads :: "Payloads \<Rightarrow> proto_payload list" where
  "ToProtoPayloads ps = map ToProtoPayload ps"

definition FromProtoPayloads :: "proto_payload list \<Rightarrow> Payloads" where
  "FromProtoPayloads ps = map FromProtoPayload ps"

section \<open>Durations\<close>

text \<open>
  A \<^verbatim>\<open>std::chrono::nanoseconds\<close> count is an integer. \<^verbatim>\<open>duration_cast\<close> to seconds truncates; the
  remainder is cast to \<^verbatim>\<open>std::int32_t\<close>.
\<close>

record proto_duration =
  dur_seconds :: int
  dur_nanos :: int

definition ns_per_s :: int where
  "ns_per_s = 1000000000"

definition int32_cast :: "int \<Rightarrow> int" where
  "int32_cast i = sint (word_of_int i :: 32 word)"

definition ToProtoDuration :: "int \<Rightarrow> proto_duration" where
  "ToProtoDuration d =
     (let secs = tdiv d ns_per_s
      in \<lparr>dur_seconds = secs, dur_nanos = int32_cast (d - secs * ns_per_s)\<rparr>)"

definition duration_ns :: "proto_duration \<Rightarrow> int" where
  "duration_ns d = dur_seconds d * ns_per_s + dur_nanos d"

section \<open>Retry policies\<close>

text \<open>Intervals are milliseconds; the backoff coefficient is the value of the \<^verbatim>\<open>double\<close>.\<close>

record RetryPolicy =
  initial_interval :: int
  backoff_coefficient :: rat
  maximum_interval :: int
  maximum_attempts :: int
  non_retryable_error_types :: "string list"

record proto_retry_policy =
  rp_initial_interval :: "proto_duration option"
  rp_backoff_coefficient :: rat
  rp_maximum_interval :: "proto_duration option"
  rp_maximum_attempts :: int
  rp_non_retryable :: "string list"

definition ms_to_ns :: "int \<Rightarrow> int" where
  "ms_to_ns ms = ms * 1000000"

definition ToProtoRetryPolicy :: "RetryPolicy \<Rightarrow> proto_retry_policy" where
  "ToProtoRetryPolicy p =
     \<lparr>rp_initial_interval =
        (if initial_interval p > 0 then Some (ToProtoDuration (ms_to_ns (initial_interval p))) else None),
      rp_backoff_coefficient = (if backoff_coefficient p > 0 then backoff_coefficient p else 0),
      rp_maximum_interval =
        (if maximum_interval p > 0 then Some (ToProtoDuration (ms_to_ns (maximum_interval p))) else None),
      rp_maximum_attempts = (if maximum_attempts p \<noteq> 0 then maximum_attempts p else 0),
      rp_non_retryable = non_retryable_error_types p\<rparr>"

section \<open>Failures\<close>

record app_failure_info =
  afi_type :: string
  afi_non_retryable :: bool

record Failure =
  f_message :: string
  f_source :: string
  f_app :: "app_failure_info option"

text \<open>
  \<^verbatim>\<open>failure.application_failure_info().type()\<close> on a failure without that sub-message reads the
  default, the empty string.
\<close>

definition app_type :: "Failure \<Rightarrow> string" where
  "app_type f = (case f_app f of None \<Rightarrow> [] | Some i \<Rightarrow> afi_type i)"

definition MakeApplicationFailure :: "string \<Rightarrow> string \<Rightarrow> bool \<Rightarrow> Failure" where
  "MakeApplicationFailure message type nonretry =
     \<lparr>f_message = message, f_source = [],
      f_app = Some \<lparr>afi_type = (if type \<noteq> [] then type else []), afi_non_retryable = nonretry\<rparr>\<rparr>"

section \<open>Identities\<close>

text \<open>
  \<^verbatim>\<open>gethostname\<close> fills the buffer or fails; the string is read up to the first NUL of the 256
  bytes, the last of which is always NUL.
\<close>

definition DefaultIdentity :: "int \<Rightarrow> string option \<Rightarrow> string" where
  "DefaultIdentity pid host =
     to_string pid @ ''@''
     @ (case host of None \<Rightarrow> [] | Some h \<Rightarrow> takeWhile (\<lambda>c. c \<noteq> char_of (0 :: nat)) (take 255 h))"

definition hex_char :: "nat \<Rightarrow> char" where
  "hex_char n = (''0123456789abcdef'' ! n)"

text \<open>\<^verbatim>\<open>%0Nx\<close> of a value below \<^verbatim>\<open>16 ^ N\<close>: exactly \<^verbatim>\<open>N\<close> hexadecimal digits.\<close>

fun hex_digits :: "nat \<Rightarrow> nat \<Rightarrow> string" where
  "hex_digits 0 n = []"
| "hex_digits (Suc w) n = hex_digits w (n div 16) @ [hex_char (n mod 16)]"

text \<open>The two 64-bit words are the draws of the generator.\<close>

definition NewUuid :: "64 word \<Rightarrow> 64 word \<Rightarrow> string" where
  "NewUuid a b =
     hex_digits 8 (unat (ucast (drop_bit 32 a) :: 32 word)) @ ''-''
     @ hex_digits 4 (unat (ucast (drop_bit 16 a AND 0xffff) :: 32 word)) @ ''-4''
     @ hex_digits 3 (unat (ucast (a AND 0x0fff) :: 32 word)) @ ''-''
     @ hex_digits 4 (unat (ucast ((drop_bit 48 b AND 0x3fff) OR 0x8000) :: 32 word)) @ ''-''
     @ hex_digits 12 (unat (b AND 0xffffffffffff))"

section \<open>Facts\<close>

lemma payload_roundtrip [wire_simps, simp]: "FromProtoPayload (ToProtoPayload p) = p"
  by (simp add: FromProtoPayload_def ToProtoPayload_def)

lemma proto_payload_roundtrip [wire_simps, simp]: "ToProtoPayload (FromProtoPayload p) = p"
  by (simp add: FromProtoPayload_def ToProtoPayload_def)

lemma payloads_roundtrip [wire_simps, simp]: "FromProtoPayloads (ToProtoPayloads ps) = ps"
  by (simp add: FromProtoPayloads_def ToProtoPayloads_def comp_def)

lemma proto_payloads_roundtrip [wire_simps, simp]: "ToProtoPayloads (FromProtoPayloads ps) = ps"
  by (simp add: FromProtoPayloads_def ToProtoPayloads_def comp_def)

lemma ToProtoPayloads_Nil [simp]: "ToProtoPayloads [] = []" "FromProtoPayloads [] = []"
  by (simp_all add: ToProtoPayloads_def FromProtoPayloads_def)

lemma ToProtoPayloads_eq_Nil [simp]:
  "ToProtoPayloads ps = [] \<longleftrightarrow> ps = []" "FromProtoPayloads qs = [] \<longleftrightarrow> qs = []"
  by (simp_all add: ToProtoPayloads_def FromProtoPayloads_def)

lemma app_type_MakeApplicationFailure [simp]:
  "app_type (MakeApplicationFailure m t r) = t" "f_message (MakeApplicationFailure m t r) = m"
  by (simp_all add: app_type_def MakeApplicationFailure_def)

lemma int32_cast_id: "- (2 ^ 31) \<le> i \<Longrightarrow> i < 2 ^ 31 \<Longrightarrow> int32_cast i = i"
  by (simp add: int32_cast_def sint_sbintrunc' signed_take_bit_int_eq_self)

lemma tdiv_rest:
  assumes "0 < b"
  shows "\<bar>a - tdiv a b * b\<bar> < b" and "a - tdiv a b * b \<noteq> 0 \<Longrightarrow> sgn (a - tdiv a b * b) = sgn a"
proof -
  have "a - tdiv a b * b = (if 0 \<le> a then a mod b else - ((- a) mod b))"
    using assms by (auto simp: tdiv_neg minus_div_mult_eq_mod [symmetric] algebra_simps not_le)
  moreover have "0 \<le> a mod b" "a mod b < b" "0 \<le> (- a) mod b" "(- a) mod b < b"
    using assms by simp_all
  ultimately show "\<bar>a - tdiv a b * b\<bar> < b"
    and "a - tdiv a b * b \<noteq> 0 \<Longrightarrow> sgn (a - tdiv a b * b) = sgn a"
    by (auto simp: sgn_if less_le split: if_splits)
qed

lemma ToProtoDuration_nanos:
  "dur_nanos (ToProtoDuration d) = d - tdiv d ns_per_s * ns_per_s"
proof -
  have "\<bar>d - tdiv d ns_per_s * ns_per_s\<bar> < ns_per_s"
    by (rule tdiv_rest) (simp add: ns_per_s_def)
  then show ?thesis
    by (auto simp: ToProtoDuration_def Let_def ns_per_s_def intro!: int32_cast_id)
qed

lemma duration_roundtrip: "duration_ns (ToProtoDuration d) = d"
  by (simp add: duration_ns_def ToProtoDuration_nanos) (simp add: ToProtoDuration_def Let_def)

lemma length_hex_digits [simp]: "length (hex_digits w n) = w"
  by (induction w arbitrary: n) auto

lemma hex_digits_hex: "c \<in> set (hex_digits w n) \<Longrightarrow> c \<in> set ''0123456789abcdef''"
proof (induction w arbitrary: n)
  case (Suc w)
  have "hex_char (n mod 16) \<in> set ''0123456789abcdef''"
    unfolding hex_char_def by (rule nth_mem) simp
  with Suc show ?case by (metis Un_iff empty_iff hex_digits.simps(2) insert_iff list.set set_append)
qed simp

section \<open>Wire values\<close>

text \<open>
  Durations survive the wire: seconds and nanoseconds together are the duration they came from,
  the nanoseconds stay below a second in absolute value, so the 32-bit cast loses nothing, and they
  have the sign of the duration, as protobuf requires.
\<close>

theorem duration_wire_form:
  "duration_ns (ToProtoDuration d) = d \<and> \<bar>dur_nanos (ToProtoDuration d)\<bar> < ns_per_s
   \<and> (dur_nanos (ToProtoDuration d) = 0 \<or> sgn (dur_nanos (ToProtoDuration d)) = sgn d)"
proof -
  have p: "0 < ns_per_s" by (simp add: ns_per_s_def)
  show ?thesis
    using duration_roundtrip [of d] tdiv_rest [OF p, of d] by (auto simp: ToProtoDuration_nanos)
qed

lemma variant_nibble:
  fixes x :: "64 word"
  shows "\<exists>m < 2 ^ 14. unat (ucast ((x AND 0x3fff) OR 0x8000) :: 32 word) = 0x8000 + m"
proof -
  let ?y = "x AND 0x3fff"
  have m: "?y = take_bit 14 x" by (simp add: take_bit_eq_mask mask_eq_exp_minus_1)
  have "?y AND 0x8000 = 0" by (simp add: and.assoc)
  then have "?y OR 0x8000 = ?y + 0x8000" by (simp add: disjunctive_add_eq_or)
  moreover have lt: "unat ?y < 2 ^ 14"
    unfolding m unsigned_take_bit_eq by (rule take_bit_nat_less_exp)
  ultimately have "unat (?y OR 0x8000) = unat ?y + 0x8000"
    by (simp add: unat_word_ariths)
  with lt show ?thesis
    by (intro exI [of _ "unat ?y"]) (simp add: unsigned_ucast_eq take_bit_nat_eq_self)
qed

lemma variant_digit:
  fixes x :: "64 word"
  shows "hex_digits 4 (unat (ucast ((x AND 0x3fff) OR 0x8000) :: 32 word)) ! 0 \<in> set ''89ab''"
proof -
  obtain m where m: "m < 2 ^ 14" "unat (ucast ((x AND 0x3fff) OR 0x8000) :: 32 word) = 0x8000 + m"
    using variant_nibble by blast
  have h: "hex_digits 4 n ! 0 = hex_char (n div 4096 mod 16)" for n
  proof -
    have "(4 :: nat) = Suc (Suc (Suc (Suc 0)))" by simp
    then have "hex_digits 4 n ! 0 = hex_char (n div 16 div 16 div 16 mod 16)" by (simp only:) simp
    then show ?thesis by (simp flip: div_mult2_eq)
  qed
  have "(0x8000 + m) div 4096 = 8 + m div 4096" by simp
  moreover have "m div 4096 < 4" using m(1) by (simp add: less_mult_imp_div_less)
  ultimately have "(0x8000 + m) div 4096 mod 16 \<in> {8, 9, 10, 11}" by auto
  then show ?thesis unfolding m(2) h by (auto simp: hex_char_def)
qed

text \<open>
  Generated ids have the form of a version-4 UUID: 36 characters, hyphens at the four places,
  version digit 4, a variant digit of 8, 9, a or b, and hexadecimal digits elsewhere, for every
  pair of random words.
\<close>

theorem NewUuid_is_v4:
  "length (NewUuid a b) = 36
   \<and> (NewUuid a b ! 8 = CHR ''-'' \<and> NewUuid a b ! 13 = CHR ''-'' \<and> NewUuid a b ! 18 = CHR ''-'' \<and> NewUuid a b ! 23 = CHR ''-'')
   \<and> NewUuid a b ! 14 = CHR ''4'' \<and> NewUuid a b ! 19 \<in> set ''89ab''
   \<and> set (NewUuid a b) \<subseteq> insert (CHR ''-'') (set ''0123456789abcdef'')"
proof -
  define p1 p2 p3 p4 p5 where p: "p1 = hex_digits 8 (unat (ucast (drop_bit 32 a) :: 32 word))"
    "p2 = hex_digits 4 (unat (ucast (drop_bit 16 a AND 0xffff) :: 32 word))"
    "p3 = hex_digits 3 (unat (ucast (a AND 0x0fff) :: 32 word))"
    "p4 = hex_digits 4 (unat (ucast ((drop_bit 48 b AND 0x3fff) OR 0x8000) :: 32 word))"
    "p5 = hex_digits 12 (unat (b AND 0xffffffffffff))"
  have u: "NewUuid a b = p1 @ ''-'' @ p2 @ ''-4'' @ p3 @ ''-'' @ p4 @ ''-'' @ p5"
    by (simp only: NewUuid_def p)
  have l: "length p1 = 8" "length p2 = 4" "length p3 = 3" "length p4 = 4" "length p5 = 12"
    by (simp_all only: p length_hex_digits)
  define H where "H = set ''0123456789abcdef''"
  have s: "set p1 \<union> set p2 \<union> set p3 \<union> set p4 \<union> set p5 \<subseteq> H"
    unfolding p H_def using hex_digits_hex by blast
  have four: "CHR ''4'' \<in> H" by (simp add: H_def)
  have v: "p4 ! 0 \<in> set ''89ab''" unfolding p by (rule variant_digit)
  have "set (NewUuid a b) \<subseteq> insert (CHR ''-'') H" using s four unfolding u by auto
  moreover have "NewUuid a b ! 19 = p4 ! 0" unfolding u by (simp add: nth_append l)
  ultimately show ?thesis using v unfolding u H_def [symmetric] by (simp add: nth_append l)
qed

end
