(* ===== verification/History.thy ===== *)
theory History
  imports Determinism Proto_Util
begin

text \<open>
  The history prescan (\<^verbatim>\<open>src/internal/workflow_task_handler.cpp\<close>, \<^verbatim>\<open>ScanHistory\<close>): the history
  events with the attributes the SDK reads, the outcome records, the \<^verbatim>\<open>Prescan\<close> and the fold that
  builds it. A protobuf map or \<^verbatim>\<open>unordered_map\<close> is a partial map; \<^verbatim>\<open>m[k].field = v\<close> on a missing
  key first inserts the default, which \<open>map_at\<close> writes out. The lemmas show which commands the
  scan expects, that a completion event resolves exactly the activity whose schedule event it
  names, and how the update timeline splits the history.
\<close>

section \<open>Events\<close>

datatype activity_event =
    ActivityTaskScheduled string string
  | ActivityTaskCancelRequested int
  | ActivityTaskCompleted int "proto_payload list"
  | ActivityTaskFailed int Failure
  | ActivityTaskTimedOut int
  | ActivityTaskCanceled int

datatype timer_event =
    TimerStarted string
  | TimerFired string
  | TimerCanceled string

datatype child_event =
    StartChildWorkflowExecutionInitiated string string
  | ChildWorkflowExecutionCompleted string "proto_payload list"
  | ChildWorkflowExecutionFailed string Failure
  | ChildWorkflowExecutionCanceled string

datatype external_event =
    RequestCancelExternalWorkflowExecutionInitiated string
  | SignalExternalWorkflowExecutionInitiated string
  | UpsertWorkflowSearchAttributes

datatype nexus_event =
    NexusOperationScheduled
  | NexusOperationCompleted int proto_payload
  | NexusOperationFailed int Failure
  | NexusOperationTimedOut int
  | NexusOperationCanceled int

text \<open>
  The events of the workflow execution itself. \<open>OtherEvent\<close> is every event type the two
  \<^verbatim>\<open>switch\<close> statements send to their \<^verbatim>\<open>default\<close>.
\<close>

datatype event_attrs =
    WorkflowExecutionStarted string "proto_payload list" "string \<rightharpoonup> proto_payload"
  | ActivityEv activity_event
  | TimerEv timer_event
  | ChildEv child_event
  | ExternalEv external_event
  | NexusEv nexus_event
  | WorkflowExecutionSignaled string "proto_payload list"
  | WorkflowExecutionUpdateAccepted string "proto_payload list"
  | WorkflowExecutionCancelRequested
  | MarkerRecorded string "string \<rightharpoonup> proto_payload list"
  | WorkflowExecutionCompleted
  | WorkflowExecutionFailed
  | WorkflowExecutionContinuedAsNew
  | OtherEvent

record HistoryEvent =
  event_id :: int
  attrs :: event_attrs

section \<open>Outcomes and the prescan\<close>

record ActivityOutcome =
  ao_scheduled :: bool
  ao_resolved :: bool
  ao_failed :: bool
  ao_cancel_requested :: bool
  ao_result :: Payloads
  ao_failure_type :: string
  ao_failure_message :: string

definition no_activity :: ActivityOutcome where
  "no_activity = \<lparr>ao_scheduled = False, ao_resolved = False, ao_failed = False,
     ao_cancel_requested = False, ao_result = [], ao_failure_type = [], ao_failure_message = []\<rparr>"

record TimerOutcome =
  to_started :: bool
  to_fired :: bool
  to_cancelled :: bool

definition no_timer :: TimerOutcome where
  "no_timer = \<lparr>to_started = False, to_fired = False, to_cancelled = False\<rparr>"

record ChildOutcome =
  co_initiated :: bool
  co_cancel_requested :: bool
  co_resolved :: bool
  co_failed :: bool
  co_result :: Payloads
  co_failure_type :: string
  co_failure_message :: string

definition no_child :: ChildOutcome where
  "no_child = \<lparr>co_initiated = False, co_cancel_requested = False, co_resolved = False, co_failed = False,
     co_result = [], co_failure_type = [], co_failure_message = []\<rparr>"

record NexusOpOutcome =
  no_scheduled :: bool
  no_resolved :: bool
  no_failed :: bool
  no_result :: Payloads
  no_failure_type :: string
  no_failure_message :: string

definition no_nexus_op :: NexusOpOutcome where
  "no_nexus_op = \<lparr>no_scheduled = False, no_resolved = False, no_failed = False,
     no_result = [], no_failure_type = [], no_failure_message = []\<rparr>"

record MutableSideEffectMarkerRaw =
  mse_id :: Payload
  mse_call_index :: Payload
  mse_data :: Payload

record LocalActivityMarkerRaw =
  la_failed :: bool
  la_result :: Payloads
  la_failure_type :: Payload
  la_failure_message :: Payload

datatype ReplayStep =
    ReplayEvent HistoryEvent
  | ReplayUpdate string Payloads

record Prescan =
  ps_input :: Payloads
  ps_headers :: "string \<rightharpoonup> Payload"
  activities :: "string \<rightharpoonup> ActivityOutcome"
  timers :: "string \<rightharpoonup> TimerOutcome"
  children :: "string \<rightharpoonup> ChildOutcome"
  nexus_ops :: "string \<rightharpoonup> NexusOpOutcome"
  signals :: "string \<rightharpoonup> Payloads list"
  cancel_requested :: bool
  ext_signals_initiated :: nat
  upserts_initiated :: nat
  sched_event_to_activity :: "int \<rightharpoonup> string"
  activity_to_sched_event :: "string \<rightharpoonup> int"
  sched_event_to_nexus :: "int \<rightharpoonup> string"
  nexus_ops_scheduled :: nat
  last_event_id :: int
  ps_commands :: "CommandEvent list"
  side_effects :: "Payload list"
  version_markers :: "(Payloads \<times> Payloads) list"
  mutable_side_effect_markers :: "MutableSideEffectMarkerRaw list"
  local_activities :: "LocalActivityMarkerRaw list"
  post_update_timeline :: "ReplayStep list"

definition empty_prescan :: Prescan where
  "empty_prescan = \<lparr>ps_input = [], ps_headers = Map.empty, activities = Map.empty, timers = Map.empty,
     children = Map.empty, nexus_ops = Map.empty, signals = Map.empty, cancel_requested = False,
     ext_signals_initiated = 0, upserts_initiated = 0, sched_event_to_activity = Map.empty,
     activity_to_sched_event = Map.empty, sched_event_to_nexus = Map.empty, nexus_ops_scheduled = 0,
     last_event_id = 0, ps_commands = [], side_effects = [], version_markers = [],
     mutable_side_effect_markers = [], local_activities = [], post_update_timeline = []\<rparr>"

text \<open>\<^verbatim>\<open>operator[]\<close> followed by an update of the slot.\<close>

definition map_at :: "'b \<Rightarrow> 'a \<Rightarrow> ('b \<Rightarrow> 'b) \<Rightarrow> ('a \<rightharpoonup> 'b) \<Rightarrow> 'a \<rightharpoonup> 'b" where
  "map_at d k f m = m(k \<mapsto> f (case m k of None \<Rightarrow> d | Some x \<Rightarrow> x))"

definition push_command :: "CommandEvent \<Rightarrow> Prescan \<Rightarrow> Prescan" where
  "push_command c ps = ps\<lparr>ps_commands := ps_commands ps @ [c]\<rparr>"

section \<open>One event\<close>

definition at_activity ::
  "string \<Rightarrow> (ActivityOutcome \<Rightarrow> ActivityOutcome) \<Rightarrow> Prescan \<Rightarrow> Prescan" where
  "at_activity i f ps = ps\<lparr>activities := map_at no_activity i f (activities ps)\<rparr>"

text \<open>The lookup of the schedule event id that guards every activity outcome.\<close>

definition at_scheduled_activity ::
  "int \<Rightarrow> (ActivityOutcome \<Rightarrow> ActivityOutcome) \<Rightarrow> Prescan \<Rightarrow> Prescan" where
  "at_scheduled_activity sid f ps =
     (case sched_event_to_activity ps sid of None \<Rightarrow> ps | Some i \<Rightarrow> at_activity i f ps)"

definition activity_failure :: "string \<Rightarrow> string \<Rightarrow> ActivityOutcome \<Rightarrow> ActivityOutcome" where
  "activity_failure type msg o1 =
     o1\<lparr>ao_resolved := True, ao_failed := True, ao_failure_message := msg, ao_failure_type := type\<rparr>"

fun scan_activity :: "int \<Rightarrow> activity_event \<Rightarrow> Prescan \<Rightarrow> Prescan" where
  "scan_activity eid (ActivityTaskScheduled i type) ps =
     push_command (mk_command_event Activity i type)
       ((at_activity i (\<lambda>o1. o1\<lparr>ao_scheduled := True\<rparr>) ps)
          \<lparr>sched_event_to_activity := (sched_event_to_activity ps)(eid \<mapsto> i),
           activity_to_sched_event := (activity_to_sched_event ps)(i \<mapsto> eid)\<rparr>)"
| "scan_activity eid (ActivityTaskCancelRequested sid) ps =
     at_scheduled_activity sid (\<lambda>o1. o1\<lparr>ao_cancel_requested := True\<rparr>)
       (push_command (mk_command_event RequestCancelActivity (to_string sid) []) ps)"
| "scan_activity eid (ActivityTaskCompleted sid res) ps =
     at_scheduled_activity sid (\<lambda>o1. o1\<lparr>ao_resolved := True, ao_result := FromProtoPayloads res\<rparr>) ps"
| "scan_activity eid (ActivityTaskFailed sid fl) ps =
     at_scheduled_activity sid (activity_failure (app_type fl) (f_message fl)) ps"
| "scan_activity eid (ActivityTaskTimedOut sid) ps =
     at_scheduled_activity sid (activity_failure ''TimeoutError'' ''activity timed out'') ps"
| "scan_activity eid (ActivityTaskCanceled sid) ps =
     at_scheduled_activity sid (activity_failure ''CanceledError'' ''activity cancelled'') ps"

definition at_timer :: "string \<Rightarrow> (TimerOutcome \<Rightarrow> TimerOutcome) \<Rightarrow> Prescan \<Rightarrow> Prescan" where
  "at_timer i f ps = ps\<lparr>timers := map_at no_timer i f (timers ps)\<rparr>"

fun scan_timer :: "timer_event \<Rightarrow> Prescan \<Rightarrow> Prescan" where
  "scan_timer (TimerStarted i) ps =
     push_command (mk_command_event Timer i []) (at_timer i (\<lambda>t. t\<lparr>to_started := True\<rparr>) ps)"
| "scan_timer (TimerFired i) ps = at_timer i (\<lambda>t. t\<lparr>to_fired := True\<rparr>) ps"
| "scan_timer (TimerCanceled i) ps =
     push_command (mk_command_event CancelTimer i []) (at_timer i (\<lambda>t. t\<lparr>to_cancelled := True\<rparr>) ps)"

definition at_child :: "string \<Rightarrow> (ChildOutcome \<Rightarrow> ChildOutcome) \<Rightarrow> Prescan \<Rightarrow> Prescan" where
  "at_child i f ps = ps\<lparr>children := map_at no_child i f (children ps)\<rparr>"

definition child_failure :: "string \<Rightarrow> string \<Rightarrow> ChildOutcome \<Rightarrow> ChildOutcome" where
  "child_failure type msg o1 =
     o1\<lparr>co_resolved := True, co_failed := True, co_failure_message := msg, co_failure_type := type\<rparr>"

fun scan_child :: "child_event \<Rightarrow> Prescan \<Rightarrow> Prescan" where
  "scan_child (StartChildWorkflowExecutionInitiated wid type) ps =
     push_command (mk_command_event ChildWorkflow wid type)
       (at_child wid (\<lambda>o1. o1\<lparr>co_initiated := True\<rparr>) ps)"
| "scan_child (ChildWorkflowExecutionCompleted wid res) ps =
     at_child wid (\<lambda>o1. o1\<lparr>co_resolved := True, co_result := FromProtoPayloads res\<rparr>) ps"
| "scan_child (ChildWorkflowExecutionFailed wid fl) ps =
     at_child wid (child_failure (app_type fl) (f_message fl)) ps"
| "scan_child (ChildWorkflowExecutionCanceled wid) ps =
     at_child wid (child_failure ''CanceledError'' ''child workflow cancelled'') ps"

fun scan_external :: "external_event \<Rightarrow> Prescan \<Rightarrow> Prescan" where
  "scan_external (RequestCancelExternalWorkflowExecutionInitiated wid) ps =
     at_child wid (\<lambda>o1. o1\<lparr>co_cancel_requested := True\<rparr>)
       (push_command (mk_command_event RequestCancelExternalWorkflow wid []) ps)"
| "scan_external (SignalExternalWorkflowExecutionInitiated wid) ps =
     (push_command (mk_command_event SignalExternalWorkflow wid []) ps)
       \<lparr>ext_signals_initiated := Suc (ext_signals_initiated ps)\<rparr>"
| "scan_external UpsertWorkflowSearchAttributes ps =
     (push_command (mk_command_event UpsertSearchAttributes [] []) ps)
       \<lparr>upserts_initiated := Suc (upserts_initiated ps)\<rparr>"

definition at_nexus :: "string \<Rightarrow> (NexusOpOutcome \<Rightarrow> NexusOpOutcome) \<Rightarrow> Prescan \<Rightarrow> Prescan" where
  "at_nexus i f ps = ps\<lparr>nexus_ops := map_at no_nexus_op i f (nexus_ops ps)\<rparr>"

definition at_scheduled_nexus ::
  "int \<Rightarrow> (NexusOpOutcome \<Rightarrow> NexusOpOutcome) \<Rightarrow> Prescan \<Rightarrow> Prescan" where
  "at_scheduled_nexus sid f ps =
     (case sched_event_to_nexus ps sid of None \<Rightarrow> ps | Some i \<Rightarrow> at_nexus i f ps)"

definition nexus_failure :: "string \<Rightarrow> string \<Rightarrow> NexusOpOutcome \<Rightarrow> NexusOpOutcome" where
  "nexus_failure type msg o1 =
     o1\<lparr>no_resolved := True, no_failed := True, no_failure_message := msg, no_failure_type := type\<rparr>"

definition schedule_nexus :: "int \<Rightarrow> Prescan \<Rightarrow> Prescan" where
  "schedule_nexus eid ps =
     (let i = nat_to_string (nexus_ops_scheduled ps)
      in (at_nexus i (\<lambda>o1. o1\<lparr>no_scheduled := True\<rparr>) ps)
           \<lparr>nexus_ops_scheduled := Suc (nexus_ops_scheduled ps),
            sched_event_to_nexus := (sched_event_to_nexus ps)(eid \<mapsto> i)\<rparr>)"

fun scan_nexus :: "int \<Rightarrow> nexus_event \<Rightarrow> Prescan \<Rightarrow> Prescan" where
  "scan_nexus eid NexusOperationScheduled ps =
     push_command (mk_command_event NexusOperation (nat_to_string (nexus_ops_scheduled ps)) [])
       (schedule_nexus eid ps)"
| "scan_nexus eid (NexusOperationCompleted sid res) ps =
     at_scheduled_nexus sid (\<lambda>o1. o1\<lparr>no_resolved := True, no_result := [FromProtoPayload res]\<rparr>) ps"
| "scan_nexus eid (NexusOperationFailed sid fl) ps =
     at_scheduled_nexus sid (nexus_failure (app_type fl) (f_message fl)) ps"
| "scan_nexus eid (NexusOperationTimedOut sid) ps =
     at_scheduled_nexus sid (nexus_failure ''TimeoutError'' ''nexus operation timed out'') ps"
| "scan_nexus eid (NexusOperationCanceled sid) ps =
     at_scheduled_nexus sid (nexus_failure ''CanceledError'' ''nexus operation cancelled'') ps"

definition push_signal :: "string \<Rightarrow> proto_payload list \<Rightarrow> Prescan \<Rightarrow> Prescan" where
  "push_signal name input ps =
     ps\<lparr>signals := map_at [] name (\<lambda>q. q @ [FromProtoPayloads input]) (signals ps)\<rparr>"

section \<open>Markers\<close>

definition scan_side_effect :: "(string \<rightharpoonup> proto_payload list) \<Rightarrow> Prescan \<Rightarrow> Prescan" where
  "scan_side_effect details ps =
     (case details ''data'' of
        None \<Rightarrow> ps
      | Some d \<Rightarrow> (case FromProtoPayloads d of
                    [] \<Rightarrow> ps
                  | p # _ \<Rightarrow> ps\<lparr>side_effects := side_effects ps @ [p]\<rparr>))"

definition scan_version :: "(string \<rightharpoonup> proto_payload list) \<Rightarrow> Prescan \<Rightarrow> Prescan" where
  "scan_version details ps =
     (case (details ''change-id'', details ''version'') of
        (Some i, Some v) \<Rightarrow>
          ps\<lparr>version_markers := version_markers ps @ [(FromProtoPayloads i, FromProtoPayloads v)]\<rparr>
      | _ \<Rightarrow> ps)"

definition scan_mutable_side_effect :: "(string \<rightharpoonup> proto_payload list) \<Rightarrow> Prescan \<Rightarrow> Prescan" where
  "scan_mutable_side_effect details ps =
     (case (details ''id'', details ''mse-call-index'', details ''data'') of
        (Some i, Some n, Some d) \<Rightarrow>
          (case (FromProtoPayloads i, FromProtoPayloads n, FromProtoPayloads d) of
             (ip # _, np # _, dp # _) \<Rightarrow>
               ps\<lparr>mutable_side_effect_markers := mutable_side_effect_markers ps
                    @ [\<lparr>mse_id = ip, mse_call_index = np, mse_data = dp\<rparr>]\<rparr>
           | _ \<Rightarrow> ps)
      | _ \<Rightarrow> ps)"

definition first_payload :: "proto_payload list option \<Rightarrow> Payload" where
  "first_payload d =
     (case d of None \<Rightarrow> empty_payload
      | Some ps \<Rightarrow> (case FromProtoPayloads ps of [] \<Rightarrow> empty_payload | p # _ \<Rightarrow> p))"

definition local_activity_raw :: "(string \<rightharpoonup> proto_payload list) \<Rightarrow> LocalActivityMarkerRaw" where
  "local_activity_raw details =
     (case details ''failure-message'' of
        Some fm \<Rightarrow> \<lparr>la_failed = True, la_result = [],
                    la_failure_type = first_payload (details ''failure-type''),
                    la_failure_message = first_payload (Some fm)\<rparr>
      | None \<Rightarrow> \<lparr>la_failed = False,
                 la_result = (case details ''result'' of None \<Rightarrow> [] | Some r \<Rightarrow> FromProtoPayloads r),
                 la_failure_type = empty_payload, la_failure_message = empty_payload\<rparr>)"

definition scan_marker :: "string \<Rightarrow> (string \<rightharpoonup> proto_payload list) \<Rightarrow> Prescan \<Rightarrow> Prescan" where
  "scan_marker name details ps0 =
     (let ps = push_command (mk_command_event Marker name []) ps0
      in if name = ''SideEffect'' then scan_side_effect details ps
         else if name = ''Version'' then scan_version details ps
         else if name = ''MutableSideEffect'' then scan_mutable_side_effect details ps
         else if name = ''LocalActivity''
           then ps\<lparr>local_activities := local_activities ps @ [local_activity_raw details]\<rparr>
         else ps)"

section \<open>The whole history\<close>

fun IsDeferredOnReplay :: "event_attrs \<Rightarrow> bool" where
  "IsDeferredOnReplay (ActivityEv e) =
     (case e of ActivityTaskScheduled i t \<Rightarrow> False | ActivityTaskCancelRequested s \<Rightarrow> False | _ \<Rightarrow> True)"
| "IsDeferredOnReplay (TimerEv e) = (case e of TimerFired i \<Rightarrow> True | _ \<Rightarrow> False)"
| "IsDeferredOnReplay (ChildEv e) =
     (case e of StartChildWorkflowExecutionInitiated w t \<Rightarrow> False | _ \<Rightarrow> True)"
| "IsDeferredOnReplay (NexusEv e) = (case e of NexusOperationScheduled \<Rightarrow> False | _ \<Rightarrow> True)"
| "IsDeferredOnReplay (WorkflowExecutionSignaled n p) = True"
| "IsDeferredOnReplay WorkflowExecutionCancelRequested = True"
| "IsDeferredOnReplay _ = False"

fun scan_switch :: "int \<Rightarrow> event_attrs \<Rightarrow> Prescan \<Rightarrow> Prescan" where
  "scan_switch eid (WorkflowExecutionStarted type input hdr) ps =
     ps\<lparr>ps_input := FromProtoPayloads input,
        ps_headers := ps_headers ps ++ (map_option FromProtoPayload \<circ> hdr)\<rparr>"
| "scan_switch eid (ActivityEv e) ps = scan_activity eid e ps"
| "scan_switch eid (TimerEv e) ps = scan_timer e ps"
| "scan_switch eid (ChildEv e) ps = scan_child e ps"
| "scan_switch eid (ExternalEv e) ps = scan_external e ps"
| "scan_switch eid (NexusEv e) ps = scan_nexus eid e ps"
| "scan_switch eid (WorkflowExecutionSignaled name input) ps = push_signal name input ps"
| "scan_switch eid (WorkflowExecutionUpdateAccepted name args) ps =
     ps\<lparr>post_update_timeline := post_update_timeline ps @ [ReplayUpdate name (FromProtoPayloads args)]\<rparr>"
| "scan_switch eid WorkflowExecutionCancelRequested ps = ps\<lparr>cancel_requested := True\<rparr>"
| "scan_switch eid (MarkerRecorded name details) ps = scan_marker name details ps"
| "scan_switch eid WorkflowExecutionCompleted ps =
     push_command (mk_command_event CompleteWorkflow [] []) ps"
| "scan_switch eid WorkflowExecutionFailed ps =
     push_command (mk_command_event FailWorkflow [] []) ps"
| "scan_switch eid WorkflowExecutionContinuedAsNew ps =
     push_command (mk_command_event ContinueAsNew [] []) ps"
| "scan_switch eid OtherEvent ps = ps"

fun is_update_accepted :: "event_attrs \<Rightarrow> bool" where
  "is_update_accepted (WorkflowExecutionUpdateAccepted n a) = True"
| "is_update_accepted _ = False"

text \<open>The loop body, with the local \<^verbatim>\<open>seen_update\<close> beside the prescan.\<close>

definition scan_step :: "HistoryEvent \<Rightarrow> bool \<times> Prescan \<Rightarrow> bool \<times> Prescan" where
  "scan_step ev st =
     (let seen_update = fst st; ps = (snd st)\<lparr>last_event_id := event_id ev\<rparr>
      in if seen_update \<and> IsDeferredOnReplay (attrs ev)
         then (seen_update, ps\<lparr>post_update_timeline := post_update_timeline ps @ [ReplayEvent ev]\<rparr>)
         else (seen_update \<or> is_update_accepted (attrs ev), scan_switch (event_id ev) (attrs ev) ps))"

definition ScanHistory :: "HistoryEvent list \<Rightarrow> Prescan" where
  "ScanHistory h = snd (fold scan_step h (False, empty_prescan))"

section \<open>Reference readings of a history\<close>

text \<open>
  The commands a history records, read off the events alone: \<open>n\<close> counts the Nexus operations
  scheduled so far, whose ids are their ordinal.
\<close>

fun recorded_command :: "nat \<Rightarrow> event_attrs \<Rightarrow> CommandEvent option" where
  "recorded_command n (ActivityEv e) =
     (case e of ActivityTaskScheduled i t \<Rightarrow> Some (mk_command_event Activity i t)
      | ActivityTaskCancelRequested s \<Rightarrow> Some (mk_command_event RequestCancelActivity (to_string s) [])
      | _ \<Rightarrow> None)"
| "recorded_command n (TimerEv e) =
     (case e of TimerStarted i \<Rightarrow> Some (mk_command_event Timer i [])
      | TimerFired i \<Rightarrow> None
      | TimerCanceled i \<Rightarrow> Some (mk_command_event CancelTimer i []))"
| "recorded_command n (ChildEv e) =
     (case e of StartChildWorkflowExecutionInitiated w t \<Rightarrow> Some (mk_command_event ChildWorkflow w t)
      | _ \<Rightarrow> None)"
| "recorded_command n (ExternalEv e) =
     (case e of RequestCancelExternalWorkflowExecutionInitiated w \<Rightarrow>
          Some (mk_command_event RequestCancelExternalWorkflow w [])
      | SignalExternalWorkflowExecutionInitiated w \<Rightarrow>
          Some (mk_command_event SignalExternalWorkflow w [])
      | UpsertWorkflowSearchAttributes \<Rightarrow> Some (mk_command_event UpsertSearchAttributes [] []))"
| "recorded_command n (NexusEv e) =
     (case e of NexusOperationScheduled \<Rightarrow> Some (mk_command_event NexusOperation (nat_to_string n) [])
      | _ \<Rightarrow> None)"
| "recorded_command n (MarkerRecorded m d) = Some (mk_command_event Marker m [])"
| "recorded_command n WorkflowExecutionCompleted = Some (mk_command_event CompleteWorkflow [] [])"
| "recorded_command n WorkflowExecutionFailed = Some (mk_command_event FailWorkflow [] [])"
| "recorded_command n WorkflowExecutionContinuedAsNew = Some (mk_command_event ContinueAsNew [] [])"
| "recorded_command n _ = None"

fun schedules_nexus :: "event_attrs \<Rightarrow> bool" where
  "schedules_nexus (NexusEv NexusOperationScheduled) = True"
| "schedules_nexus _ = False"

fun recorded_commands :: "nat \<Rightarrow> HistoryEvent list \<Rightarrow> CommandEvent list" where
  "recorded_commands n [] = []"
| "recorded_commands n (ev # h) =
     (case recorded_command n (attrs ev) of None \<Rightarrow> [] | Some c \<Rightarrow> [c])
     @ recorded_commands (if schedules_nexus (attrs ev) then Suc n else n) h"

text \<open>
  The part of a history the prescan applies directly, and the part it holds back: after the first
  accepted update, resolutions, signals and updates form the timeline.
\<close>

fun visible :: "bool \<Rightarrow> HistoryEvent list \<Rightarrow> HistoryEvent list" where
  "visible seen [] = []"
| "visible seen (ev # h) =
     (if is_update_accepted (attrs ev) then visible True h
      else if seen \<and> IsDeferredOnReplay (attrs ev) then visible seen h
      else ev # visible seen h)"

fun to_step :: "HistoryEvent \<Rightarrow> ReplayStep" where
  "to_step ev = (case attrs ev of
      WorkflowExecutionUpdateAccepted n a \<Rightarrow> ReplayUpdate n (FromProtoPayloads a)
    | _ \<Rightarrow> ReplayEvent ev)"

fun timeline :: "bool \<Rightarrow> HistoryEvent list \<Rightarrow> ReplayStep list" where
  "timeline seen [] = []"
| "timeline seen (ev # h) =
     (if is_update_accepted (attrs ev) then to_step ev # timeline True h
      else if seen \<and> IsDeferredOnReplay (attrs ev) then to_step ev # timeline seen h
      else timeline seen h)"

section \<open>Facts on one event\<close>

lemmas scan_defs =
  push_command_def at_activity_def at_scheduled_activity_def at_timer_def at_child_def at_nexus_def
  at_scheduled_nexus_def schedule_nexus_def push_signal_def Let_def

lemma map_at_same [simp]: "map_at d k f m k = Some (f (case m k of None \<Rightarrow> d | Some x \<Rightarrow> x))"
  by (simp add: map_at_def)

lemma map_at_other [simp]: "j \<noteq> k \<Longrightarrow> map_at d k f m j = m j"
  by (simp add: map_at_def)

lemma map_at_apply:
  "map_at d k f m j = (if j = k then Some (f (case m k of None \<Rightarrow> d | Some x \<Rightarrow> x)) else m j)"
  by (simp add: map_at_def)

lemma marker_part_frame:
  "ps_commands (scan_side_effect d ps) = ps_commands ps"
  "ps_commands (scan_version d ps) = ps_commands ps"
  "ps_commands (scan_mutable_side_effect d ps) = ps_commands ps"
  "nexus_ops_scheduled (scan_side_effect d ps) = nexus_ops_scheduled ps"
  "nexus_ops_scheduled (scan_version d ps) = nexus_ops_scheduled ps"
  "nexus_ops_scheduled (scan_mutable_side_effect d ps) = nexus_ops_scheduled ps"
  "activities (scan_side_effect d ps) = activities ps"
  "activities (scan_version d ps) = activities ps"
  "activities (scan_mutable_side_effect d ps) = activities ps"
  "sched_event_to_activity (scan_side_effect d ps) = sched_event_to_activity ps"
  "sched_event_to_activity (scan_version d ps) = sched_event_to_activity ps"
  "sched_event_to_activity (scan_mutable_side_effect d ps) = sched_event_to_activity ps"
  by (simp_all add: scan_side_effect_def scan_version_def scan_mutable_side_effect_def
      split: option.split list.split)

lemma marker_part_bookkeeping:
  "scan_side_effect d (ps\<lparr>last_event_id := l, post_update_timeline := t\<rparr>)
   = (scan_side_effect d ps)\<lparr>last_event_id := l, post_update_timeline := t\<rparr>"
  "scan_version d (ps\<lparr>last_event_id := l, post_update_timeline := t\<rparr>)
   = (scan_version d ps)\<lparr>last_event_id := l, post_update_timeline := t\<rparr>"
  "scan_mutable_side_effect d (ps\<lparr>last_event_id := l, post_update_timeline := t\<rparr>)
   = (scan_mutable_side_effect d ps)\<lparr>last_event_id := l, post_update_timeline := t\<rparr>"
  by (simp_all add: scan_side_effect_def scan_version_def scan_mutable_side_effect_def
      split: option.split list.split)

lemma push_command_frame [simp]:
  "ps_commands (push_command c ps) = ps_commands ps @ [c]"
  "nexus_ops_scheduled (push_command c ps) = nexus_ops_scheduled ps"
  "activities (push_command c ps) = activities ps"
  "sched_event_to_activity (push_command c ps) = sched_event_to_activity ps"
  "push_command c (ps\<lparr>last_event_id := l, post_update_timeline := t\<rparr>)
   = (push_command c ps)\<lparr>last_event_id := l, post_update_timeline := t\<rparr>"
  by (simp_all add: push_command_def)

lemma scan_marker_cases:
  assumes "P (scan_side_effect d (push_command (mk_command_event Marker m []) ps))"
    and "P (scan_version d (push_command (mk_command_event Marker m []) ps))"
    and "P (scan_mutable_side_effect d (push_command (mk_command_event Marker m []) ps))"
    and "P ((push_command (mk_command_event Marker m []) ps)
              \<lparr>local_activities := local_activities ps @ [local_activity_raw d]\<rparr>)"
    and "P (push_command (mk_command_event Marker m []) ps)"
  shows "P (scan_marker m d ps)"
  using assms by (auto simp: scan_marker_def Let_def push_command_def)

lemma scan_marker_frame:
  "ps_commands (scan_marker m d ps) = ps_commands ps @ [mk_command_event Marker m []]"
  "nexus_ops_scheduled (scan_marker m d ps) = nexus_ops_scheduled ps"
  "activities (scan_marker m d ps) = activities ps"
  "sched_event_to_activity (scan_marker m d ps) = sched_event_to_activity ps"
  by (rule scan_marker_cases; simp add: marker_part_frame)+

lemma scan_marker_bookkeeping:
  "scan_marker m d (ps\<lparr>last_event_id := l, post_update_timeline := t\<rparr>)
   = (scan_marker m d ps)\<lparr>last_event_id := l, post_update_timeline := t\<rparr>"
  unfolding scan_marker_def Let_def push_command_frame marker_part_bookkeeping
  by (simp add: push_command_def)

lemma scan_switch_commands:
  "ps_commands (scan_switch eid a ps)
     = ps_commands ps @ (case recorded_command (nexus_ops_scheduled ps) a of None \<Rightarrow> [] | Some c \<Rightarrow> [c])"
proof (cases a)
  case (ActivityEv e)
  then show ?thesis by (cases e) (auto simp: scan_defs split: option.split)
next
  case (TimerEv e)
  then show ?thesis by (cases e) (auto simp: scan_defs)
next
  case (ChildEv e)
  then show ?thesis by (cases e) (auto simp: scan_defs)
next
  case (ExternalEv e)
  then show ?thesis by (cases e) (auto simp: scan_defs)
next
  case (NexusEv e)
  then show ?thesis by (cases e) (auto simp: scan_defs split: option.split)
next
  case (MarkerRecorded m d)
  then show ?thesis by (simp add: scan_marker_frame)
qed (simp_all add: scan_defs)

lemma scan_switch_nexus_count:
  "nexus_ops_scheduled (scan_switch eid a ps)
     = (if schedules_nexus a then Suc (nexus_ops_scheduled ps) else nexus_ops_scheduled ps)"
proof (cases a)
  case (ActivityEv e)
  then show ?thesis by (cases e) (auto simp: scan_defs split: option.split)
next
  case (TimerEv e)
  then show ?thesis by (cases e) (auto simp: scan_defs)
next
  case (ChildEv e)
  then show ?thesis by (cases e) (auto simp: scan_defs)
next
  case (ExternalEv e)
  then show ?thesis by (cases e) (auto simp: scan_defs)
next
  case (NexusEv e)
  then show ?thesis by (cases e) (auto simp: scan_defs split: option.split)
next
  case (MarkerRecorded m d)
  then show ?thesis by (simp add: scan_marker_frame)
qed (simp_all add: scan_defs)

lemma scan_switch_bookkeeping:
  assumes "\<not> is_update_accepted a"
  shows "scan_switch eid a (ps\<lparr>last_event_id := l, post_update_timeline := t\<rparr>)
    = (scan_switch eid a ps)\<lparr>last_event_id := l, post_update_timeline := t\<rparr>"
proof (cases a)
  case (ActivityEv e)
  then show ?thesis by (cases e) (auto simp: scan_defs split: option.split)
next
  case (TimerEv e)
  then show ?thesis by (cases e) (auto simp: scan_defs)
next
  case (ChildEv e)
  then show ?thesis by (cases e) (auto simp: scan_defs)
next
  case (ExternalEv e)
  then show ?thesis by (cases e) (auto simp: scan_defs)
next
  case (NexusEv e)
  then show ?thesis by (cases e) (auto simp: scan_defs split: option.split)
next
  case (MarkerRecorded m d)
  then show ?thesis by (simp add: scan_marker_bookkeeping)
qed (use assms in \<open>simp_all add: scan_defs\<close>)

lemma deferred_no_command:
  "IsDeferredOnReplay a \<Longrightarrow> recorded_command n a = None \<and> \<not> schedules_nexus a"
  by (cases a) (auto split: activity_event.splits timer_event.splits child_event.splits nexus_event.splits)

section \<open>Facts on whole histories\<close>

lemma scan_step_direct:
  "\<not> (seen \<and> IsDeferredOnReplay (attrs ev)) \<Longrightarrow>
   scan_step ev (seen, ps) = (seen \<or> is_update_accepted (attrs ev),
     scan_switch (event_id ev) (attrs ev) (ps\<lparr>last_event_id := event_id ev\<rparr>))"
  by (auto simp: scan_step_def Let_def)

lemma scan_step_deferred:
  "IsDeferredOnReplay (attrs ev) \<Longrightarrow>
   scan_step ev (True, ps) = (True, ps\<lparr>last_event_id := event_id ev,
     post_update_timeline := post_update_timeline ps @ [ReplayEvent ev]\<rparr>)"
  by (simp add: scan_step_def Let_def)

lemma scan_step_direct_bookkeeping:
  assumes "\<not> (seen \<and> IsDeferredOnReplay (attrs ev))" and "\<not> is_update_accepted (attrs ev)"
  shows "scan_step ev (seen, ps\<lparr>last_event_id := l, post_update_timeline := t\<rparr>)
    = (seen, (scan_switch (event_id ev) (attrs ev) ps)
        \<lparr>last_event_id := event_id ev, post_update_timeline := t\<rparr>)"
proof -
  have swap: "ps\<lparr>post_update_timeline := t, last_event_id := event_id ev\<rparr>
      = ps\<lparr>last_event_id := event_id ev, post_update_timeline := t\<rparr>" by simp
  show ?thesis
    using assms(2) by (simp add: scan_step_direct [OF assms(1)])
      (simp only: swap scan_switch_bookkeeping [OF assms(2)])
qed

lemma fold_scan_commands:
  "ps_commands (snd (fold scan_step h (seen, ps)))
     = ps_commands ps @ recorded_commands (nexus_ops_scheduled ps) h"
proof (induction h arbitrary: seen ps)
  case (Cons ev h)
  show ?case
  proof (cases "seen \<and> IsDeferredOnReplay (attrs ev)")
    case True
    then show ?thesis
      using Cons deferred_no_command [of "attrs ev" "nexus_ops_scheduled ps"]
      by (simp add: scan_step_deferred)
  next
    case False
    then show ?thesis
      using Cons by (simp add: scan_step_direct scan_switch_commands scan_switch_nexus_count)
  qed
qed simp

lemma ScanHistory_commands: "ps_commands (ScanHistory h) = recorded_commands 0 h"
  by (simp add: ScanHistory_def fold_scan_commands) (simp add: empty_prescan_def)

text \<open>Directly applied events, as a plain fold of the switch.\<close>

definition scan_plain :: "HistoryEvent list \<Rightarrow> Prescan \<Rightarrow> Prescan" where
  "scan_plain h ps = fold (\<lambda>ev. scan_switch (event_id ev) (attrs ev)) h ps"

lemma scan_plain_simps [simp]:
  "scan_plain [] ps = ps"
  "scan_plain (ev # h) ps = scan_plain h (scan_switch (event_id ev) (attrs ev) ps)"
  by (simp_all add: scan_plain_def)

lemma to_step_deferred: "IsDeferredOnReplay (attrs ev) \<Longrightarrow> to_step ev = ReplayEvent ev"
  by (cases "attrs ev") auto

lemma fold_scan_split:
  "snd (fold scan_step h (seen, ps\<lparr>last_event_id := l, post_update_timeline := t\<rparr>))
     = (scan_plain (visible seen h) ps)
         \<lparr>last_event_id := (if h = [] then l else event_id (last h)),
          post_update_timeline := t @ timeline seen h\<rparr>"
proof (induction h arbitrary: seen ps l t)
  case (Cons ev h)
  consider (update) n a where "attrs ev = WorkflowExecutionUpdateAccepted n a"
    | (deferred) "seen" "IsDeferredOnReplay (attrs ev)" "\<not> is_update_accepted (attrs ev)"
    | (direct) "\<not> (seen \<and> IsDeferredOnReplay (attrs ev))" "\<not> is_update_accepted (attrs ev)"
    by (cases "attrs ev") auto
  then show ?case
  proof cases
    case update
    then show ?thesis by (simp add: scan_step_direct Cons.IH [of True])
  next
    case deferred
    then show ?thesis by (simp add: scan_step_deferred to_step_deferred Cons.IH del: to_step.simps)
  next
    case direct
    then show ?thesis by (auto simp: scan_step_direct_bookkeeping Cons.IH)
  qed
qed simp

lemma ScanHistory_split:
  "ScanHistory h = (scan_plain (visible False h) empty_prescan)
     \<lparr>last_event_id := (if h = [] then 0 else event_id (last h)),
      post_update_timeline := timeline False h\<rparr>"
proof -
  have "empty_prescan = empty_prescan\<lparr>last_event_id := 0, post_update_timeline := []\<rparr>"
    by (simp add: empty_prescan_def)
  then show ?thesis
    using fold_scan_split [where seen = False and ps = empty_prescan and l = 0 and t = "[]"] by (simp add: ScanHistory_def)
qed

lemma visible_append_no_update:
  "\<not> list_ex (is_update_accepted \<circ> attrs) h \<Longrightarrow> visible False (h @ g) = h @ visible False g"
  by (induction h) auto

lemma timeline_append_no_update:
  "\<not> list_ex (is_update_accepted \<circ> attrs) h \<Longrightarrow> timeline False (h @ g) = timeline False g"
  by (induction h) auto

lemma visible_True:
  "visible True h = filter (\<lambda>e. \<not> is_update_accepted (attrs e) \<and> \<not> IsDeferredOnReplay (attrs e)) h"
  by (induction h) auto

lemma timeline_True:
  "timeline True h = map to_step (filter (\<lambda>e. is_update_accepted (attrs e) \<or> IsDeferredOnReplay (attrs e)) h)"
  by (induction h) auto

text \<open>The activity a schedule event id stands for: the latest schedule with that event id.\<close>

fun scheduled_id :: "event_attrs \<Rightarrow> string option" where
  "scheduled_id (ActivityEv (ActivityTaskScheduled i t)) = Some i"
| "scheduled_id _ = None"

fun schedules :: "HistoryEvent list \<Rightarrow> int \<rightharpoonup> string" where
  "schedules [] = Map.empty"
| "schedules (ev # h) =
     (\<lambda>sid. case schedules h sid of
              Some i \<Rightarrow> Some i
            | None \<Rightarrow> if event_id ev = sid then scheduled_id (attrs ev) else None)"

lemma scan_switch_schedules:
  "sched_event_to_activity (scan_switch eid a ps) sid
     = (if eid = sid \<and> scheduled_id a \<noteq> None then scheduled_id a else sched_event_to_activity ps sid)"
proof (cases a)
  case (ActivityEv e)
  then show ?thesis by (cases e) (auto simp: scan_defs split: option.split)
next
  case (TimerEv e)
  then show ?thesis by (cases e) (auto simp: scan_defs)
next
  case (ChildEv e)
  then show ?thesis by (cases e) (auto simp: scan_defs)
next
  case (ExternalEv e)
  then show ?thesis by (cases e) (auto simp: scan_defs)
next
  case (NexusEv e)
  then show ?thesis by (cases e) (auto simp: scan_defs split: option.split)
next
  case (MarkerRecorded m d)
  then show ?thesis by (simp add: scan_marker_frame)
qed (simp_all add: scan_defs)

lemma scan_plain_schedules:
  "sched_event_to_activity (scan_plain h ps) sid
     = (case schedules h sid of Some i \<Rightarrow> Some i | None \<Rightarrow> sched_event_to_activity ps sid)"
  by (induction h arbitrary: ps) (auto simp: scan_switch_schedules split: option.split)

lemma scan_plain_append: "scan_plain (h @ g) ps = scan_plain g (scan_plain h ps)"
  by (simp add: scan_plain_def)

section \<open>What the prescan reads off a history\<close>

text \<open>
  C14. The commands the prescan expects a replay to produce are those the history records, in event
  order and with Nexus operations numbered by their ordinal, and its position is the id of the last
  event, whatever the events and however updates interleave with them.
\<close>

theorem prescan_records_commands:
  "ps_commands (ScanHistory h) = recorded_commands 0 h
   \<and> last_event_id (ScanHistory h) = (if h = [] then 0 else event_id (last h))"
  by (simp add: ScanHistory_commands) (simp add: ScanHistory_split)

text \<open>
  C15. The first accepted update splits a history: everything before it and, after it, every event
  that is neither an update nor a resolution or signal is applied up front; the update itself and
  the later updates, resolutions and signals form the timeline, in event order.
\<close>

theorem update_splits_history:
  assumes "\<not> list_ex (is_update_accepted \<circ> attrs) pre" and "is_update_accepted (attrs u)"
  shows "ScanHistory (pre @ u # post) =
    (scan_plain (pre @ filter (\<lambda>e. \<not> is_update_accepted (attrs e) \<and> \<not> IsDeferredOnReplay (attrs e)) post)
       empty_prescan)
      \<lparr>last_event_id := event_id (last (u # post)),
       post_update_timeline :=
         map to_step (u # filter (\<lambda>e. is_update_accepted (attrs e) \<or> IsDeferredOnReplay (attrs e)) post)\<rparr>"
  using assms
  by (simp add: ScanHistory_split visible_append_no_update timeline_append_no_update visible_True timeline_True
      del: to_step.simps)

definition update_history :: "HistoryEvent list" where
  "update_history =
     [\<lparr>event_id = 2, attrs = TimerEv (TimerFired ''0'')\<rparr>, \<lparr>event_id = 3, attrs = TimerEv (TimerStarted ''1'')\<rparr>]"

theorem update_splits_history_witness:
  "post_update_timeline (ScanHistory ([] @ \<lparr>event_id = 1, attrs = WorkflowExecutionUpdateAccepted ''u'' []\<rparr> # update_history))
     = [ReplayUpdate ''u'' [], ReplayEvent \<lparr>event_id = 2, attrs = TimerEv (TimerFired ''0'')\<rparr>]"
  by (subst update_splits_history) (simp_all add: update_history_def)

text \<open>
  Activity outcomes are correlated by the id of the schedule event, not by position: in a
  history without updates, a completion that names a schedule event resolves, without failure added,
  exactly the activity that event scheduled, with the recorded result, whatever happened in between.
\<close>

theorem completion_resolves_activity:
  assumes "\<not> list_ex (is_update_accepted \<circ> attrs) (pre @ s # mid)"
    and "attrs s = ActivityEv (ActivityTaskScheduled i type)"
    and "schedules mid (event_id s) = None"
    and "attrs c = ActivityEv (ActivityTaskCompleted (event_id s) res)"
  shows "\<exists>o1. activities (ScanHistory (pre @ s # mid @ [c])) i = Some o1
    \<and> ao_resolved o1 \<and> ao_result o1 = FromProtoPayloads res
    \<and> (\<forall>j. j \<noteq> i \<longrightarrow> activities (ScanHistory (pre @ s # mid @ [c])) j = activities (ScanHistory (pre @ s # mid)) j)"
proof -
  let ?h = "pre @ s # mid" and ?ps = "scan_plain (pre @ s # mid) empty_prescan"
  have "\<not> list_ex (is_update_accepted \<circ> attrs) (?h @ [c])" using assms(1,4) by simp
  then have vc: "visible False (?h @ [c]) = ?h @ [c]"
    using visible_append_no_update [of "?h @ [c]" "[]"] by simp
  have vh: "visible False ?h = ?h" using visible_append_no_update [OF assms(1), of "[]"] by simp
  have "sched_event_to_activity ?ps (event_id s) = Some i"
    using assms(2,3) by (simp add: scan_plain_append scan_plain_schedules scan_defs)
  then have "activities (scan_plain (?h @ [c]) empty_prescan)
      = map_at no_activity i (\<lambda>o1. o1\<lparr>ao_resolved := True, ao_result := FromProtoPayloads res\<rparr>) (activities ?ps)"
    using assms(4) by (simp only: scan_plain_append scan_plain_simps) (simp add: at_scheduled_activity_def at_activity_def)
  then show ?thesis
    using vh vc by (simp add: ScanHistory_split [of "pre @ s # mid @ [c]"] ScanHistory_split [of ?h])
qed

theorem completion_resolves_activity_witness:
  "\<exists>o1. activities (ScanHistory ([] @ \<lparr>event_id = 5, attrs = ActivityEv (ActivityTaskScheduled ''0'' ''greet'')\<rparr> # []
       @ [\<lparr>event_id = 7, attrs = ActivityEv (ActivityTaskCompleted 5 [])\<rparr>])) ''0'' = Some o1 \<and> ao_resolved o1"
  using completion_resolves_activity [of "[]" "\<lparr>event_id = 5, attrs = ActivityEv (ActivityTaskScheduled ''0'' ''greet'')\<rparr>"
      "[]" "''0''" "''greet''" "\<lparr>event_id = 7, attrs = ActivityEv (ActivityTaskCompleted 5 [])\<rparr>" "[]"]
  by auto

end
