(* ===== verification/Runner.thy ===== *)
theory Runner
  imports History
begin

text \<open>
  The workflow runner (\<^verbatim>\<open>WorkflowRunner\<close> in \<^verbatim>\<open>src/internal/workflow_task_handler.cpp\<close>): its fields, its
  constructor, the commands it emits and every operation of \<^verbatim>\<open>WorkflowOutbound\<close> a workflow may call.

  A \<^verbatim>\<open>shared_ptr<FutureState>\<close> is an address in the heap of futures, so that the copy the workflow
  holds and the copy in \<^verbatim>\<open>activity_futures_\<close> alias as they do in the code. Code outside the runner is
  a parameter: the data converter, the local-activity resolver, the outbound interceptor chain, and
  the \<^emph>\<open>world\<close> a side-effect function reads (a clock, a random generator), which differs between
  the original run and a replay. The workflow function itself is a value of the type \<open>body\<close>: the
  possibly infinite tree of its calls, with one branch per answer, so that it is any deterministic
  code over the context, loops included.
\<close>

section \<open>Values\<close>

record WorkflowInfo =
  wi_workflow_id :: string
  wi_run_id :: string
  wi_workflow_type :: string
  wi_task_queue :: string
  wi_ns :: string
  wi_headers :: "string \<rightharpoonup> Payload"

text \<open>Options carry millisecond counts.\<close>

record ActivityOptions =
  ao_task_queue :: string
  schedule_to_close_timeout :: int
  schedule_to_start_timeout :: int
  start_to_close_timeout :: int
  heartbeat_timeout :: int
  ao_retry_policy :: "RetryPolicy option"

datatype ParentClosePolicy = Terminate | Abandon | RequestCancel

record ChildWorkflowOptions =
  cwo_id :: string
  cwo_task_queue :: string
  parent_close_policy :: ParentClosePolicy

record LocalActivityOptions =
  lao_start_to_close_timeout :: int
  lao_retry_policy :: "RetryPolicy option"

text \<open>
  What C++ code may throw: an \<^verbatim>\<open>ApplicationError\<close> (message, type, non-retryable), another
  \<^verbatim>\<open>std::exception\<close>, or something that is not a \<^verbatim>\<open>std::exception\<close>.
\<close>

datatype wf_error =
    ApplicationError string string bool
  | StdError string
  | OtherThrow

text \<open>\<^verbatim>\<open>std::exception::what()\<close>; what is no \<^verbatim>\<open>std::exception\<close> has none.\<close>

fun what :: "wf_error \<Rightarrow> string" where
  "what (ApplicationError m t nr) = m"
| "what (StdError m) = m"
| "what OtherThrow = []"

datatype op = OpNone | OpTimer | OpActivity | OpChildWorkflow | OpNexusOperation

record FutureState =
  ready :: bool
  failed :: bool
  cancelled :: bool
  result :: Payloads
  failure_type :: string
  failure_message :: string
  fs_op :: op
  op_id :: string

definition new_future :: "op \<Rightarrow> string \<Rightarrow> FutureState" where
  "new_future k i = \<lparr>ready = False, failed = False, cancelled = False, result = [],
     failure_type = [], failure_message = [], fs_op = k, op_id = i\<rparr>"

datatype MutableSideEffectStep = ReplayChange | ReplayUnchanged | Live

section \<open>Commands\<close>

record ScheduleActivityTask =
  sa_activity_id :: string
  sa_activity_type :: string
  sa_task_queue :: string
  sa_input :: "proto_payload list option"
  sa_header :: "string \<rightharpoonup> proto_payload"
  sa_schedule_to_close :: "proto_duration option"
  sa_schedule_to_start :: "proto_duration option"
  sa_start_to_close :: "proto_duration option"
  sa_heartbeat :: "proto_duration option"
  sa_retry_policy :: "proto_retry_policy option"

record StartChildWorkflowExecution =
  sc_namespace :: string
  sc_workflow_id :: string
  sc_workflow_type :: string
  sc_task_queue :: string
  sc_input :: "proto_payload list option"
  sc_parent_close_policy :: ParentClosePolicy

record ScheduleNexusOperationCommand =
  sn_endpoint :: string
  sn_service :: string
  sn_operation :: string
  sn_input :: proto_payload
  sn_schedule_to_close :: "proto_duration option"

datatype Command =
    CmdScheduleActivityTask ScheduleActivityTask
  | CmdStartTimer string proto_duration
  | CmdCancelTimer string
  | CmdRequestCancelActivityTask int
  | CmdStartChildWorkflowExecution StartChildWorkflowExecution
  | CmdScheduleNexusOperation ScheduleNexusOperationCommand
  | CmdRequestCancelExternal string string bool
  | CmdSignalExternal string string string "proto_payload list option"
  | CmdUpsertSearchAttributes "string \<rightharpoonup> proto_payload"
  | CmdRecordMarker string "string \<rightharpoonup> proto_payload list"
  | CmdCompleteWorkflowExecution "proto_payload list option"
  | CmdFailWorkflowExecution Failure
  | CmdContinueAsNew string "proto_payload list option"

section \<open>Workflow code\<close>

type_synonym addr = nat

text \<open>
  The calls of the workflow context. A side-effect function maps the world to its value or to
  what it throws; values of user types are identified with their payloads.
\<close>

datatype call =
    DoScheduleActivity string Payloads ActivityOptions
  | DoStartTimer int
  | DoCancel "addr option"
  | DoCancelExternalWorkflow string
  | DoSignalExternalWorkflow string string Payloads
  | DoUpsertSearchAttributes "string \<rightharpoonup> Payload"
  | DoStartChildWorkflow string Payloads ChildWorkflowOptions
  | DoScheduleNexusOperation string string string Payload int
  | DoSideEffect "nat \<Rightarrow> wf_error + Payload"
  | DoGetVersion string int int
  | DoMutableSideEffect string "nat \<Rightarrow> wf_error + Payload" "Payload \<Rightarrow> Payload \<Rightarrow> bool"
  | DoExecuteLocalActivity string Payloads LocalActivityOptions
  | DoBlock addr
  | DoPark
  | DoReadFuture addr
  | DoTryConsumeSignal string
  | DoHasSignal string
  | DoIsCancelRequested
  | DoAwaitCancellation
  | DoIsReplaying
  | DoInfo

datatype resp =
    RUnit
  | RFuture addr
  | RPayload Payload
  | RPayloads Payloads
  | RInt int
  | RBool bool
  | RSignal "Payloads option"
  | RState FutureState
  | RInfo WorkflowInfo
  | RThrow wf_error

datatype outcome =
    Returned Payloads
  | ContinueAsNewRequested string Payloads
  | Threw wf_error

datatype handler_kind = QueryHandler | UpdateHandler | UpdateValidator

codatatype 's body =
    Finish outcome
  | Get_locals "'s \<Rightarrow> 's body"
  | Put_locals 's "'s body"
  | Invoke call "resp \<Rightarrow> 's body"
  | Register handler_kind string "Payloads \<Rightarrow> 's body" "'s body"

section \<open>Parameters\<close>

text \<open>\<^verbatim>\<open>FromPayload\<close> returns \<open>None\<close> where the code throws.\<close>

record converter =
  to_payload_string :: "string \<Rightarrow> Payload"
  from_payload_string :: "Payload \<Rightarrow> string option"
  to_payload_int :: "int \<Rightarrow> Payload"
  from_payload_int :: "Payload \<Rightarrow> int option"
  failure_converter :: "(wf_error \<Rightarrow> Failure) option"

record ActivityInfo =
  ai_activity_id :: string
  ai_activity_type :: string
  ai_workflow_id :: string
  ai_run_id :: string
  ai_task_queue :: string
  ai_task_token :: string
  ai_headers :: "string \<rightharpoonup> Payload"
  ai_attempt :: int

type_synonym activity_fn = "ActivityInfo \<Rightarrow> Payloads \<Rightarrow> wf_error + Payloads"

type_synonym resolver = "string \<Rightarrow> activity_fn option"

type_synonym outbound_chain =
  "string \<Rightarrow> ActivityOptions \<Rightarrow> Payloads \<Rightarrow> (string \<rightharpoonup> Payload) \<Rightarrow> (string \<rightharpoonup> Payload)"

record env =
  conv :: converter
  local_activity_resolver :: "resolver option"
  interceptor_chain :: "outbound_chain option"
  world :: nat

section \<open>The runner\<close>

datatype Status = Blocked | Completed | Failed | ContinueAsNewStatus

text \<open>
  The coroutine as the runner sees it: not created yet, parked before a point of the body, done,
  or still running when \<^verbatim>\<open>ResumeFor\<close> gave up.
\<close>

datatype 's coroutine = NoCoroutine | Parked "'s body" | CoDone | Overran

record 's WorkflowRunner =
  info :: WorkflowInfo
  is_replaying :: bool
  deadlock_timeout :: int
  deadlocked :: bool
  scan :: Prescan
  workflow_fn :: "Payloads \<Rightarrow> 's body"
  input :: Payloads
  signal_cursor :: "string \<rightharpoonup> nat"
  query_handlers :: "string \<rightharpoonup> (Payloads \<Rightarrow> 's body)"
  update_handlers :: "string \<rightharpoonup> (Payloads \<Rightarrow> 's body)"
  update_validators :: "string \<rightharpoonup> (Payloads \<Rightarrow> 's body)"
  heap :: "FutureState list"
  activity_futures :: "string \<rightharpoonup> addr"
  timer_futures :: "string \<rightharpoonup> addr"
  child_futures :: "string \<rightharpoonup> addr"
  nexus_futures :: "string \<rightharpoonup> addr"
  cancel_futures :: "addr list"
  commands :: "Command list"
  produced_commands :: "CommandEvent list"
  status :: Status
  run_result :: Payloads
  run_failure :: "Failure option"
  continue_as_new :: "(string \<times> Payloads) option"
  activity_seq :: nat
  timer_seq :: nat
  child_seq :: nat
  nexus_seq :: nat
  side_effect_seq :: nat
  ext_signal_seq :: nat
  upsert_seq :: nat
  change_versions :: "string \<rightharpoonup> int"
  mse_recorded :: "string \<rightharpoonup> (int \<times> Payload) list"
  mse_call_count :: "string \<rightharpoonup> nat"
  mse_cursor :: "string \<rightharpoonup> nat"
  mse_current :: "string \<rightharpoonup> Payload"
  local_activity_seq :: nat
  outbound_active :: bool
  coroutine :: "'s coroutine"
  locals :: 's
  warnings :: "(string \<times> string) list"

section \<open>Construction\<close>

fun load_versions ::
  "converter \<Rightarrow> (Payloads \<times> Payloads) list \<Rightarrow> (string \<rightharpoonup> int) \<Rightarrow> (string \<rightharpoonup> int)" where
  "load_versions cv [] m = m"
| "load_versions cv ((ids, vers) # ms) m =
     load_versions cv ms
       (case (ids, vers) of
          (i # _, v # _) \<Rightarrow>
            (case (from_payload_string cv i, from_payload_int cv v) of
               (Some s, Some n) \<Rightarrow> m(s \<mapsto> n)
             | _ \<Rightarrow> m)
        | _ \<Rightarrow> m)"

fun load_mutable_side_effects ::
  "converter \<Rightarrow> MutableSideEffectMarkerRaw list \<Rightarrow> (string \<rightharpoonup> (int \<times> Payload) list)
   \<Rightarrow> (string \<rightharpoonup> (int \<times> Payload) list)" where
  "load_mutable_side_effects cv [] m = m"
| "load_mutable_side_effects cv (raw # ms) m =
     load_mutable_side_effects cv ms
       (case (from_payload_string cv (mse_id raw), from_payload_int cv (mse_call_index raw)) of
          (Some i, Some n) \<Rightarrow> map_at [] i (\<lambda>l. l @ [(n, mse_data raw)]) m
        | _ \<Rightarrow> m)"

definition new_runner ::
  "env \<Rightarrow> WorkflowInfo \<Rightarrow> bool \<Rightarrow> Prescan \<Rightarrow> (Payloads \<Rightarrow> 's body) \<Rightarrow> Payloads \<Rightarrow> 's \<Rightarrow> 's WorkflowRunner"
  where
  "new_runner E wi replaying ps fn inp s0 =
     \<lparr>info = wi\<lparr>wi_headers := ps_headers ps\<rparr>, is_replaying = replaying, deadlock_timeout = 0,
      deadlocked = False, scan = ps, workflow_fn = fn, input = inp, signal_cursor = Map.empty,
      query_handlers = Map.empty, update_handlers = Map.empty, update_validators = Map.empty,
      heap = [], activity_futures = Map.empty, timer_futures = Map.empty, child_futures = Map.empty,
      nexus_futures = Map.empty, cancel_futures = [], commands = [], produced_commands = [],
      status = Blocked, run_result = [], run_failure = None, continue_as_new = None,
      activity_seq = 0, timer_seq = 0, child_seq = 0, nexus_seq = 0, side_effect_seq = 0,
      ext_signal_seq = 0, upsert_seq = 0,
      change_versions = load_versions (conv E) (version_markers ps) Map.empty,
      mse_recorded = load_mutable_side_effects (conv E) (mutable_side_effect_markers ps) Map.empty,
      mse_call_count = Map.empty, mse_cursor = Map.empty, mse_current = Map.empty,
      local_activity_seq = 0, outbound_active = False, coroutine = NoCoroutine, locals = s0,
      warnings = []\<rparr>"

section \<open>Emitting commands\<close>

definition push_cmd :: "Command \<Rightarrow> 's WorkflowRunner \<Rightarrow> 's WorkflowRunner" where
  "push_cmd c r = r\<lparr>commands := commands r @ [c]\<rparr>"

definition push_produced :: "CommandEvent \<Rightarrow> 's WorkflowRunner \<Rightarrow> 's WorkflowRunner" where
  "push_produced c r = r\<lparr>produced_commands := produced_commands r @ [c]\<rparr>"

definition warn :: "string \<Rightarrow> string \<Rightarrow> 's WorkflowRunner \<Rightarrow> 's WorkflowRunner" where
  "warn msg f r = r\<lparr>warnings := warnings r @ [(msg, f)]\<rparr>"

definition payloads_or_unset :: "Payloads \<Rightarrow> proto_payload list option" where
  "payloads_or_unset ps = (if ps = [] then None else Some (ToProtoPayloads ps))"

definition timeout_or_unset :: "int \<Rightarrow> proto_duration option" where
  "timeout_or_unset ms = (if ms > 0 then Some (ToProtoDuration (ms_to_ns ms)) else None)"

definition activity_attributes ::
  "WorkflowInfo \<Rightarrow> string \<Rightarrow> string \<Rightarrow> Payloads \<Rightarrow> ActivityOptions \<Rightarrow> (string \<rightharpoonup> Payload) \<Rightarrow> ScheduleActivityTask"
  where
  "activity_attributes wi i type inp opts hdr =
     \<lparr>sa_activity_id = i, sa_activity_type = type,
      sa_task_queue = (if ao_task_queue opts = [] then wi_task_queue wi else ao_task_queue opts),
      sa_input = payloads_or_unset inp,
      sa_header = map_option ToProtoPayload \<circ> hdr,
      sa_schedule_to_close = timeout_or_unset (schedule_to_close_timeout opts),
      sa_schedule_to_start = timeout_or_unset (schedule_to_start_timeout opts),
      sa_start_to_close = timeout_or_unset (start_to_close_timeout opts),
      sa_heartbeat = timeout_or_unset (heartbeat_timeout opts),
      sa_retry_policy = map_option ToProtoRetryPolicy (ao_retry_policy opts)\<rparr>"

definition EmitScheduleActivity ::
  "string \<Rightarrow> string \<Rightarrow> Payloads \<Rightarrow> ActivityOptions \<Rightarrow> (string \<rightharpoonup> Payload)
   \<Rightarrow> 's WorkflowRunner \<Rightarrow> 's WorkflowRunner" where
  "EmitScheduleActivity i type inp opts hdr r =
     push_cmd (CmdScheduleActivityTask (activity_attributes (info r) i type inp opts hdr)) r"

definition EmitStartTimer :: "string \<Rightarrow> int \<Rightarrow> 's WorkflowRunner \<Rightarrow> 's WorkflowRunner" where
  "EmitStartTimer i duration r = push_cmd (CmdStartTimer i (ToProtoDuration duration)) r"

definition EmitCancelTimer :: "string \<Rightarrow> 's WorkflowRunner \<Rightarrow> 's WorkflowRunner" where
  "EmitCancelTimer i r = push_cmd (CmdCancelTimer i) r"

definition EmitRequestCancelActivity :: "int \<Rightarrow> 's WorkflowRunner \<Rightarrow> 's WorkflowRunner" where
  "EmitRequestCancelActivity sid r = push_cmd (CmdRequestCancelActivityTask sid) r"

definition child_attributes ::
  "WorkflowInfo \<Rightarrow> string \<Rightarrow> string \<Rightarrow> Payloads \<Rightarrow> ChildWorkflowOptions \<Rightarrow> StartChildWorkflowExecution" where
  "child_attributes wi i type inp opts =
     \<lparr>sc_namespace = wi_ns wi, sc_workflow_id = i, sc_workflow_type = type,
      sc_task_queue = (if cwo_task_queue opts = [] then wi_task_queue wi else cwo_task_queue opts),
      sc_input = payloads_or_unset inp,
      sc_parent_close_policy = parent_close_policy opts\<rparr>"

definition EmitStartChildWorkflow ::
  "string \<Rightarrow> string \<Rightarrow> Payloads \<Rightarrow> ChildWorkflowOptions \<Rightarrow> 's WorkflowRunner \<Rightarrow> 's WorkflowRunner" where
  "EmitStartChildWorkflow i type inp opts r =
     push_cmd (CmdStartChildWorkflowExecution (child_attributes (info r) i type inp opts)) r"

definition nexus_attributes ::
  "string \<Rightarrow> string \<Rightarrow> string \<Rightarrow> Payload \<Rightarrow> int \<Rightarrow> ScheduleNexusOperationCommand" where
  "nexus_attributes endpoint service operation inp s2c =
     \<lparr>sn_endpoint = endpoint, sn_service = service, sn_operation = operation,
      sn_input = ToProtoPayload inp,
      sn_schedule_to_close = (if s2c > 0 then Some (ToProtoDuration s2c) else None)\<rparr>"

definition EmitNexusOperation ::
  "string \<Rightarrow> string \<Rightarrow> string \<Rightarrow> Payload \<Rightarrow> int \<Rightarrow> 's WorkflowRunner \<Rightarrow> 's WorkflowRunner" where
  "EmitNexusOperation endpoint service operation inp s2c r =
     push_cmd (CmdScheduleNexusOperation (nexus_attributes endpoint service operation inp s2c)) r"

definition EmitRequestCancelExternalWorkflow ::
  "string \<Rightarrow> bool \<Rightarrow> 's WorkflowRunner \<Rightarrow> 's WorkflowRunner" where
  "EmitRequestCancelExternalWorkflow wid child_only r =
     push_cmd (CmdRequestCancelExternal (wi_ns (info r)) wid child_only) r"

definition EmitSignalExternalWorkflow ::
  "string \<Rightarrow> string \<Rightarrow> Payloads \<Rightarrow> 's WorkflowRunner \<Rightarrow> 's WorkflowRunner" where
  "EmitSignalExternalWorkflow wid name inp r =
     push_cmd (CmdSignalExternal (wi_ns (info r)) wid name (payloads_or_unset inp)) r"

definition EmitUpsertSearchAttributes ::
  "(string \<rightharpoonup> Payload) \<Rightarrow> 's WorkflowRunner \<Rightarrow> 's WorkflowRunner" where
  "EmitUpsertSearchAttributes as r =
     push_cmd (CmdUpsertSearchAttributes (map_option ToProtoPayload \<circ> as)) r"

text \<open>The details are assigned in order, so a repeated key keeps its last value.\<close>

definition EmitRecordMarker ::
  "string \<Rightarrow> (string \<times> Payloads) list \<Rightarrow> 's WorkflowRunner \<Rightarrow> 's WorkflowRunner" where
  "EmitRecordMarker name details r =
     push_cmd (CmdRecordMarker name
       (foldl (\<lambda>m kv. m(fst kv \<mapsto> ToProtoPayloads (snd kv))) Map.empty details)) r"

section \<open>Scheduling operations\<close>

definition alloc :: "FutureState \<Rightarrow> 's WorkflowRunner \<Rightarrow> addr \<times> 's WorkflowRunner" where
  "alloc st r = (length (heap r), r\<lparr>heap := heap r @ [st]\<rparr>)"

definition resolved_activity :: "string \<Rightarrow> ActivityOutcome \<Rightarrow> FutureState" where
  "resolved_activity i o1 =
     (if ao_resolved o1
      then (new_future OpActivity i)\<lparr>ready := True, failed := ao_failed o1, result := ao_result o1,
              failure_type := ao_failure_type o1, failure_message := ao_failure_message o1\<rparr>
      else new_future OpActivity i)"

text \<open>The header the outbound chain makes of the workflow's headers.\<close>

definition outbound_header ::
  "env \<Rightarrow> string \<Rightarrow> ActivityOptions \<Rightarrow> Payloads \<Rightarrow> 's WorkflowRunner \<Rightarrow> (string \<rightharpoonup> Payload)" where
  "outbound_header E type opts inp r =
     (case interceptor_chain E of
        Some f \<Rightarrow> if outbound_active r then f type opts inp (wi_headers (info r)) else wi_headers (info r)
      | None \<Rightarrow> wi_headers (info r))"

definition ScheduleActivity ::
  "env \<Rightarrow> string \<Rightarrow> Payloads \<Rightarrow> ActivityOptions \<Rightarrow> 's WorkflowRunner \<Rightarrow> addr \<times> 's WorkflowRunner" where
  "ScheduleActivity E type inp opts r0 =
     (let i = nat_to_string (activity_seq r0);
          r = push_produced (mk_command_event Activity i type)
                (r0\<lparr>activity_seq := Suc (activity_seq r0)\<rparr>);
          known = (case activities (scan r) i of Some o1 \<Rightarrow> ao_scheduled o1 | None \<Rightarrow> False);
          st = (if known then resolved_activity i (the (activities (scan r) i))
                else new_future OpActivity i);
          r = (if known then r
               else EmitScheduleActivity i type inp opts (outbound_header E type opts inp r) r);
          (a, r) = alloc st r
      in (a, r\<lparr>activity_futures := (activity_futures r)(i \<mapsto> a)\<rparr>))"

definition StartTimer :: "int \<Rightarrow> 's WorkflowRunner \<Rightarrow> addr \<times> 's WorkflowRunner" where
  "StartTimer duration r0 =
     (let i = ''t'' @ nat_to_string (timer_seq r0);
          r = push_produced (mk_command_event Timer i []) (r0\<lparr>timer_seq := Suc (timer_seq r0)\<rparr>);
          known = (case timers (scan r) i of Some t \<Rightarrow> to_started t | None \<Rightarrow> False);
          st = (if known then (new_future OpTimer i)\<lparr>ready := to_fired (the (timers (scan r) i))\<rparr>
                else new_future OpTimer i);
          r = (if known then r else EmitStartTimer i duration r);
          (a, r) = alloc st r
      in (a, r\<lparr>timer_futures := (timer_futures r)(i \<mapsto> a)\<rparr>))"

definition resolved_child :: "string \<Rightarrow> ChildOutcome \<Rightarrow> FutureState" where
  "resolved_child i o1 =
     (if co_resolved o1
      then (new_future OpChildWorkflow i)\<lparr>ready := True, failed := co_failed o1, result := co_result o1,
              failure_type := co_failure_type o1, failure_message := co_failure_message o1\<rparr>
      else new_future OpChildWorkflow i)"

definition child_id :: "ChildWorkflowOptions \<Rightarrow> 's WorkflowRunner \<Rightarrow> string" where
  "child_id opts r =
     (if cwo_id opts = [] then wi_workflow_id (info r) @ ''_c'' @ nat_to_string (child_seq r)
      else cwo_id opts)"

definition StartChildWorkflow ::
  "string \<Rightarrow> Payloads \<Rightarrow> ChildWorkflowOptions \<Rightarrow> 's WorkflowRunner \<Rightarrow> addr \<times> 's WorkflowRunner" where
  "StartChildWorkflow type inp opts r0 =
     (let i = child_id opts r0;
          r = push_produced (mk_command_event ChildWorkflow i type)
                (r0\<lparr>child_seq := Suc (child_seq r0)\<rparr>);
          known = (case children (scan r) i of Some o1 \<Rightarrow> co_initiated o1 | None \<Rightarrow> False);
          st = (if known then resolved_child i (the (children (scan r) i))
                else new_future OpChildWorkflow i);
          r = (if known then r else EmitStartChildWorkflow i type inp opts r);
          (a, r) = alloc st r
      in (a, r\<lparr>child_futures := (child_futures r)(i \<mapsto> a)\<rparr>))"

definition resolved_nexus :: "string \<Rightarrow> NexusOpOutcome \<Rightarrow> FutureState" where
  "resolved_nexus i o1 =
     (if no_resolved o1
      then (new_future OpNexusOperation i)\<lparr>ready := True, failed := no_failed o1, result := no_result o1,
              failure_type := no_failure_type o1, failure_message := no_failure_message o1\<rparr>
      else new_future OpNexusOperation i)"

definition ScheduleNexusOperation ::
  "string \<Rightarrow> string \<Rightarrow> string \<Rightarrow> Payload \<Rightarrow> int \<Rightarrow> 's WorkflowRunner \<Rightarrow> addr \<times> 's WorkflowRunner" where
  "ScheduleNexusOperation endpoint service operation inp s2c r0 =
     (let i = nat_to_string (nexus_seq r0);
          r = push_produced (mk_command_event NexusOperation i [])
                (r0\<lparr>nexus_seq := Suc (nexus_seq r0)\<rparr>);
          known = (case nexus_ops (scan r) i of Some o1 \<Rightarrow> no_scheduled o1 | None \<Rightarrow> False);
          st = (if known then resolved_nexus i (the (nexus_ops (scan r) i))
                else new_future OpNexusOperation i);
          r = (if known then r else EmitNexusOperation endpoint service operation inp s2c r);
          (a, r) = alloc st r
      in (a, r\<lparr>nexus_futures := (nexus_futures r)(i \<mapsto> a)\<rparr>))"

section \<open>Cancellation and external workflows\<close>

definition set_future :: "addr \<Rightarrow> (FutureState \<Rightarrow> FutureState) \<Rightarrow> 's WorkflowRunner \<Rightarrow> 's WorkflowRunner" where
  "set_future a f r = r\<lparr>heap := (heap r)[a := f (heap r ! a)]\<rparr>"

definition cancel_timer :: "addr \<Rightarrow> 's WorkflowRunner \<Rightarrow> 's WorkflowRunner" where
  "cancel_timer a r0 =
     (let i = op_id (heap r0 ! a);
          r = push_produced (mk_command_event CancelTimer i []) r0;
          recorded = (case timers (scan r) i of Some t \<Rightarrow> to_cancelled t | None \<Rightarrow> False);
          r = (if recorded then r else EmitCancelTimer i r)
      in set_future a (\<lambda>st. st\<lparr>ready := True, cancelled := True\<rparr>) r)"

definition cancel_activity :: "addr \<Rightarrow> 's WorkflowRunner \<Rightarrow> 's WorkflowRunner" where
  "cancel_activity a r0 =
     (let i = op_id (heap r0 ! a)
      in case activity_to_sched_event (scan r0) i of
           None \<Rightarrow> warn ''cannot cancel an activity not yet scheduled in history'' i r0
         | Some sid \<Rightarrow>
             (let r = push_produced (mk_command_event RequestCancelActivity (to_string sid) []) r0;
                  recorded = (case activities (scan r) i of Some o1 \<Rightarrow> ao_cancel_requested o1 | None \<Rightarrow> False)
              in if recorded then r else EmitRequestCancelActivity sid r))"

definition child_cancel_recorded :: "string \<Rightarrow> 's WorkflowRunner \<Rightarrow> bool" where
  "child_cancel_recorded wid r =
     (case children (scan r) wid of Some o1 \<Rightarrow> co_cancel_requested o1 | None \<Rightarrow> False)"

definition request_cancel_external :: "string \<Rightarrow> bool \<Rightarrow> 's WorkflowRunner \<Rightarrow> 's WorkflowRunner" where
  "request_cancel_external wid child_only r0 =
     (let r = push_produced (mk_command_event RequestCancelExternalWorkflow wid []) r0
      in if child_cancel_recorded wid r then r else EmitRequestCancelExternalWorkflow wid child_only r)"

definition Cancel :: "addr option \<Rightarrow> 's WorkflowRunner \<Rightarrow> 's WorkflowRunner" where
  "Cancel st r =
     (case st of
        None \<Rightarrow> r
      | Some a \<Rightarrow>
          (if cancelled (heap r ! a) then r
           else (case fs_op (heap r ! a) of
                   OpTimer \<Rightarrow> cancel_timer a r
                 | OpActivity \<Rightarrow> cancel_activity a r
                 | OpChildWorkflow \<Rightarrow> request_cancel_external (op_id (heap r ! a)) True r
                 | _ \<Rightarrow> warn ''cancellation not supported for this operation'' (op_id (heap r ! a)) r)))"

definition CancelExternalWorkflow :: "string \<Rightarrow> 's WorkflowRunner \<Rightarrow> 's WorkflowRunner" where
  "CancelExternalWorkflow wid r = request_cancel_external wid False r"

definition SignalExternalWorkflow_op ::
  "string \<Rightarrow> string \<Rightarrow> Payloads \<Rightarrow> 's WorkflowRunner \<Rightarrow> 's WorkflowRunner" where
  "SignalExternalWorkflow_op wid name inp r0 =
     (let n = ext_signal_seq r0;
          r = push_produced (mk_command_event SignalExternalWorkflow wid [])
                (r0\<lparr>ext_signal_seq := Suc n\<rparr>)
      in if n \<ge> ext_signals_initiated (scan r) then EmitSignalExternalWorkflow wid name inp r else r)"

definition UpsertSearchAttributes_op ::
  "(string \<rightharpoonup> Payload) \<Rightarrow> 's WorkflowRunner \<Rightarrow> 's WorkflowRunner" where
  "UpsertSearchAttributes_op as r0 =
     (let n = upsert_seq r0;
          r = push_produced (mk_command_event UpsertSearchAttributes [] []) (r0\<lparr>upsert_seq := Suc n\<rparr>)
      in if n \<ge> upserts_initiated (scan r) then EmitUpsertSearchAttributes as r else r)"

section \<open>Side effects and versions\<close>

definition ReplaySideEffect :: "'s WorkflowRunner \<Rightarrow> Payload option \<times> 's WorkflowRunner" where
  "ReplaySideEffect r0 =
     (let n = side_effect_seq r0;
          r = push_produced (mk_command_event Marker ''SideEffect'' []) (r0\<lparr>side_effect_seq := Suc n\<rparr>)
      in (if n < length (side_effects (scan r)) then Some (side_effects (scan r) ! n) else None, r))"

definition RecordSideEffect :: "env \<Rightarrow> Payload \<Rightarrow> 's WorkflowRunner \<Rightarrow> 's WorkflowRunner" where
  "RecordSideEffect E v r =
     EmitRecordMarker ''SideEffect''
       [(''side-effect-id'', [to_payload_int (conv E) (int (side_effect_seq r) - 1)]), (''data'', [v])] r"

text \<open>\<^verbatim>\<open>Context::SideEffect\<close>: the recorded value, or the function's value, recorded.\<close>

definition SideEffect ::
  "env \<Rightarrow> (nat \<Rightarrow> wf_error + Payload) \<Rightarrow> 's WorkflowRunner \<Rightarrow> resp \<times> 's WorkflowRunner" where
  "SideEffect E fn r0 =
     (case ReplaySideEffect r0 of
        (Some p, r) \<Rightarrow> (RPayload p, r)
      | (None, r) \<Rightarrow> (case fn (world E) of
                        Inl e \<Rightarrow> (RThrow e, r)
                      | Inr v \<Rightarrow> (RPayload v, RecordSideEffect E v r)))"

definition kDefaultVersion :: int where
  "kDefaultVersion = -1"

definition version_mismatch :: "string \<Rightarrow> int \<Rightarrow> int \<Rightarrow> int \<Rightarrow> wf_error" where
  "version_mismatch cid v lo hi =
     ApplicationError (''workflow change '' @ [char_of (39 :: nat)] @ cid @ [char_of (39 :: nat)]
       @ '': recorded version '' @ to_string v @ '' not in supported range [''
       @ to_string lo @ '', '' @ to_string hi @ '']'') ''VersionMismatch'' False"

definition GetVersion ::
  "env \<Rightarrow> string \<Rightarrow> int \<Rightarrow> int \<Rightarrow> 's WorkflowRunner \<Rightarrow> resp \<times> 's WorkflowRunner" where
  "GetVersion E cid lo hi r =
     (case change_versions r cid of
        Some v \<Rightarrow>
          (let r = push_produced (mk_command_event Marker ''Version'' []) r
           in if v < lo \<or> hi < v then (RThrow (version_mismatch cid v lo hi), r) else (RInt v, r))
      | None \<Rightarrow>
          (if is_replaying r
           then (RInt kDefaultVersion,
                 r\<lparr>change_versions := (change_versions r)(cid \<mapsto> kDefaultVersion)\<rparr>)
           else
             (let r = push_produced (mk_command_event Marker ''Version'' []) r;
                  r = EmitRecordMarker ''Version''
                        [(''change-id'', [to_payload_string (conv E) cid]),
                         (''version'', [to_payload_int (conv E) hi])] r
              in (RInt hi, r\<lparr>change_versions := (change_versions r)(cid \<mapsto> hi)\<rparr>))))"

definition count_at :: "(string \<rightharpoonup> nat) \<Rightarrow> string \<Rightarrow> nat" where
  "count_at m k = (case m k of None \<Rightarrow> 0 | Some n \<Rightarrow> n)"

definition payload_at :: "(string \<rightharpoonup> Payload) \<Rightarrow> string \<Rightarrow> Payload" where
  "payload_at m k = (case m k of None \<Rightarrow> empty_payload | Some p \<Rightarrow> p)"

text \<open>
  \<^verbatim>\<open>BeginMutableSideEffect\<close> returns the step, \<^verbatim>\<open>value_out\<close> and \<^verbatim>\<open>has_current\<close>. Reading a counter
  or the current value with \<^verbatim>\<open>operator[]\<close> inserts the default, which later reads do not
  distinguish from absence, except for \<^verbatim>\<open>mse_current_\<close>.
\<close>

definition BeginMutableSideEffect ::
  "string \<Rightarrow> 's WorkflowRunner \<Rightarrow> (MutableSideEffectStep \<times> Payload \<times> bool) \<times> 's WorkflowRunner" where
  "BeginMutableSideEffect i r0 =
     (let idx = count_at (mse_call_count r0) i;
          r = r0\<lparr>mse_call_count := (mse_call_count r0)(i \<mapsto> Suc idx)\<rparr>;
          live = (case mse_current r i of
                    Some p \<Rightarrow> ((Live, p, True), r)
                  | None \<Rightarrow> ((Live, empty_payload, False), r))
      in case mse_recorded r i of
           None \<Rightarrow> live
         | Some l \<Rightarrow>
             (let cur = count_at (mse_cursor r) i
              in if cur < length l \<and> fst (l ! cur) = int idx
                 then ((ReplayChange, snd (l ! cur), False),
                       push_produced (mk_command_event Marker ''MutableSideEffect'' [])
                         (r\<lparr>mse_current := (mse_current r)(i \<mapsto> snd (l ! cur)),
                            mse_cursor := (mse_cursor r)(i \<mapsto> Suc cur)\<rparr>))
                 else if cur < length l
                 then ((ReplayUnchanged, payload_at (mse_current r) i, False),
                       r\<lparr>mse_current := (mse_current r)(i \<mapsto> payload_at (mse_current r) i)\<rparr>)
                 else live))"

definition RecordMutableSideEffect ::
  "env \<Rightarrow> string \<Rightarrow> bool \<Rightarrow> Payload \<Rightarrow> 's WorkflowRunner \<Rightarrow> 's WorkflowRunner" where
  "RecordMutableSideEffect E i changed v r0 =
     (if \<not> changed then r0
      else (let idx = int (count_at (mse_call_count r0) i) - 1;
                r = push_produced (mk_command_event Marker ''MutableSideEffect'' [])
                      (r0\<lparr>mse_current := (mse_current r0)(i \<mapsto> v)\<rparr>)
            in EmitRecordMarker ''MutableSideEffect''
                 [(''id'', [to_payload_string (conv E) i]),
                  (''mse-call-index'', [to_payload_int (conv E) idx]), (''data'', [v])] r))"

text \<open>\<^verbatim>\<open>Context::MutableSideEffect\<close>.\<close>

definition MutableSideEffect ::
  "env \<Rightarrow> string \<Rightarrow> (nat \<Rightarrow> wf_error + Payload) \<Rightarrow> (Payload \<Rightarrow> Payload \<Rightarrow> bool)
   \<Rightarrow> 's WorkflowRunner \<Rightarrow> resp \<times> 's WorkflowRunner" where
  "MutableSideEffect E i fn equals r0 =
     (case BeginMutableSideEffect i r0 of
        ((step, value_out, has_current), r) \<Rightarrow>
          (if step \<noteq> Live then (RPayload value_out, r)
           else (case fn (world E) of
                   Inl e \<Rightarrow> (RThrow e, r)
                 | Inr v \<Rightarrow>
                     (if has_current \<and> equals value_out v
                      then (RPayload value_out, RecordMutableSideEffect E i False empty_payload r)
                      else (RPayload v, RecordMutableSideEffect E i True v r)))))"

section \<open>Local activities\<close>

definition decode_text :: "converter \<Rightarrow> Payload \<Rightarrow> string" where
  "decode_text cv p =
     (if pdata p = [] then [] else (case from_payload_string cv p of None \<Rightarrow> [] | Some s \<Rightarrow> s))"

definition la_max_attempts :: "LocalActivityOptions \<Rightarrow> int" where
  "la_max_attempts opts =
     (case lao_retry_policy opts of
        Some p \<Rightarrow> if maximum_attempts p > 0 then maximum_attempts p else 1
      | None \<Rightarrow> 1)"

definition la_info :: "string \<Rightarrow> int \<Rightarrow> 's WorkflowRunner \<Rightarrow> ActivityInfo" where
  "la_info type attempt r =
     \<lparr>ai_activity_id = [], ai_activity_type = type, ai_workflow_id = wi_workflow_id (info r),
      ai_run_id = wi_run_id (info r), ai_task_queue = wi_task_queue (info r), ai_task_token = [],
      ai_headers = wi_headers (info r), ai_attempt = attempt\<rparr>"

text \<open>
  The retry loop: \<open>Inr\<close> the result, or \<open>Inl\<close> the failure type and message it breaks out with. A throw
  that is no \<^verbatim>\<open>std::exception\<close> leaves the loop and the operation (the outer \<open>None\<close>).
\<close>

function la_loop ::
  "activity_fn \<Rightarrow> Payloads \<Rightarrow> string \<Rightarrow> 's WorkflowRunner \<Rightarrow> int \<Rightarrow> int \<Rightarrow> string \<times> string
   \<Rightarrow> ((string \<times> string) + Payloads) option" where
  "la_loop fn inp type r max_attempts attempt acc =
     (if attempt > max_attempts then Some (Inl acc)
      else (case fn (la_info type attempt r) inp of
              Inr res \<Rightarrow> Some (Inr res)
            | Inl (ApplicationError msg ty nonretry) \<Rightarrow>
                (if nonretry \<or> attempt = max_attempts then Some (Inl (ty, msg))
                 else la_loop fn inp type r max_attempts (attempt + 1) (ty, msg))
            | Inl (StdError msg) \<Rightarrow>
                (if attempt = max_attempts then Some (Inl ([], msg))
                 else la_loop fn inp type r max_attempts (attempt + 1) ([], msg))
            | Inl OtherThrow \<Rightarrow> None))"
  by pat_completeness auto
termination
  by (relation "measure (\<lambda>(fn, inp, type, r, m, a, acc). nat (m + 1 - a))") auto

declare la_loop.simps [simp del]

definition run_local_activity ::
  "env \<Rightarrow> activity_fn \<Rightarrow> string \<Rightarrow> Payloads \<Rightarrow> LocalActivityOptions \<Rightarrow> 's WorkflowRunner
   \<Rightarrow> resp \<times> 's WorkflowRunner" where
  "run_local_activity E fn type inp opts r =
     (case la_loop fn inp type r (la_max_attempts opts) 1 ([], []) of
        None \<Rightarrow> (RThrow OtherThrow, r)
      | Some (Inr res) \<Rightarrow> (RPayloads res, EmitRecordMarker ''LocalActivity'' [(''result'', res)] r)
      | Some (Inl (ty, msg)) \<Rightarrow>
          (RThrow (ApplicationError msg ty False),
           EmitRecordMarker ''LocalActivity''
             [(''failure-type'', [to_payload_string (conv E) ty]),
              (''failure-message'', [to_payload_string (conv E) msg])] r))"

definition ExecuteLocalActivity ::
  "env \<Rightarrow> string \<Rightarrow> Payloads \<Rightarrow> LocalActivityOptions \<Rightarrow> 's WorkflowRunner \<Rightarrow> resp \<times> 's WorkflowRunner" where
  "ExecuteLocalActivity E type inp opts r0 =
     (let n = local_activity_seq r0;
          r = push_produced (mk_command_event Marker ''LocalActivity'' [])
                (r0\<lparr>local_activity_seq := Suc n\<rparr>)
      in if n < length (local_activities (scan r))
         then (let rec = local_activities (scan r) ! n
               in if la_failed rec
                  then (RThrow (ApplicationError (decode_text (conv E) (la_failure_message rec))
                                  (decode_text (conv E) (la_failure_type rec)) False), r)
                  else (RPayloads (la_result rec), r))
         else (case local_activity_resolver E of
                 None \<Rightarrow> (RThrow (ApplicationError ''local activities are not available on this worker''
                                    ''LocalActivityError'' False), r)
               | Some resolve \<Rightarrow>
                   (case resolve type of
                      None \<Rightarrow> (RThrow (ApplicationError (''no activity registered for type: '' @ type)
                                         ''NotRegisteredError'' False), r)
                    | Some fn \<Rightarrow> run_local_activity E fn type inp opts r)))"

section \<open>Signals, cancellation requests, handlers\<close>

definition TryConsumeSignal :: "string \<Rightarrow> 's WorkflowRunner \<Rightarrow> Payloads option \<times> 's WorkflowRunner" where
  "TryConsumeSignal name r =
     (case signals (scan r) name of
        None \<Rightarrow> (None, r)
      | Some q \<Rightarrow>
          (let cursor = count_at (signal_cursor r) name
           in if cursor \<ge> length q
              then (None, r\<lparr>signal_cursor := (signal_cursor r)(name \<mapsto> cursor)\<rparr>)
              else (Some (q ! cursor), r\<lparr>signal_cursor := (signal_cursor r)(name \<mapsto> Suc cursor)\<rparr>)))"

definition HasSignal :: "string \<Rightarrow> 's WorkflowRunner \<Rightarrow> bool" where
  "HasSignal name r =
     (case signals (scan r) name of
        None \<Rightarrow> False
      | Some q \<Rightarrow> count_at (signal_cursor r) name < length q)"

definition IsCancelRequested :: "'s WorkflowRunner \<Rightarrow> bool" where
  "IsCancelRequested r = cancel_requested (scan r)"

definition AwaitCancellation :: "'s WorkflowRunner \<Rightarrow> addr \<times> 's WorkflowRunner" where
  "AwaitCancellation r0 =
     (if cancel_requested (scan r0) then alloc ((new_future OpNone [])\<lparr>ready := True\<rparr>) r0
      else (let (a, r) = alloc (new_future OpNone []) r0
            in (a, r\<lparr>cancel_futures := cancel_futures r @ [a]\<rparr>)))"

fun RegisterHandler ::
  "handler_kind \<Rightarrow> string \<Rightarrow> (Payloads \<Rightarrow> 's body) \<Rightarrow> 's WorkflowRunner \<Rightarrow> 's WorkflowRunner" where
  "RegisterHandler QueryHandler name h r = r\<lparr>query_handlers := (query_handlers r)(name \<mapsto> h)\<rparr>"
| "RegisterHandler UpdateHandler name h r = r\<lparr>update_handlers := (update_handlers r)(name \<mapsto> h)\<rparr>"
| "RegisterHandler UpdateValidator name h r = r\<lparr>update_validators := (update_validators r)(name \<mapsto> h)\<rparr>"

section \<open>The two ways each scheduling operation goes\<close>

text \<open>
  An operation the history already records sends nothing and returns a future in the recorded state;
  any other is sent and its future is pending.
\<close>

definition activity_known :: "Prescan \<Rightarrow> string \<Rightarrow> bool" where
  "activity_known ps i = (case activities ps i of Some o1 \<Rightarrow> ao_scheduled o1 | None \<Rightarrow> False)"

definition timer_known :: "Prescan \<Rightarrow> string \<Rightarrow> bool" where
  "timer_known ps i = (case timers ps i of Some t \<Rightarrow> to_started t | None \<Rightarrow> False)"

definition child_known :: "Prescan \<Rightarrow> string \<Rightarrow> bool" where
  "child_known ps i = (case children ps i of Some o1 \<Rightarrow> co_initiated o1 | None \<Rightarrow> False)"

definition nexus_known :: "Prescan \<Rightarrow> string \<Rightarrow> bool" where
  "nexus_known ps i = (case nexus_ops ps i of Some o1 \<Rightarrow> no_scheduled o1 | None \<Rightarrow> False)"

definition timer_id :: "'s WorkflowRunner \<Rightarrow> string" where
  "timer_id r = ''t'' @ nat_to_string (timer_seq r)"

lemmas schedule_defs =
  push_produced_def push_cmd_def alloc_def Let_def activity_known_def timer_known_def child_known_def
  nexus_known_def timer_id_def

lemma ScheduleActivity_recorded:
  assumes "activity_known (scan r) (nat_to_string (activity_seq r))"
  shows "ScheduleActivity E type inp opts r =
    (length (heap r),
     r\<lparr>activity_seq := Suc (activity_seq r),
       produced_commands := produced_commands r
         @ [mk_command_event Activity (nat_to_string (activity_seq r)) type],
       heap := heap r @ [resolved_activity (nat_to_string (activity_seq r))
         (the (activities (scan r) (nat_to_string (activity_seq r))))],
       activity_futures := (activity_futures r)(nat_to_string (activity_seq r) \<mapsto> length (heap r))\<rparr>)"
  using assms by (simp add: ScheduleActivity_def schedule_defs)

lemma attributes_ids [simp]:
  "sa_activity_id (activity_attributes wi i type inp opts hdr) = i"
  "sa_activity_type (activity_attributes wi i type inp opts hdr) = type"
  "sc_workflow_id (child_attributes wi i type inp copts) = i"
  "sc_workflow_type (child_attributes wi i type inp copts) = type"
  by (simp_all add: activity_attributes_def child_attributes_def)

lemma outbound_header_frame [simp]:
  "outbound_header E type opts inp (r\<lparr>activity_seq := n, produced_commands := ps\<rparr>)
   = outbound_header E type opts inp r"
  by (simp add: outbound_header_def cong: option.case_cong if_cong)

lemma ScheduleActivity_sent:
  assumes "\<not> activity_known (scan r) (nat_to_string (activity_seq r))"
  shows "ScheduleActivity E type inp opts r =
    (length (heap r),
     r\<lparr>activity_seq := Suc (activity_seq r),
       produced_commands := produced_commands r
         @ [mk_command_event Activity (nat_to_string (activity_seq r)) type],
       commands := commands r @ [CmdScheduleActivityTask
         (activity_attributes (info r) (nat_to_string (activity_seq r)) type inp opts
            (outbound_header E type opts inp r))],
       heap := heap r @ [new_future OpActivity (nat_to_string (activity_seq r))],
       activity_futures := (activity_futures r)(nat_to_string (activity_seq r) \<mapsto> length (heap r))\<rparr>)"
  using assms by (simp add: ScheduleActivity_def EmitScheduleActivity_def schedule_defs)

lemma StartTimer_recorded:
  assumes "timer_known (scan r) (timer_id r)"
  shows "StartTimer d r =
    (length (heap r),
     r\<lparr>timer_seq := Suc (timer_seq r),
       produced_commands := produced_commands r @ [mk_command_event Timer (timer_id r) []],
       heap := heap r @ [(new_future OpTimer (timer_id r))
         \<lparr>ready := to_fired (the (timers (scan r) (timer_id r)))\<rparr>],
       timer_futures := (timer_futures r)(timer_id r \<mapsto> length (heap r))\<rparr>)"
  using assms by (simp add: StartTimer_def schedule_defs)

lemma StartTimer_sent:
  assumes "\<not> timer_known (scan r) (timer_id r)"
  shows "StartTimer d r =
    (length (heap r),
     r\<lparr>timer_seq := Suc (timer_seq r),
       produced_commands := produced_commands r @ [mk_command_event Timer (timer_id r) []],
       commands := commands r @ [CmdStartTimer (timer_id r) (ToProtoDuration d)],
       heap := heap r @ [new_future OpTimer (timer_id r)],
       timer_futures := (timer_futures r)(timer_id r \<mapsto> length (heap r))\<rparr>)"
  using assms by (simp add: StartTimer_def EmitStartTimer_def schedule_defs)

lemma StartChildWorkflow_recorded:
  assumes "child_known (scan r) (child_id opts r)"
  shows "StartChildWorkflow type inp opts r =
    (length (heap r),
     r\<lparr>child_seq := Suc (child_seq r),
       produced_commands := produced_commands r @ [mk_command_event ChildWorkflow (child_id opts r) type],
       heap := heap r @ [resolved_child (child_id opts r) (the (children (scan r) (child_id opts r)))],
       child_futures := (child_futures r)(child_id opts r \<mapsto> length (heap r))\<rparr>)"
  using assms by (simp add: StartChildWorkflow_def schedule_defs)

lemma StartChildWorkflow_sent:
  assumes "\<not> child_known (scan r) (child_id opts r)"
  shows "StartChildWorkflow type inp opts r =
    (length (heap r),
     r\<lparr>child_seq := Suc (child_seq r),
       produced_commands := produced_commands r @ [mk_command_event ChildWorkflow (child_id opts r) type],
       commands := commands r @ [CmdStartChildWorkflowExecution
         (child_attributes (info r) (child_id opts r) type inp opts)],
       heap := heap r @ [new_future OpChildWorkflow (child_id opts r)],
       child_futures := (child_futures r)(child_id opts r \<mapsto> length (heap r))\<rparr>)"
  using assms by (simp add: StartChildWorkflow_def EmitStartChildWorkflow_def schedule_defs)

lemma ScheduleNexusOperation_recorded:
  assumes "nexus_known (scan r) (nat_to_string (nexus_seq r))"
  shows "ScheduleNexusOperation ep sv opn inp d r =
    (length (heap r),
     r\<lparr>nexus_seq := Suc (nexus_seq r),
       produced_commands := produced_commands r
         @ [mk_command_event NexusOperation (nat_to_string (nexus_seq r)) []],
       heap := heap r @ [resolved_nexus (nat_to_string (nexus_seq r))
         (the (nexus_ops (scan r) (nat_to_string (nexus_seq r))))],
       nexus_futures := (nexus_futures r)(nat_to_string (nexus_seq r) \<mapsto> length (heap r))\<rparr>)"
  using assms by (simp add: ScheduleNexusOperation_def schedule_defs)

lemma ScheduleNexusOperation_sent:
  assumes "\<not> nexus_known (scan r) (nat_to_string (nexus_seq r))"
  shows "ScheduleNexusOperation ep sv opn inp d r =
    (length (heap r),
     r\<lparr>nexus_seq := Suc (nexus_seq r),
       produced_commands := produced_commands r
         @ [mk_command_event NexusOperation (nat_to_string (nexus_seq r)) []],
       commands := commands r @ [CmdScheduleNexusOperation (nexus_attributes ep sv opn inp d)],
       heap := heap r @ [new_future OpNexusOperation (nat_to_string (nexus_seq r))],
       nexus_futures := (nexus_futures r)(nat_to_string (nexus_seq r) \<mapsto> length (heap r))\<rparr>)"
  using assms by (simp add: ScheduleNexusOperation_def EmitNexusOperation_def schedule_defs)

end
