(* ===== verification/Runner_Exec.thy ===== *)
theory Runner_Exec
  imports Runner
begin

text \<open>
  Driving the workflow (\<^verbatim>\<open>WorkflowRunner::Run\<close>, \<^verbatim>\<open>ApplyAndResume\<close>, \<^verbatim>\<open>ResumeCoroutine\<close>, \<^verbatim>\<open>RunBody\<close>,
  \<^verbatim>\<open>ApplyEventToState\<close> and the handlers of \<^verbatim>\<open>src/internal/workflow_task_handler.cpp\<close>).

  \<open>exec\<close> runs a body against the runner until it finishes, suspends, or has made as many steps as
  the budget allows. The budget is what the body can do before \<^verbatim>\<open>deadlock_timeout_\<close> elapses: running
  out of it is the timeout when one is set, and otherwise a resume that has not returned
  (\<open>Hangs\<close>). The lemmas show that a larger budget never changes the answer.
\<close>

section \<open>One call\<close>

text \<open>
  A call is answered, waits at the same call (\<^verbatim>\<open>Block\<close> tests its future again after each resume), or
  parks and is answered at the next resume.
\<close>

datatype reply = Answer resp | Wait | ParkHere

fun perform :: "env \<Rightarrow> call \<Rightarrow> 's WorkflowRunner \<Rightarrow> reply \<times> 's WorkflowRunner" where
  "perform E (DoScheduleActivity type inp opts) r =
     map_prod (Answer \<circ> RFuture) id (ScheduleActivity E type inp opts r)"
| "perform E (DoStartTimer d) r = map_prod (Answer \<circ> RFuture) id (StartTimer d r)"
| "perform E (DoCancel st) r = (Answer RUnit, Cancel st r)"
| "perform E (DoCancelExternalWorkflow wid) r = (Answer RUnit, CancelExternalWorkflow wid r)"
| "perform E (DoSignalExternalWorkflow wid name inp) r =
     (Answer RUnit, SignalExternalWorkflow_op wid name inp r)"
| "perform E (DoUpsertSearchAttributes as) r = (Answer RUnit, UpsertSearchAttributes_op as r)"
| "perform E (DoStartChildWorkflow type inp opts) r =
     map_prod (Answer \<circ> RFuture) id (StartChildWorkflow type inp opts r)"
| "perform E (DoScheduleNexusOperation ep sv opn inp d) r =
     map_prod (Answer \<circ> RFuture) id (ScheduleNexusOperation ep sv opn inp d r)"
| "perform E (DoSideEffect fn) r = map_prod Answer id (SideEffect E fn r)"
| "perform E (DoGetVersion cid lo hi) r = map_prod Answer id (GetVersion E cid lo hi r)"
| "perform E (DoMutableSideEffect i fn eq) r = map_prod Answer id (MutableSideEffect E i fn eq r)"
| "perform E (DoExecuteLocalActivity type inp opts) r =
     map_prod Answer id (ExecuteLocalActivity E type inp opts r)"
| "perform E (DoBlock a) r = (if ready (heap r ! a) then Answer RUnit else Wait, r)"
| "perform E DoPark r = (ParkHere, r)"
| "perform E (DoReadFuture a) r = (Answer (RState (heap r ! a)), r)"
| "perform E (DoTryConsumeSignal name) r = map_prod (Answer \<circ> RSignal) id (TryConsumeSignal name r)"
| "perform E (DoHasSignal name) r = (Answer (RBool (HasSignal name r)), r)"
| "perform E DoIsCancelRequested r = (Answer (RBool (IsCancelRequested r)), r)"
| "perform E DoAwaitCancellation r = map_prod (Answer \<circ> RFuture) id (AwaitCancellation r)"
| "perform E DoIsReplaying r = (Answer (RBool (is_replaying r)), r)"
| "perform E DoInfo r = (Answer (RInfo (info r)), r)"

section \<open>The body\<close>

datatype 's stop = Stopped outcome | Suspended "'s body" | OutOfBudget

primrec exec :: "env \<Rightarrow> nat \<Rightarrow> 's body \<Rightarrow> 's WorkflowRunner \<Rightarrow> 's stop \<times> 's WorkflowRunner" where
  "exec E 0 b r = (OutOfBudget, r)"
| "exec E (Suc n) b r =
     (case b of
        Finish out \<Rightarrow> (Stopped out, r)
      | Get_locals k \<Rightarrow> exec E n (k (locals r)) r
      | Put_locals s k \<Rightarrow> exec E n k (r\<lparr>locals := s\<rparr>)
      | Invoke c k \<Rightarrow>
          (case perform E c r of
             (Answer v, r') \<Rightarrow> exec E n (k v) r'
           | (Wait, r') \<Rightarrow> (Suspended b, r')
           | (ParkHere, r') \<Rightarrow> (Suspended (k RUnit), r'))
      | Register kind name h k \<Rightarrow> exec E n k (RegisterHandler kind name h r))"

text \<open>
  The \<^verbatim>\<open>catch\<close> clauses of \<^verbatim>\<open>RunBody\<close> and the terminal command. A throw that is no \<^verbatim>\<open>std::exception\<close>
  ends the coroutine with its status still \<^verbatim>\<open>Blocked\<close>.
\<close>

definition body_failure :: "env \<Rightarrow> wf_error \<Rightarrow> Failure" where
  "body_failure E e =
     (case failure_converter (conv E) of
        Some fc \<Rightarrow> fc e
      | None \<Rightarrow> (case e of
                   ApplicationError msg type nr \<Rightarrow> MakeApplicationFailure msg type False
                 | StdError msg \<Rightarrow> MakeApplicationFailure msg ''std::exception'' False
                 | OtherThrow \<Rightarrow> MakeApplicationFailure [] [] False))"

fun RunBody_end :: "env \<Rightarrow> outcome \<Rightarrow> 's WorkflowRunner \<Rightarrow> 's WorkflowRunner" where
  "RunBody_end E (Returned p) r =
     push_produced (mk_command_event CompleteWorkflow [] []) (r\<lparr>run_result := p, status := Completed\<rparr>)"
| "RunBody_end E (ContinueAsNewRequested type inp) r =
     push_produced (mk_command_event ContinueAsNew [] [])
       (r\<lparr>continue_as_new := Some (type, inp), status := ContinueAsNewStatus\<rparr>)"
| "RunBody_end E (Threw e) r =
     (if e = OtherThrow then r
      else push_produced (mk_command_event FailWorkflow [] [])
             (r\<lparr>run_failure := Some (body_failure E e), status := Failed\<rparr>))"

section \<open>Control\<close>

text \<open>
  How a controller-side function ends: with a value, by a throw its \<^verbatim>\<open>catch (const std::exception&)\<close>
  clauses do not stop, or not at all.
\<close>

datatype 'a flow = Ok 'a | Escapes | Hangs

fun bind_flow :: "'a flow \<Rightarrow> ('a \<Rightarrow> 'b flow) \<Rightarrow> 'b flow" where
  "bind_flow (Ok x) f = f x"
| "bind_flow Escapes f = Escapes"
| "bind_flow Hangs f = Hangs"

definition ResumeCoroutine :: "env \<Rightarrow> nat \<Rightarrow> 's WorkflowRunner \<Rightarrow> 's WorkflowRunner flow" where
  "ResumeCoroutine E n r =
     (case coroutine r of
        Parked b \<Rightarrow>
          (case exec E n b r of
             (Stopped out, r') \<Rightarrow> Ok (RunBody_end E out (r'\<lparr>coroutine := CoDone\<rparr>))
           | (Suspended b', r') \<Rightarrow> Ok (r'\<lparr>coroutine := Parked b'\<rparr>)
           | (OutOfBudget, r') \<Rightarrow>
               (if deadlock_timeout r > 0 then Ok (r'\<lparr>deadlocked := True, coroutine := Overran\<rparr>)
                else Hangs))
      | Overran \<Rightarrow> (if deadlock_timeout r > 0 then Ok (r\<lparr>deadlocked := True\<rparr>) else Hangs)
      | CoDone \<Rightarrow> Ok r
      | NoCoroutine \<Rightarrow> Ok r)"

text \<open>
  A handler runs on the controller thread: where it would yield, that thread waits for a turn
  that nobody gives it.
\<close>

definition run_handler ::
  "env \<Rightarrow> nat \<Rightarrow> (Payloads \<Rightarrow> 's body) \<Rightarrow> Payloads \<Rightarrow> 's WorkflowRunner
   \<Rightarrow> ((wf_error + Payloads) \<times> 's WorkflowRunner) flow" where
  "run_handler E n h args r =
     (case exec E n (h args) r of
        (Stopped (Returned p), r') \<Rightarrow> Ok (Inr p, r')
      | (Stopped (Threw e), r') \<Rightarrow> Ok (Inl e, r')
      | (Stopped (ContinueAsNewRequested t i), r') \<Rightarrow> Ok (Inl OtherThrow, r')
      | (Suspended b, r') \<Rightarrow> Hangs
      | (OutOfBudget, r') \<Rightarrow> Hangs)"

definition RunQuery ::
  "env \<Rightarrow> nat \<Rightarrow> string \<Rightarrow> Payloads \<Rightarrow> 's WorkflowRunner
   \<Rightarrow> ((wf_error + Payloads) \<times> 's WorkflowRunner) flow" where
  "RunQuery E n name args r =
     (case query_handlers r name of
        None \<Rightarrow> Ok (Inl (ApplicationError (''unknown query type: '' @ name) ''QueryNotRegistered'' False), r)
      | Some h \<Rightarrow> run_handler E n h args r)"

definition RunUpdate ::
  "env \<Rightarrow> nat \<Rightarrow> string \<Rightarrow> Payloads \<Rightarrow> 's WorkflowRunner
   \<Rightarrow> ((wf_error + Payloads) \<times> 's WorkflowRunner) flow" where
  "RunUpdate E n name args r =
     (case update_handlers r name of
        None \<Rightarrow> Ok (Inl (ApplicationError (''unknown update: '' @ name) ''UpdateNotRegistered'' False), r)
      | Some h \<Rightarrow> run_handler E n h args r)"

text \<open>The validator's answer: \<open>None\<close> when the update may go on.\<close>

definition ValidateUpdate ::
  "env \<Rightarrow> nat \<Rightarrow> string \<Rightarrow> Payloads \<Rightarrow> 's WorkflowRunner
   \<Rightarrow> (wf_error option \<times> 's WorkflowRunner) flow" where
  "ValidateUpdate E n name args r =
     (case update_validators r name of
        None \<Rightarrow> Ok (None, r)
      | Some h \<Rightarrow> bind_flow (run_handler E n h args r)
                   (\<lambda>(res, r'). Ok (case res of Inl e \<Rightarrow> Some e | Inr p \<Rightarrow> None, r')))"

section \<open>Incremental events\<close>

definition resolve_at ::
  "addr \<Rightarrow> bool \<Rightarrow> Payloads \<Rightarrow> string \<Rightarrow> string \<Rightarrow> 's WorkflowRunner \<Rightarrow> 's WorkflowRunner" where
  "resolve_at a fl res ty msg r =
     set_future a (\<lambda>st. st\<lparr>ready := True, failed := fl, result := res, failure_type := ty,
                          failure_message := msg\<rparr>) r"

definition ResolveActivity ::
  "int \<Rightarrow> bool \<Rightarrow> Payloads \<Rightarrow> string \<Rightarrow> string \<Rightarrow> 's WorkflowRunner \<Rightarrow> 's WorkflowRunner" where
  "ResolveActivity sid fl res ty msg r =
     (case sched_event_to_activity (scan r) sid of
        None \<Rightarrow> r
      | Some i \<Rightarrow> (case activity_futures r i of
                     None \<Rightarrow> r
                   | Some a \<Rightarrow> resolve_at a fl res ty msg r))"

definition ResolveNexusOperation ::
  "int \<Rightarrow> bool \<Rightarrow> Payloads \<Rightarrow> string \<Rightarrow> string \<Rightarrow> 's WorkflowRunner \<Rightarrow> 's WorkflowRunner" where
  "ResolveNexusOperation sid fl res ty msg r =
     (case sched_event_to_nexus (scan r) sid of
        None \<Rightarrow> r
      | Some i \<Rightarrow> (case nexus_futures r i of
                     None \<Rightarrow> r
                   | Some a \<Rightarrow> resolve_at a fl res ty msg r))"

fun apply_activity :: "int \<Rightarrow> activity_event \<Rightarrow> 's WorkflowRunner \<Rightarrow> 's WorkflowRunner" where
  "apply_activity eid (ActivityTaskScheduled i type) r =
     r\<lparr>scan := (scan r)\<lparr>sched_event_to_activity := (sched_event_to_activity (scan r))(eid \<mapsto> i),
                       activity_to_sched_event := (activity_to_sched_event (scan r))(i \<mapsto> eid)\<rparr>\<rparr>"
| "apply_activity eid (ActivityTaskCompleted sid res) r =
     ResolveActivity sid False (FromProtoPayloads res) [] [] r"
| "apply_activity eid (ActivityTaskFailed sid fl) r =
     ResolveActivity sid True [] (app_type fl) (f_message fl) r"
| "apply_activity eid (ActivityTaskTimedOut sid) r =
     ResolveActivity sid True [] ''TimeoutError'' ''activity timed out'' r"
| "apply_activity eid (ActivityTaskCanceled sid) r =
     ResolveActivity sid True [] ''CanceledError'' ''activity cancelled'' r"
| "apply_activity eid (ActivityTaskCancelRequested sid) r =
     r\<lparr>scan := at_scheduled_activity sid (\<lambda>o1. o1\<lparr>ao_cancel_requested := True\<rparr>) (scan r)\<rparr>"

fun apply_timer :: "timer_event \<Rightarrow> 's WorkflowRunner \<Rightarrow> 's WorkflowRunner" where
  "apply_timer (TimerStarted i) r = r"
| "apply_timer (TimerFired i) r =
     (case timer_futures r i of None \<Rightarrow> r | Some a \<Rightarrow> set_future a (\<lambda>st. st\<lparr>ready := True\<rparr>) r)"
| "apply_timer (TimerCanceled i) r =
     (case timer_futures r i of
        None \<Rightarrow> r
      | Some a \<Rightarrow> set_future a (\<lambda>st. st\<lparr>ready := True, cancelled := True\<rparr>) r)"

definition at_child_future ::
  "string \<Rightarrow> (FutureState \<Rightarrow> FutureState) \<Rightarrow> 's WorkflowRunner \<Rightarrow> 's WorkflowRunner" where
  "at_child_future wid f r = (case child_futures r wid of None \<Rightarrow> r | Some a \<Rightarrow> set_future a f r)"

fun apply_child :: "child_event \<Rightarrow> 's WorkflowRunner \<Rightarrow> 's WorkflowRunner" where
  "apply_child (StartChildWorkflowExecutionInitiated wid type) r = r"
| "apply_child (ChildWorkflowExecutionCompleted wid res) r =
     at_child_future wid (\<lambda>st. st\<lparr>ready := True, result := FromProtoPayloads res\<rparr>) r"
| "apply_child (ChildWorkflowExecutionFailed wid fl) r =
     at_child_future wid (\<lambda>st. st\<lparr>ready := True, failed := True, failure_message := f_message fl,
                                 failure_type := app_type fl\<rparr>) r"
| "apply_child (ChildWorkflowExecutionCanceled wid) r =
     at_child_future wid (\<lambda>st. st\<lparr>ready := True, failed := True,
                                 failure_message := ''child workflow cancelled'',
                                 failure_type := ''CanceledError''\<rparr>) r"

fun apply_nexus :: "int \<Rightarrow> nexus_event \<Rightarrow> 's WorkflowRunner \<Rightarrow> 's WorkflowRunner" where
  "apply_nexus eid NexusOperationScheduled r = r\<lparr>scan := schedule_nexus eid (scan r)\<rparr>"
| "apply_nexus eid (NexusOperationCompleted sid res) r =
     ResolveNexusOperation sid False [FromProtoPayload res] [] [] r"
| "apply_nexus eid (NexusOperationFailed sid fl) r =
     ResolveNexusOperation sid True [] (app_type fl) (f_message fl) r"
| "apply_nexus eid (NexusOperationTimedOut sid) r =
     ResolveNexusOperation sid True [] ''TimeoutError'' ''nexus operation timed out'' r"
| "apply_nexus eid (NexusOperationCanceled sid) r =
     ResolveNexusOperation sid True [] ''CanceledError'' ''nexus operation cancelled'' r"

fun apply_switch :: "int \<Rightarrow> event_attrs \<Rightarrow> 's WorkflowRunner \<Rightarrow> 's WorkflowRunner" where
  "apply_switch eid (ActivityEv e) r = apply_activity eid e r"
| "apply_switch eid (TimerEv e) r = apply_timer e r"
| "apply_switch eid (ChildEv e) r = apply_child e r"
| "apply_switch eid (NexusEv e) r = apply_nexus eid e r"
| "apply_switch eid (WorkflowExecutionSignaled name inp) r = r\<lparr>scan := push_signal name inp (scan r)\<rparr>"
| "apply_switch eid WorkflowExecutionCancelRequested r =
     fold (\<lambda>a. set_future a (\<lambda>st. st\<lparr>ready := True\<rparr>)) (cancel_futures r)
       (r\<lparr>scan := (scan r)\<lparr>cancel_requested := True\<rparr>\<rparr>)"
| "apply_switch eid _ r = r"

definition ApplyEventToState :: "HistoryEvent \<Rightarrow> 's WorkflowRunner \<Rightarrow> 's WorkflowRunner" where
  "ApplyEventToState ev r = apply_switch (event_id ev) (attrs ev) r"

fun ApplyEvents :: "HistoryEvent list \<Rightarrow> 's WorkflowRunner \<Rightarrow> 's WorkflowRunner" where
  "ApplyEvents [] r = r"
| "ApplyEvents (ev # h) r =
     (if event_id ev \<le> last_event_id (scan r) then ApplyEvents h r
      else (let r' = ApplyEventToState ev r
            in ApplyEvents h (r'\<lparr>scan := (scan r')\<lparr>last_event_id := event_id ev\<rparr>\<rparr>)))"

section \<open>Run and continue\<close>

definition IsDone :: "'s WorkflowRunner \<Rightarrow> bool" where
  "IsDone r = (case coroutine r of CoDone \<Rightarrow> True | _ \<Rightarrow> False)"

definition has_coroutine :: "'s WorkflowRunner \<Rightarrow> bool" where
  "has_coroutine r = (case coroutine r of NoCoroutine \<Rightarrow> False | _ \<Rightarrow> True)"

text \<open>\<^verbatim>\<open>catch (const std::exception&)\<close> around a handler whose answer is dropped.\<close>

fun swallow :: "(wf_error + Payloads) \<times> 's WorkflowRunner \<Rightarrow> 's WorkflowRunner flow" where
  "swallow (Inl OtherThrow, r) = Escapes"
| "swallow (Inl (ApplicationError m t nr), r) = Ok r"
| "swallow (Inl (StdError m), r) = Ok r"
| "swallow (Inr p, r) = Ok r"

definition reapply_step :: "env \<Rightarrow> nat \<Rightarrow> ReplayStep \<Rightarrow> 's WorkflowRunner \<Rightarrow> 's WorkflowRunner flow" where
  "reapply_step E n step r =
     (case step of
        ReplayUpdate name args \<Rightarrow>
          (case update_handlers r name of
             None \<Rightarrow> Ok r
           | Some h \<Rightarrow> bind_flow (run_handler E n h args r) swallow)
      | ReplayEvent ev \<Rightarrow> Ok (ApplyEventToState ev r))"

fun reapply :: "env \<Rightarrow> nat \<Rightarrow> ReplayStep list \<Rightarrow> 's WorkflowRunner \<Rightarrow> 's WorkflowRunner flow" where
  "reapply E n [] r = Ok r"
| "reapply E n (step # steps) r =
     (if \<not> has_coroutine r \<or> IsDone r \<or> deadlocked r then Ok r
      else bind_flow (reapply_step E n step r)
             (\<lambda>r'. bind_flow (ResumeCoroutine E n r') (reapply E n steps)))"

definition ReapplyHistoricalUpdates ::
  "env \<Rightarrow> nat \<Rightarrow> 's WorkflowRunner \<Rightarrow> 's WorkflowRunner flow" where
  "ReapplyHistoricalUpdates E n r = reapply E n (post_update_timeline (scan r)) r"

definition start_coroutine :: "'s WorkflowRunner \<Rightarrow> 's WorkflowRunner" where
  "start_coroutine r =
     (if has_coroutine r then r
      else r\<lparr>coroutine := Parked (workflow_fn r (input r)), outbound_active := True\<rparr>)"

definition Run :: "env \<Rightarrow> nat \<Rightarrow> 's WorkflowRunner \<Rightarrow> 's WorkflowRunner flow" where
  "Run E n r =
     bind_flow (ResumeCoroutine E n (start_coroutine (r\<lparr>commands := [], produced_commands := []\<rparr>)))
       (ReapplyHistoricalUpdates E n)"

definition ApplyAndResume ::
  "env \<Rightarrow> nat \<Rightarrow> HistoryEvent list \<Rightarrow> 's WorkflowRunner \<Rightarrow> 's WorkflowRunner flow" where
  "ApplyAndResume E n h r0 =
     (let r = ApplyEvents h (r0\<lparr>commands := [], produced_commands := []\<rparr>)
      in if has_coroutine r then ResumeCoroutine E n r else Ok r)"

definition SetDeadlockTimeout :: "int \<Rightarrow> 's WorkflowRunner \<Rightarrow> 's WorkflowRunner" where
  "SetDeadlockTimeout t r = r\<lparr>deadlock_timeout := t\<rparr>"

definition CheckDeterminism :: "'s WorkflowRunner \<Rightarrow> string option" where
  "CheckDeterminism r = MatchReplayCommands (produced_commands r) (ps_commands (scan r))"

text \<open>The terminal command the response path appends for a finished workflow.\<close>

definition terminal_commands :: "'s WorkflowRunner \<Rightarrow> Command list" where
  "terminal_commands r =
     (case status r of
        Completed \<Rightarrow> [CmdCompleteWorkflowExecution (payloads_or_unset (run_result r))]
      | Failed \<Rightarrow> [CmdFailWorkflowExecution
                     (case run_failure r of None \<Rightarrow> \<lparr>f_message = [], f_source = [], f_app = None\<rparr> | Some f \<Rightarrow> f)]
      | ContinueAsNewStatus \<Rightarrow>
          (case continue_as_new r of
             None \<Rightarrow> [CmdContinueAsNew [] None]
           | Some (type, inp) \<Rightarrow> [CmdContinueAsNew type (payloads_or_unset inp)])
      | Blocked \<Rightarrow> [])"

section \<open>Budget\<close>

lemma exec_more_budget:
  "exec E n b r = (st, r') \<Longrightarrow> st \<noteq> OutOfBudget \<Longrightarrow> n \<le> m \<Longrightarrow> exec E m b r = (st, r')"
proof (induction n arbitrary: b r m)
  case (Suc n)
  then obtain m' where "m = Suc m'" "n \<le> m'" by (cases m) auto
  with Suc show ?case by (auto split: body.splits prod.splits reply.splits)
qed simp

section \<open>What running code leaves alone\<close>

lemma bind_flow_Ok: "bind_flow m f = Ok y \<longleftrightarrow> (\<exists>x. m = Ok x \<and> f x = Ok y)"
  by (cases m) auto

lemmas effect_defs =
  EmitScheduleActivity_def EmitStartTimer_def EmitCancelTimer_def EmitRequestCancelActivity_def
  EmitStartChildWorkflow_def EmitNexusOperation_def EmitRequestCancelExternalWorkflow_def
  EmitSignalExternalWorkflow_def EmitUpsertSearchAttributes_def EmitRecordMarker_def push_cmd_def
  push_produced_def warn_def alloc_def set_future_def

text \<open>No call touches the coroutine, the deadlock flag, the prescan or the status.\<close>

definition control_of :: "'s WorkflowRunner \<Rightarrow> 's coroutine \<times> bool \<times> int \<times> Prescan \<times> Status" where
  "control_of r = (coroutine r, deadlocked r, deadlock_timeout r, scan r, status r)"

lemma push_control [simp]:
  "control_of (push_produced p r) = control_of r" "control_of (push_cmd c r) = control_of r"
  "control_of (warn m f r) = control_of r" "control_of (set_future a g r) = control_of r"
  "control_of (EmitRecordMarker m d r) = control_of r"
  "control_of (snd (alloc st r)) = control_of r"
  by (simp_all add: control_of_def effect_defs)

lemma ScheduleActivity_control [simp]: "control_of (snd (ScheduleActivity E t i op r)) = control_of r"
  by (cases "activity_known (scan r) (nat_to_string (activity_seq r))")
    (simp_all add: ScheduleActivity_recorded ScheduleActivity_sent control_of_def)

lemma StartTimer_control [simp]: "control_of (snd (StartTimer d r)) = control_of r"
  by (cases "timer_known (scan r) (timer_id r)")
    (simp_all add: StartTimer_recorded StartTimer_sent control_of_def)

lemma StartChildWorkflow_control [simp]: "control_of (snd (StartChildWorkflow t i op r)) = control_of r"
  by (cases "child_known (scan r) (child_id op r)")
    (simp_all add: StartChildWorkflow_recorded StartChildWorkflow_sent control_of_def)

lemma ScheduleNexusOperation_control [simp]:
  "control_of (snd (ScheduleNexusOperation ep sv opn p d r)) = control_of r"
  by (cases "nexus_known (scan r) (nat_to_string (nexus_seq r))")
    (simp_all add: ScheduleNexusOperation_recorded ScheduleNexusOperation_sent control_of_def)

lemma Cancel_control [simp]: "control_of (Cancel st r) = control_of r"
  by (simp add: Cancel_def cancel_timer_def cancel_activity_def request_cancel_external_def
      EmitCancelTimer_def EmitRequestCancelActivity_def EmitRequestCancelExternalWorkflow_def Let_def
      split: option.split op.split)

lemma external_control [simp]:
  "control_of (CancelExternalWorkflow wid r) = control_of r"
  "control_of (SignalExternalWorkflow_op wid name inp r) = control_of r"
  "control_of (UpsertSearchAttributes_op as r) = control_of r"
  by (simp_all add: CancelExternalWorkflow_def request_cancel_external_def SignalExternalWorkflow_op_def
      UpsertSearchAttributes_op_def EmitRequestCancelExternalWorkflow_def EmitSignalExternalWorkflow_def
      EmitUpsertSearchAttributes_def Let_def) (simp_all add: control_of_def)

lemma marker_control [simp]:
  "control_of (snd (SideEffect E fn r)) = control_of r"
  "control_of (snd (GetVersion E cid lo hi r)) = control_of r"
  "control_of (snd (MutableSideEffect E i fn eq r)) = control_of r"
  "control_of (snd (ExecuteLocalActivity E t inp opts r)) = control_of r"
  by (auto simp: SideEffect_def ReplaySideEffect_def RecordSideEffect_def GetVersion_def MutableSideEffect_def
      BeginMutableSideEffect_def RecordMutableSideEffect_def ExecuteLocalActivity_def run_local_activity_def
      EmitRecordMarker_def push_cmd_def push_produced_def control_of_def Let_def
      split: option.split sum.split prod.split)

lemma quiet_control [simp]:
  "control_of (snd (TryConsumeSignal name r)) = control_of r"
  "control_of (snd (AwaitCancellation r)) = control_of r"
  "control_of (RegisterHandler kind name h r) = control_of r"
  by (auto simp: TryConsumeSignal_def AwaitCancellation_def alloc_def control_of_def Let_def
      split: option.split) (cases kind; simp)+

lemma perform_control: "perform E c r = (rep, r') \<Longrightarrow> control_of r' = control_of r"
  by (cases c) (auto simp: map_prod_id_eq split: if_splits; metis snd_conv
      ScheduleActivity_control StartTimer_control StartChildWorkflow_control ScheduleNexusOperation_control
      marker_control quiet_control)+

text \<open>
  What holds between a runner before and after every single call holds across a run of the body and
  of a handler.
\<close>

locale call_relation =
  fixes K :: "'s WorkflowRunner \<Rightarrow> 's WorkflowRunner \<Rightarrow> bool"
  assumes rel_refl: "K r r"
    and rel_trans: "K r r' \<Longrightarrow> K r' r'' \<Longrightarrow> K r r''"
    and rel_perform: "perform E c r = (rep, r') \<Longrightarrow> K r r'"
    and rel_locals: "K r (r\<lparr>locals := s\<rparr>)"
    and rel_register: "K r (RegisterHandler kind name h r)"
begin

lemma rel_exec: "exec E n b r = (st, r') \<Longrightarrow> K r r'"
proof (induction n arbitrary: b r)
  case (Suc n)
  show ?case
  proof (cases b)
    case (Put_locals s k)
    with Suc show ?thesis by (auto intro: rel_trans [OF rel_locals])
  next
    case (Invoke c k)
    obtain rep r1 where p: "perform E c r = (rep, r1)" by fastforce
    from rel_perform [OF p] Invoke Suc p show ?thesis by (cases rep) (auto intro: rel_trans)
  next
    case (Register kind name h k)
    with Suc show ?thesis by (auto intro: rel_trans [OF rel_register])
  qed (use Suc in \<open>auto intro: rel_refl\<close>)
qed (simp add: rel_refl)

lemma rel_run_handler: "run_handler E n h args r = Ok (x, r') \<Longrightarrow> K r r'"
  by (auto simp: run_handler_def dest: rel_exec split: prod.splits stop.splits outcome.splits)

end

interpretation steady: call_relation "\<lambda>r r'. control_of r' = control_of r"
  by unfold_locales (simp_all add: perform_control, simp add: control_of_def)

lemmas exec_control = steady.rel_exec
lemmas run_handler_control = steady.rel_run_handler

lemma exec_control_fields:
  assumes "exec E n b r = (st, r')"
  shows "coroutine r' = coroutine r" "deadlocked r' = deadlocked r"
    "deadlock_timeout r' = deadlock_timeout r" "scan r' = scan r" "status r' = status r"
  using exec_control [OF assms] by (simp_all add: control_of_def)

section \<open>Delivering events\<close>

lemma set_future_scan [simp]: "scan (set_future a f r) = scan r"
  by (simp add: set_future_def)

lemma fold_set_future_scan [simp]: "scan (fold (\<lambda>a. set_future a f) as r) = scan r"
  by (induction as arbitrary: r) auto

lemma apply_switch_last [simp]: "last_event_id (scan (apply_switch eid a r)) = last_event_id (scan r)"
proof (cases a)
  case (ActivityEv e)
  then show ?thesis
    by (cases e) (auto simp: ResolveActivity_def resolve_at_def scan_defs split: option.split)
next
  case (TimerEv e)
  then show ?thesis by (cases e) (auto split: option.split)
next
  case (ChildEv e)
  then show ?thesis by (cases e) (auto simp: at_child_future_def split: option.split)
next
  case (NexusEv e)
  then show ?thesis
    by (cases e) (auto simp: ResolveNexusOperation_def resolve_at_def scan_defs split: option.split)
qed (simp_all add: push_signal_def)

definition applied :: "HistoryEvent \<Rightarrow> 's WorkflowRunner \<Rightarrow> 's WorkflowRunner" where
  "applied ev r =
     (let r' = ApplyEventToState ev r in r'\<lparr>scan := (scan r')\<lparr>last_event_id := event_id ev\<rparr>\<rparr>)"

lemma applied_last [simp]: "last_event_id (scan (applied ev r)) = event_id ev"
  by (simp add: applied_def Let_def)

lemma ApplyEvents_new:
  "last_event_id (scan r) < event_id ev \<Longrightarrow> ApplyEvents (ev # h) r = ApplyEvents h (applied ev r)"
  by (simp add: applied_def Let_def)

lemma ApplyEvents_old:
  "\<forall>ev \<in> set h. event_id ev \<le> last_event_id (scan r) \<Longrightarrow> ApplyEvents h r = r"
  by (induction h) auto

lemma ApplyEvents_monotone:
  "last_event_id (scan r) \<le> last_event_id (scan (ApplyEvents h r))
   \<and> (\<forall>ev \<in> set h. event_id ev \<le> last_event_id (scan (ApplyEvents h r)))"
proof (induction h arbitrary: r)
  case (Cons ev h)
  show ?case
  proof (cases "event_id ev \<le> last_event_id (scan r)")
    case True
    with Cons [of r] show ?thesis by auto
  next
    case False
    with Cons [of "applied ev r"] show ?thesis by (auto simp: ApplyEvents_new simp del: ApplyEvents.simps)
  qed
qed simp

lemma ApplyEvents_again: "ApplyEvents h (ApplyEvents h r) = ApplyEvents h r"
  using ApplyEvents_monotone [of r h] by (intro ApplyEvents_old) blast

lemma ApplyEvents_append: "ApplyEvents (h @ g) r = ApplyEvents g (ApplyEvents h r)"
  by (induction h arbitrary: r) (auto simp: Let_def)

section \<open>Applying events and resuming\<close>

text \<open>
  Applying history events to a live runner is incremental and idempotent: a batch is its parts
  applied in order, and a page delivered twice changes nothing the second time, because events up to
  the last applied id are skipped.
\<close>

theorem ApplyEvents_incremental:
  "ApplyEvents (h @ g) r = ApplyEvents g (ApplyEvents h r)
   \<and> ApplyEvents (h @ h @ g) r = ApplyEvents (h @ g) r"
  by (simp add: ApplyEvents_append ApplyEvents_again)

text \<open>
  The deadlock budget only decides whether a resume ends: when the body suspends or stops within
  some budget, it does so in the same state and with the same outcome under every larger one.
\<close>

theorem resume_budget_irrelevant:
  assumes "ResumeCoroutine E n r = Ok r'" and "\<not> deadlocked r'" and "n \<le> m"
  shows "ResumeCoroutine E m r = Ok r'"
  using assms
  by (auto simp: ResumeCoroutine_def dest: exec_more_budget split: coroutine.splits prod.splits stop.splits if_splits)

theorem resume_budget_irrelevant_witness:
  "\<forall>E wi. ResumeCoroutine E 9 ((new_runner E wi False empty_prescan (\<lambda>p. Finish (Returned p)) [] ())
       \<lparr>coroutine := Parked (Put_locals () (Finish (Returned [])))\<rparr>)
     = ResumeCoroutine E 2 ((new_runner E wi False empty_prescan (\<lambda>p. Finish (Returned p)) [] ())
       \<lparr>coroutine := Parked (Put_locals () (Finish (Returned [])))\<rparr>)"
proof (intro allI)
  fix E wi
  let ?r = "(new_runner E wi False empty_prescan (\<lambda>p. Finish (Returned p)) [] ())
    \<lparr>coroutine := Parked (Put_locals () (Finish (Returned [])))\<rparr>"
  obtain r' where r': "ResumeCoroutine E 2 ?r = Ok r'" and "\<not> deadlocked r'"
    by (simp add: ResumeCoroutine_def new_runner_def numeral_2_eq_2 push_produced_def)
  from resume_budget_irrelevant [OF this, of 9] r'
  show "ResumeCoroutine E 9 ?r = ResumeCoroutine E 2 ?r" by simp
qed

end
