(* ===== verification/Replay.thy ===== *)
theory Replay
  imports Runner_Exec
begin

text \<open>
  Replay faithfulness: what a workflow does in its first task is what a later from-scratch replay
  does over the history the server recorded for that task, except that the replay sends nothing.

  The server is not part of the code; what the SDK relies on is the correspondence between commands
  and events that \<^verbatim>\<open>src/internal/determinism.h\<close> states, which \<open>echo_attrs\<close> writes out: each command
  of a completed task becomes one event, in order, that carries the fields the SDK matches on.
  The locale \<open>marker_codec\<close> is what the runner expects of the data converter for the values it
  stores in markers.
\<close>

section \<open>What the server records\<close>

fun echo_attrs :: "Command \<Rightarrow> event_attrs" where
  "echo_attrs (CmdScheduleActivityTask a) =
     ActivityEv (ActivityTaskScheduled (sa_activity_id a) (sa_activity_type a))"
| "echo_attrs (CmdStartTimer i d) = TimerEv (TimerStarted i)"
| "echo_attrs (CmdCancelTimer i) = TimerEv (TimerCanceled i)"
| "echo_attrs (CmdRequestCancelActivityTask sid) = ActivityEv (ActivityTaskCancelRequested sid)"
| "echo_attrs (CmdStartChildWorkflowExecution c) =
     ChildEv (StartChildWorkflowExecutionInitiated (sc_workflow_id c) (sc_workflow_type c))"
| "echo_attrs (CmdScheduleNexusOperation n) = NexusEv NexusOperationScheduled"
| "echo_attrs (CmdRequestCancelExternal ns wid child) =
     ExternalEv (RequestCancelExternalWorkflowExecutionInitiated wid)"
| "echo_attrs (CmdSignalExternal ns wid name inp) =
     ExternalEv (SignalExternalWorkflowExecutionInitiated wid)"
| "echo_attrs (CmdUpsertSearchAttributes as) = ExternalEv UpsertWorkflowSearchAttributes"
| "echo_attrs (CmdRecordMarker name details) = MarkerRecorded name details"
| "echo_attrs (CmdCompleteWorkflowExecution res) = WorkflowExecutionCompleted"
| "echo_attrs (CmdFailWorkflowExecution fl) = WorkflowExecutionFailed"
| "echo_attrs (CmdContinueAsNew type inp) = WorkflowExecutionContinuedAsNew"

text \<open>The command events of a stretch of history, task bookkeeping events left out.\<close>

fun is_other :: "event_attrs \<Rightarrow> bool" where
  "is_other OtherEvent = True"
| "is_other _ = False"

definition records :: "HistoryEvent list \<Rightarrow> Command list \<Rightarrow> bool" where
  "records tail cs \<longleftrightarrow>
     map attrs (filter (\<lambda>e. \<not> is_other (attrs e)) tail) = map echo_attrs cs"

text \<open>A history of a first task: nothing in it stems from a command.\<close>

fun before_commands :: "event_attrs \<Rightarrow> bool" where
  "before_commands (WorkflowExecutionStarted t i h) = True"
| "before_commands (WorkflowExecutionSignaled n i) = True"
| "before_commands WorkflowExecutionCancelRequested = True"
| "before_commands OtherEvent = True"
| "before_commands _ = False"

definition first_task_history :: "HistoryEvent list \<Rightarrow> bool" where
  "first_task_history h \<longleftrightarrow> list_all (before_commands \<circ> attrs) h"

section \<open>The calls a replay may depend on\<close>

text \<open>
  \<^verbatim>\<open>IsReplaying\<close> answers differently on replay by design. \<^verbatim>\<open>MutableSideEffect\<close> runs its function again
  when no later change is recorded, so its answer may differ. \<^verbatim>\<open>GetVersion\<close> checks the supported
  range on replay only, so the range must not be empty; its version is read back as an \<^verbatim>\<open>int\<close> and its
  change id as a string, so both must be values the converter keeps. \<open>utf8\<close> are the strings it keeps.
\<close>

fun safe_call :: "(string \<Rightarrow> bool) \<Rightarrow> call \<Rightarrow> bool" where
  "safe_call utf8 DoIsReplaying = False"
| "safe_call utf8 (DoMutableSideEffect i fn eq) = False"
| "safe_call utf8 (DoGetVersion cid lo hi) = (utf8 cid \<and> lo \<le> hi \<and> - (2 ^ 31) \<le> hi \<and> hi < 2 ^ 31)"
| "safe_call utf8 _ = True"

coinductive safe_body :: "(string \<Rightarrow> bool) \<Rightarrow> 's body \<Rightarrow> bool" for utf8 where
  safe_Finish: "safe_body utf8 (Finish out)"
| safe_Get: "(\<And>s. safe_body utf8 (k s)) \<Longrightarrow> safe_body utf8 (Get_locals k)"
| safe_Put: "safe_body utf8 b \<Longrightarrow> safe_body utf8 (Put_locals s b)"
| safe_Invoke: "safe_call utf8 c \<Longrightarrow> (\<And>v. safe_body utf8 (k v)) \<Longrightarrow> safe_body utf8 (Invoke c k)"
| safe_Register: "safe_body utf8 b \<Longrightarrow> safe_body utf8 (Register kind name h b)"

inductive_cases safe_GetE [elim!]: "safe_body utf8 (Get_locals k)"
inductive_cases safe_PutE [elim!]: "safe_body utf8 (Put_locals s b)"
inductive_cases safe_InvokeE [elim!]: "safe_body utf8 (Invoke c k)"
inductive_cases safe_RegisterE [elim!]: "safe_body utf8 (Register kind name h b)"

section \<open>How a prescan grows\<close>

definition act_open :: "Prescan \<Rightarrow> string \<Rightarrow> bool" where
  "act_open ps i = (case activities ps i of Some o1 \<Rightarrow> ao_scheduled o1 \<and> \<not> ao_resolved o1 | None \<Rightarrow> False)"

definition timer_open :: "Prescan \<Rightarrow> string \<Rightarrow> bool" where
  "timer_open ps i = (case timers ps i of Some t \<Rightarrow> to_started t \<and> \<not> to_fired t | None \<Rightarrow> False)"

definition timer_gone :: "Prescan \<Rightarrow> string \<Rightarrow> bool" where
  "timer_gone ps i = (case timers ps i of Some t \<Rightarrow> to_cancelled t | None \<Rightarrow> False)"

definition child_open :: "Prescan \<Rightarrow> string \<Rightarrow> bool" where
  "child_open ps i = (case children ps i of Some o1 \<Rightarrow> co_initiated o1 \<and> \<not> co_resolved o1 | None \<Rightarrow> False)"

definition child_asked :: "Prescan \<Rightarrow> string \<Rightarrow> bool" where
  "child_asked ps i = (case children ps i of Some o1 \<Rightarrow> co_cancel_requested o1 | None \<Rightarrow> False)"

definition nexus_open :: "Prescan \<Rightarrow> string \<Rightarrow> bool" where
  "nexus_open ps i = (case nexus_ops ps i of Some o1 \<Rightarrow> no_scheduled o1 \<and> \<not> no_resolved o1 | None \<Rightarrow> False)"

definition nothing_resolved :: "Prescan \<Rightarrow> bool" where
  "nothing_resolved ps \<longleftrightarrow>
     (\<forall>i o1. activities ps i = Some o1 \<longrightarrow> \<not> ao_resolved o1)
     \<and> (\<forall>i t. timers ps i = Some t \<longrightarrow> \<not> to_fired t)
     \<and> (\<forall>i o1. children ps i = Some o1 \<longrightarrow> \<not> co_resolved o1)
     \<and> (\<forall>i o1. nexus_ops ps i = Some o1 \<longrightarrow> \<not> no_resolved o1)"

definition grows :: "Prescan \<Rightarrow> Prescan \<Rightarrow> bool" where
  "grows ps qs \<longleftrightarrow>
     act_open ps \<le> act_open qs \<and> timer_open ps \<le> timer_open qs \<and> timer_gone ps \<le> timer_gone qs
     \<and> child_open ps \<le> child_open qs \<and> child_asked ps \<le> child_asked qs \<and> nexus_open ps \<le> nexus_open qs
     \<and> prefix (side_effects ps) (side_effects qs) \<and> prefix (local_activities ps) (local_activities qs)
     \<and> ext_signals_initiated ps \<le> ext_signals_initiated qs
     \<and> upserts_initiated ps \<le> upserts_initiated qs
     \<and> nexus_ops_scheduled ps \<le> nexus_ops_scheduled qs
     \<and> signals qs = signals ps \<and> cancel_requested qs = cancel_requested ps
     \<and> ps_headers qs = ps_headers ps \<and> ps_input qs = ps_input ps"

lemma grows_refl [simp]: "grows ps ps"
  by (simp add: grows_def)

lemma grows_trans: "grows ps qs \<Longrightarrow> grows qs rs \<Longrightarrow> grows ps rs"
  unfolding grows_def by (intro conjI) (auto intro: order_trans prefix_order.trans)

lemmas open_defs = act_open_def timer_open_def timer_gone_def child_open_def child_asked_def nexus_open_def

lemma grows_bookkeeping:
  "grows ps (qs\<lparr>last_event_id := l, post_update_timeline := t\<rparr>) = grows ps qs"
  by (simp add: grows_def open_defs le_fun_def)

lemma marker_grows: "grows ps (scan_marker m d ps) \<and> nothing_resolved (scan_marker m d ps) = nothing_resolved ps"
  by (rule scan_marker_cases)
    (auto simp: grows_def open_defs nothing_resolved_def push_command_def scan_side_effect_def
      scan_version_def scan_mutable_side_effect_def split: option.splits list.splits)

lemma echo_grows:
  assumes "nothing_resolved ps"
  shows "grows ps (scan_switch eid (echo_attrs c) ps) \<and> nothing_resolved (scan_switch eid (echo_attrs c) ps)"
proof (cases c)
  case (CmdRecordMarker m d)
  with assms show ?thesis by (simp add: marker_grows)
qed (use assms in \<open>auto simp: grows_def nothing_resolved_def open_defs scan_defs map_at_apply le_fun_def
      no_activity_def no_timer_def no_child_def no_nexus_op_def split: option.splits if_splits\<close>)

lemma scan_plain_grows:
  assumes "nothing_resolved ps" and "map attrs evs = map echo_attrs cs"
  shows "grows ps (scan_plain evs ps) \<and> nothing_resolved (scan_plain evs ps)"
  using assms
proof (induction evs arbitrary: ps cs)
  case (Cons ev evs)
  then obtain c cs' where "attrs ev = echo_attrs c" "map attrs evs = map echo_attrs cs'"
    by (cases cs) auto
  with Cons.IH [of "scan_switch (event_id ev) (attrs ev) ps" cs'] Cons.prems(1)
    echo_grows [of ps "event_id ev" c]
  show ?case by (auto intro: grows_trans)
qed simp

section \<open>The two runs side by side\<close>

text \<open>
  \<open>evs\<close> are the events the server recorded for the commands of the first task. After the live run
  has emitted \<open>k\<close> commands, the first \<open>k\<close> events are the ones that echo them; \<open>scan_upto\<close> is the
  prescan of those.
\<close>

definition scan_upto :: "HistoryEvent list \<Rightarrow> Prescan \<Rightarrow> Command list \<Rightarrow> Prescan" where
  "scan_upto evs ps0 cs = scan_plain (take (length cs) evs) ps0"

definition fresh_scan :: "Prescan \<Rightarrow> bool" where
  "fresh_scan ps \<longleftrightarrow>
     activities ps = Map.empty \<and> timers ps = Map.empty \<and> children ps = Map.empty \<and> nexus_ops ps = Map.empty
     \<and> nexus_ops_scheduled ps = 0 \<and> ext_signals_initiated ps = 0 \<and> upserts_initiated ps = 0
     \<and> side_effects ps = [] \<and> local_activities ps = [] \<and> version_markers ps = []
     \<and> activity_to_sched_event ps = Map.empty \<and> ps_commands ps = []"

text \<open>
  The replaying runner is the live one but for what it was built from and what it sends.
\<close>

definition mirror ::
  "Prescan \<Rightarrow> bool \<Rightarrow> (string \<rightharpoonup> int) \<Rightarrow> (string \<rightharpoonup> (int \<times> Payload) list)
   \<Rightarrow> 's WorkflowRunner \<Rightarrow> 's WorkflowRunner" where
  "mirror Q b V M rl =
     rl\<lparr>scan := Q, commands := [], is_replaying := b, change_versions := V, mse_recorded := M\<rparr>"

text \<open>
  While every produced command has been emitted, the counters of the live run count the recorded
  events, and what it produced is what the prescan will expect.
\<close>

definition in_step :: "converter \<Rightarrow> HistoryEvent list \<Rightarrow> Prescan \<Rightarrow> 's WorkflowRunner \<Rightarrow> bool" where
  "in_step cv evs ps0 rl \<longleftrightarrow>
     (let R = scan_upto evs ps0 (commands rl)
      in scan rl = ps0 \<and> \<not> is_replaying rl
         \<and> side_effect_seq rl = length (side_effects R)
         \<and> local_activity_seq rl = length (local_activities R)
         \<and> ext_signal_seq rl = ext_signals_initiated R
         \<and> upsert_seq rl = upserts_initiated R
         \<and> nexus_seq rl = nexus_ops_scheduled R
         \<and> change_versions rl = load_versions cv (version_markers R) Map.empty
         \<and> produced_commands rl = ps_commands R)"

definition gap :: "'s WorkflowRunner \<Rightarrow> int" where
  "gap r = int (length (produced_commands r)) - int (length (commands r))"

definition cannot_cancel :: string where
  "cannot_cancel = ''cannot cancel an activity not yet scheduled in history''"

definition refused_cancel :: "'s WorkflowRunner \<Rightarrow> bool" where
  "refused_cancel r \<longleftrightarrow> cannot_cancel \<in> fst ` set (warnings r)"

lemmas op_defs =
  Cancel_def cancel_timer_def cancel_activity_def request_cancel_external_def CancelExternalWorkflow_def
  child_cancel_recorded_def SignalExternalWorkflow_op_def UpsertSearchAttributes_op_def
  ReplaySideEffect_def RecordSideEffect_def SideEffect_def GetVersion_def
  ExecuteLocalActivity_def run_local_activity_def
  TryConsumeSignal_def HasSignal_def IsCancelRequested_def AwaitCancellation_def

text \<open>Every call only appends to the commands, the produced commands and the warnings.\<close>

definition extends :: "'s WorkflowRunner \<Rightarrow> 's WorkflowRunner \<Rightarrow> bool" where
  "extends r r' \<longleftrightarrow>
     scan r' = scan r \<and> is_replaying r' = is_replaying r \<and> status r' = status r
     \<and> prefix (commands r) (commands r') \<and> change_versions r \<subseteq>\<^sub>m change_versions r'
     \<and> set (warnings r) \<subseteq> set (warnings r')
     \<and> gap r \<le> gap r'"

lemma extends_refl [simp]: "extends r r"
  by (simp add: extends_def)

lemma extends_trans: "extends r s \<Longrightarrow> extends s t \<Longrightarrow> extends r t"
  unfolding extends_def by (auto intro: map_le_trans prefix_order.trans)

lemma perform_extends:
  assumes "safe_call utf8 c" and "perform E c r = (rep, r')"
  shows "extends r r'"
proof (cases c)
  case (DoScheduleActivity t i op)
  with assms show ?thesis
    by (cases "activity_known (scan r) (nat_to_string (activity_seq r))")
      (auto simp: extends_def gap_def ScheduleActivity_recorded ScheduleActivity_sent)
next
  case (DoStartTimer d)
  with assms show ?thesis
    by (cases "timer_known (scan r) (timer_id r)")
      (auto simp: extends_def gap_def StartTimer_recorded StartTimer_sent)
next
  case (DoCancel st)
  with assms show ?thesis
    by (auto simp: extends_def gap_def op_defs effect_defs Let_def split: option.splits op.splits if_splits)
next
  case (DoStartChildWorkflow t i op)
  with assms show ?thesis
    by (cases "child_known (scan r) (child_id op r)")
      (auto simp: extends_def gap_def StartChildWorkflow_recorded StartChildWorkflow_sent)
next
  case (DoScheduleNexusOperation ep sv opn i d)
  with assms show ?thesis
    by (cases "nexus_known (scan r) (nat_to_string (nexus_seq r))")
      (auto simp: extends_def gap_def ScheduleNexusOperation_recorded ScheduleNexusOperation_sent)
next
  case (DoSideEffect fn)
  with assms show ?thesis
    by (auto simp: extends_def gap_def op_defs effect_defs Let_def split: sum.splits if_splits)
next
  case (DoGetVersion cid lo hi)
  with assms show ?thesis
    by (auto simp: extends_def gap_def op_defs effect_defs Let_def map_le_def split: option.splits if_splits)
next
  case (DoExecuteLocalActivity t i op)
  with assms show ?thesis
    by (auto simp: extends_def gap_def op_defs effect_defs Let_def split: sum.splits option.splits if_splits)
next
  case (DoTryConsumeSignal n)
  with assms show ?thesis
    by (auto simp: extends_def gap_def op_defs effect_defs Let_def split: option.splits if_splits)
qed (use assms in \<open>auto simp: extends_def gap_def op_defs effect_defs Let_def split: if_splits\<close>)

lemma Register_extends: "extends r (RegisterHandler kind name h r)"
  by (cases kind) (simp_all add: extends_def gap_def)

lemma exec_extends:
  "exec E n b r = (st, r') \<Longrightarrow> safe_body utf8 b \<Longrightarrow> extends r r'"
proof (induction n arbitrary: b r)
  case (Suc n)
  show ?case
  proof (cases b)
    case (Put_locals s k)
    with Suc have "extends (r\<lparr>locals := s\<rparr>) r'" by auto
    then show ?thesis by (simp add: extends_def gap_def)
  next
    case (Invoke c k)
    obtain rep r1 where p: "perform E c r = (rep, r1)" by fastforce
    with Invoke Suc.prems have "extends r r1" by (auto intro: perform_extends)
    with p Invoke Suc show ?thesis by (cases rep) (auto intro: extends_trans)
  next
    case (Register kind name h k)
    with Suc show ?thesis by (auto intro: extends_trans [OF Register_extends])
  qed (use Suc in auto)
qed simp

section \<open>One call in both runs\<close>

definition task_record :: "HistoryEvent list \<Rightarrow> Command list \<Rightarrow> Prescan \<Rightarrow> Prescan \<Rightarrow> bool" where
  "task_record evs cs ps0 Q \<longleftrightarrow>
     fresh_scan ps0 \<and> map attrs evs = map echo_attrs cs
     \<and> (\<exists>l t. Q = (scan_plain evs ps0)\<lparr>last_event_id := l, post_update_timeline := t\<rparr>)"

lemma fresh_nothing_resolved: "fresh_scan ps \<Longrightarrow> nothing_resolved ps"
  by (simp add: fresh_scan_def nothing_resolved_def)

lemma echo_recorded: "\<exists>p. recorded_command n (echo_attrs c) = Some p"
  by (cases c) auto

lemma upto_Nil [simp]: "scan_upto evs ps0 [] = ps0"
  by (simp add: scan_upto_def)

lemma upto_step:
  assumes "task_record evs csF ps0 Q" and "prefix (cs @ [c]) csF"
  obtains eid where "scan_upto evs ps0 (cs @ [c]) = scan_switch eid (echo_attrs c) (scan_upto evs ps0 cs)"
proof -
  from assms(1) have m: "map attrs evs = map echo_attrs csF" by (simp add: task_record_def)
  then have len: "length evs = length csF" by (metis length_map)
  from assms(2) obtain ds where csF: "csF = cs @ c # ds" by (auto simp: prefix_def)
  with len have "length cs < length evs" by simp
  then have "take (Suc (length cs)) evs = take (length cs) evs @ [evs ! length cs]"
    by (rule take_Suc_conv_app_nth)
  moreover have "attrs (evs ! length cs) = echo_attrs c"
    using m csF \<open>length cs < length evs\<close> by (metis nth_append_length nth_map length_map len)
  ultimately show ?thesis
    using that [of "event_id (evs ! length cs)"] by (simp add: scan_upto_def scan_plain_append)
qed

lemma upto_length_commands:
  assumes "task_record evs csF ps0 Q" and "prefix cs csF"
  shows "length (ps_commands (scan_upto evs ps0 cs)) = length cs"
  using assms(2)
proof (induction cs rule: rev_induct)
  case Nil
  from assms(1) show ?case by (simp add: task_record_def fresh_scan_def)
next
  case (snoc c cs)
  obtain eid where "scan_upto evs ps0 (cs @ [c]) = scan_switch eid (echo_attrs c) (scan_upto evs ps0 cs)"
    using upto_step [OF assms(1) snoc.prems] .
  moreover obtain p where "recorded_command (nexus_ops_scheduled (scan_upto evs ps0 cs)) (echo_attrs c) = Some p"
    using echo_recorded by blast
  moreover have "prefix cs csF" using snoc.prems append_prefixD by blast
  ultimately show ?case using snoc.IH by (simp add: scan_switch_commands)
qed

lemma upto_final:
  assumes "task_record evs csF ps0 Q" and "prefix cs csF"
  shows "grows (scan_upto evs ps0 cs) Q"
proof -
  from assms obtain l t where Q: "Q = (scan_plain evs ps0)\<lparr>last_event_id := l, post_update_timeline := t\<rparr>"
    and m: "map attrs evs = map echo_attrs csF" and ps0: "nothing_resolved ps0"
    by (auto simp: task_record_def fresh_nothing_resolved)
  let ?n = "length cs"
  have "map attrs (take ?n evs) = map echo_attrs (take ?n csF)"
    "map attrs (drop ?n evs) = map echo_attrs (drop ?n csF)"
    using m by (metis take_map, metis drop_map)
  then have "grows (scan_upto evs ps0 cs) (scan_plain (drop ?n evs) (scan_upto evs ps0 cs))"
    using scan_plain_grows [OF ps0] scan_plain_grows unfolding scan_upto_def by blast
  then have "grows (scan_upto evs ps0 cs) (scan_plain evs ps0)"
    by (simp add: scan_upto_def flip: scan_plain_append)
  then show ?thesis by (simp add: Q grows_bookkeeping)
qed

lemma in_step_gap:
  assumes "task_record evs csF ps0 Q" and "prefix (commands rl) csF" and "in_step cv evs ps0 rl"
  shows "gap rl = 0"
  using assms upto_length_commands [OF assms(1,2)] by (simp add: in_step_def Let_def gap_def)

lemma mirror_simps [simp]:
  "scan (mirror Q b V M rl) = Q" "commands (mirror Q b V M rl) = []"
  "is_replaying (mirror Q b V M rl) = b" "change_versions (mirror Q b V M rl) = V"
  "info (mirror Q b V M rl) = info rl" "heap (mirror Q b V M rl) = heap rl"
  "produced_commands (mirror Q b V M rl) = produced_commands rl"
  "activity_seq (mirror Q b V M rl) = activity_seq rl" "timer_seq (mirror Q b V M rl) = timer_seq rl"
  "child_seq (mirror Q b V M rl) = child_seq rl" "nexus_seq (mirror Q b V M rl) = nexus_seq rl"
  "timer_id (mirror Q b V M rl) = timer_id rl" "child_id opts (mirror Q b V M rl) = child_id opts rl"
  by (simp_all add: mirror_def timer_id_def child_id_def)

text \<open>What the final prescan knows of a command the live run has just emitted.\<close>

lemma emitted_is_known:
  assumes "task_record evs csF ps0 Q" and "prefix (cs @ [c]) csF"
  obtains eid where "scan_upto evs ps0 (cs @ [c]) = scan_switch eid (echo_attrs c) (scan_upto evs ps0 cs)"
    and "grows (scan_switch eid (echo_attrs c) (scan_upto evs ps0 cs)) Q"
    and "nothing_resolved (scan_upto evs ps0 cs)"
proof -
  obtain eid where u: "scan_upto evs ps0 (cs @ [c]) = scan_switch eid (echo_attrs c) (scan_upto evs ps0 cs)"
    using upto_step [OF assms] .
  have "nothing_resolved ps0" using assms(1) by (simp add: task_record_def fresh_nothing_resolved)
  moreover have "map attrs (take (length cs) evs) = map echo_attrs (take (length cs) csF)"
    using assms(1) unfolding task_record_def by (metis take_map)
  ultimately have "nothing_resolved (scan_upto evs ps0 cs)"
    using scan_plain_grows unfolding scan_upto_def by blast
  with that u upto_final [OF assms] show ?thesis by metis
qed

lemma nothing_known_fresh:
  "fresh_scan ps \<Longrightarrow> \<not> activity_known ps i" "fresh_scan ps \<Longrightarrow> \<not> timer_known ps i"
  "fresh_scan ps \<Longrightarrow> \<not> child_known ps i" "fresh_scan ps \<Longrightarrow> \<not> nexus_known ps i"
  by (simp_all add: fresh_scan_def activity_known_def timer_known_def child_known_def nexus_known_def)

lemma open_activity:
  "act_open Q i \<Longrightarrow> activity_known Q i \<and> resolved_activity i (the (activities Q i)) = new_future OpActivity i"
  by (auto simp: act_open_def activity_known_def resolved_activity_def split: option.splits)

lemma open_timer:
  "timer_open Q i \<Longrightarrow> timer_known Q i
     \<and> (new_future OpTimer i)\<lparr>ready := to_fired (the (timers Q i))\<rparr> = new_future OpTimer i"
  by (auto simp: timer_open_def timer_known_def new_future_def split: option.splits)

lemma open_child:
  "child_open Q i \<Longrightarrow> child_known Q i \<and> resolved_child i (the (children Q i)) = new_future OpChildWorkflow i"
  by (auto simp: child_open_def child_known_def resolved_child_def split: option.splits)

lemma open_nexus:
  "nexus_open Q i \<Longrightarrow> nexus_known Q i \<and> resolved_nexus i (the (nexus_ops Q i)) = new_future OpNexusOperation i"
  by (auto simp: nexus_open_def nexus_known_def resolved_nexus_def split: option.splits)

lemma growsD:
  assumes "grows ps Q"
  shows "act_open ps i \<Longrightarrow> act_open Q i" "timer_open ps i \<Longrightarrow> timer_open Q i"
    "timer_gone ps i \<Longrightarrow> timer_gone Q i" "child_open ps i \<Longrightarrow> child_open Q i"
    "child_asked ps i \<Longrightarrow> child_asked Q i" "nexus_open ps i \<Longrightarrow> nexus_open Q i"
  using assms by (auto simp: grows_def le_fun_def)

lemma sim_activity:
  assumes tr: "task_record evs csF ps0 Q" and i: "in_step cv evs ps0 rl"
    and p: "ScheduleActivity E type inp opts rl = (a, rl')" and pre: "prefix (commands rl') csF"
  shows "ScheduleActivity E' type inp opts (mirror Q b V M rl) = (a, mirror Q b V M rl')
    \<and> in_step cv evs ps0 rl'"
proof -
  have fr: "\<not> activity_known (scan rl) (nat_to_string (activity_seq rl))"
    using tr i by (simp add: task_record_def in_step_def Let_def nothing_known_fresh)
  note live = ScheduleActivity_sent [OF fr, of E type inp opts]
  let ?c = "CmdScheduleActivityTask (activity_attributes (info rl) (nat_to_string (activity_seq rl)) type inp
    opts (outbound_header E type opts inp rl))"
  from pre p live have "prefix (commands rl @ [?c]) csF" by auto
  from emitted_is_known [OF tr this] obtain eid
    where u: "scan_upto evs ps0 (commands rl @ [?c]) = scan_switch eid (echo_attrs ?c) (scan_upto evs ps0 (commands rl))"
      and g: "grows (scan_switch eid (echo_attrs ?c) (scan_upto evs ps0 (commands rl))) Q"
      and n: "nothing_resolved (scan_upto evs ps0 (commands rl))" .
  have "act_open (scan_switch eid (echo_attrs ?c) (scan_upto evs ps0 (commands rl)))
      (nat_to_string (activity_seq rl))"
    using n by (auto simp: act_open_def scan_defs nothing_resolved_def no_activity_def split: option.split)
  note k = open_activity [OF growsD(1) [OF g this]]
  have "in_step cv evs ps0 rl'"
    using p live i u by (auto simp: in_step_def Let_def scan_defs)
  moreover have "ScheduleActivity E' type inp opts (mirror Q b V M rl) = (a, mirror Q b V M rl')"
    using p live k by (auto simp: ScheduleActivity_recorded mirror_def)
  ultimately show ?thesis by simp
qed

lemma sim_timer:
  assumes tr: "task_record evs csF ps0 Q" and i: "in_step cv evs ps0 rl"
    and p: "StartTimer d rl = (a, rl')" and pre: "prefix (commands rl') csF"
  shows "StartTimer d (mirror Q b V M rl) = (a, mirror Q b V M rl') \<and> in_step cv evs ps0 rl'"
proof -
  have fr: "\<not> timer_known (scan rl) (timer_id rl)"
    using tr i by (simp add: task_record_def in_step_def Let_def nothing_known_fresh)
  note live = StartTimer_sent [OF fr, of d]
  let ?c = "CmdStartTimer (timer_id rl) (ToProtoDuration d)"
  from pre p live have "prefix (commands rl @ [?c]) csF" by auto
  from emitted_is_known [OF tr this] obtain eid
    where u: "scan_upto evs ps0 (commands rl @ [?c]) = scan_switch eid (echo_attrs ?c) (scan_upto evs ps0 (commands rl))"
      and g: "grows (scan_switch eid (echo_attrs ?c) (scan_upto evs ps0 (commands rl))) Q"
      and n: "nothing_resolved (scan_upto evs ps0 (commands rl))" .
  have "timer_open (scan_switch eid (echo_attrs ?c) (scan_upto evs ps0 (commands rl))) (timer_id rl)"
    using n i by (auto simp: timer_open_def scan_defs nothing_resolved_def no_timer_def in_step_def split: option.split)
  note k = open_timer [OF growsD(2) [OF g this]]
  have "in_step cv evs ps0 rl'"
    using p live i u by (auto simp: in_step_def Let_def scan_defs)
  moreover have "StartTimer d (mirror Q b V M rl) = (a, mirror Q b V M rl')"
    using p live k by (auto simp: StartTimer_recorded) (simp add: mirror_def)
  ultimately show ?thesis by simp
qed

lemma sim_child:
  assumes tr: "task_record evs csF ps0 Q" and i: "in_step cv evs ps0 rl"
    and p: "StartChildWorkflow type inp opts rl = (a, rl')" and pre: "prefix (commands rl') csF"
  shows "StartChildWorkflow type inp opts (mirror Q b V M rl) = (a, mirror Q b V M rl') \<and> in_step cv evs ps0 rl'"
proof -
  have fr: "\<not> child_known (scan rl) (child_id opts rl)"
    using tr i by (simp add: task_record_def in_step_def Let_def nothing_known_fresh)
  note live = StartChildWorkflow_sent [OF fr, of type inp]
  let ?c = "CmdStartChildWorkflowExecution (child_attributes (info rl) (child_id opts rl) type inp opts)"
  from pre p live have "prefix (commands rl @ [?c]) csF" by auto
  from emitted_is_known [OF tr this] obtain eid
    where u: "scan_upto evs ps0 (commands rl @ [?c]) = scan_switch eid (echo_attrs ?c) (scan_upto evs ps0 (commands rl))"
      and g: "grows (scan_switch eid (echo_attrs ?c) (scan_upto evs ps0 (commands rl))) Q"
      and n: "nothing_resolved (scan_upto evs ps0 (commands rl))" .
  have "child_open (scan_switch eid (echo_attrs ?c) (scan_upto evs ps0 (commands rl))) (child_id opts rl)"
    using n i by (auto simp: child_open_def scan_defs nothing_resolved_def no_child_def in_step_def split: option.split)
  note k = open_child [OF growsD(4) [OF g this]]
  have "in_step cv evs ps0 rl'"
    using p live i u by (auto simp: in_step_def Let_def scan_defs)
  moreover have "StartChildWorkflow type inp opts (mirror Q b V M rl) = (a, mirror Q b V M rl')"
    using p live k by (auto simp: StartChildWorkflow_recorded) (simp add: mirror_def)
  ultimately show ?thesis by simp
qed

lemma sim_nexus:
  assumes tr: "task_record evs csF ps0 Q" and i: "in_step cv evs ps0 rl"
    and p: "ScheduleNexusOperation ep sv opn inp d rl = (a, rl')" and pre: "prefix (commands rl') csF"
  shows "ScheduleNexusOperation ep sv opn inp d (mirror Q b V M rl) = (a, mirror Q b V M rl') \<and> in_step cv evs ps0 rl'"
proof -
  have fr: "\<not> nexus_known (scan rl) (nat_to_string (nexus_seq rl))"
    using tr i by (simp add: task_record_def in_step_def Let_def nothing_known_fresh)
  note live = ScheduleNexusOperation_sent [OF fr, of ep sv opn inp d]
  let ?c = "CmdScheduleNexusOperation (nexus_attributes ep sv opn inp d)"
  from pre p live have "prefix (commands rl @ [?c]) csF" by auto
  from emitted_is_known [OF tr this] obtain eid
    where u: "scan_upto evs ps0 (commands rl @ [?c]) = scan_switch eid (echo_attrs ?c) (scan_upto evs ps0 (commands rl))"
      and g: "grows (scan_switch eid (echo_attrs ?c) (scan_upto evs ps0 (commands rl))) Q"
      and n: "nothing_resolved (scan_upto evs ps0 (commands rl))" .
  have "nexus_open (scan_switch eid (echo_attrs ?c) (scan_upto evs ps0 (commands rl))) (nat_to_string (nexus_seq rl))"
    using n i by (auto simp: nexus_open_def scan_defs nothing_resolved_def no_nexus_op_def in_step_def split: option.split)
  note k = open_nexus [OF growsD(6) [OF g this]]
  have "in_step cv evs ps0 rl'"
    using p live i u by (auto simp: in_step_def Let_def scan_defs)
  moreover have "ScheduleNexusOperation ep sv opn inp d (mirror Q b V M rl) = (a, mirror Q b V M rl')"
    using p live k by (auto simp: ScheduleNexusOperation_recorded) (simp add: mirror_def)
  ultimately show ?thesis by simp
qed

lemma fresh_in_step:
  assumes "task_record evs csF ps0 Q" and "in_step cv evs ps0 rl"
  shows "scan rl = ps0" and "fresh_scan ps0"
  using assms by (simp_all add: task_record_def in_step_def Let_def)

lemma sim_request_cancel:
  assumes tr: "task_record evs csF ps0 Q" and i: "in_step cv evs ps0 rl"
    and pre: "prefix (commands (request_cancel_external wid only rl)) csF"
  shows "request_cancel_external wid only (mirror Q b V M rl) = mirror Q b V M (request_cancel_external wid only rl)
    \<and> in_step cv evs ps0 (request_cancel_external wid only rl)"
proof -
  let ?c = "CmdRequestCancelExternal (wi_ns (info rl)) wid only"
  have live: "request_cancel_external wid only rl =
      rl\<lparr>produced_commands := produced_commands rl @ [mk_command_event RequestCancelExternalWorkflow wid []],
         commands := commands rl @ [?c]\<rparr>"
    using fresh_in_step [OF tr i]
    by (simp add: request_cancel_external_def child_cancel_recorded_def fresh_scan_def effect_defs Let_def)
  from pre live have "prefix (commands rl @ [?c]) csF" by simp
  from emitted_is_known [OF tr this] obtain eid
    where u: "scan_upto evs ps0 (commands rl @ [?c]) = scan_switch eid (echo_attrs ?c) (scan_upto evs ps0 (commands rl))"
      and g: "grows (scan_switch eid (echo_attrs ?c) (scan_upto evs ps0 (commands rl))) Q" .
  have "child_asked (scan_switch eid (echo_attrs ?c) (scan_upto evs ps0 (commands rl))) wid"
    by (simp add: child_asked_def scan_defs)
  from growsD(5) [OF g this] have "child_cancel_recorded wid (push_produced p (mirror Q b V M rl))" for p
    by (simp add: child_cancel_recorded_def child_asked_def push_produced_def)
  then have "request_cancel_external wid only (mirror Q b V M rl)
      = mirror Q b V M (request_cancel_external wid only rl)"
    unfolding live by (simp add: request_cancel_external_def Let_def) (simp add: push_produced_def mirror_def)
  moreover have "in_step cv evs ps0 (request_cancel_external wid only rl)"
    using i u by (auto simp: live in_step_def Let_def scan_defs)
  ultimately show ?thesis by simp
qed

lemma sim_cancel_timer:
  assumes tr: "task_record evs csF ps0 Q" and i: "in_step cv evs ps0 rl"
    and pre: "prefix (commands (cancel_timer a rl)) csF"
  shows "cancel_timer a (mirror Q b V M rl) = mirror Q b V M (cancel_timer a rl)
    \<and> in_step cv evs ps0 (cancel_timer a rl)"
proof -
  let ?i = "op_id (heap rl ! a)"
  let ?c = "CmdCancelTimer ?i"
  have live: "cancel_timer a rl =
      rl\<lparr>produced_commands := produced_commands rl @ [mk_command_event CancelTimer ?i []],
         commands := commands rl @ [?c],
         heap := (heap rl)[a := (heap rl ! a)\<lparr>ready := True, cancelled := True\<rparr>]\<rparr>"
    using fresh_in_step [OF tr i] by (simp add: cancel_timer_def fresh_scan_def effect_defs Let_def)
  from pre live have "prefix (commands rl @ [?c]) csF" by simp
  from emitted_is_known [OF tr this] obtain eid
    where u: "scan_upto evs ps0 (commands rl @ [?c]) = scan_switch eid (echo_attrs ?c) (scan_upto evs ps0 (commands rl))"
      and g: "grows (scan_switch eid (echo_attrs ?c) (scan_upto evs ps0 (commands rl))) Q" .
  have "timer_gone (scan_switch eid (echo_attrs ?c) (scan_upto evs ps0 (commands rl))) ?i"
    by (simp add: timer_gone_def scan_defs)
  from growsD(3) [OF g this] have "timer_gone Q ?i" .
  then have "cancel_timer a (mirror Q b V M rl) = mirror Q b V M (cancel_timer a rl)"
    unfolding live by (simp add: cancel_timer_def timer_gone_def Let_def push_produced_def)
      (simp add: set_future_def mirror_def)
  moreover have "in_step cv evs ps0 (cancel_timer a rl)"
    using i u by (auto simp: live in_step_def Let_def scan_defs)
  ultimately show ?thesis by simp
qed

lemma sim_warn:
  "warn m f (mirror Q b V M rl) = mirror Q b V M (warn m f rl)"
  "in_step cv evs ps0 (warn m f rl) = in_step cv evs ps0 rl"
  by (simp_all add: warn_def mirror_def in_step_def)

lemma sim_cancel:
  assumes tr: "task_record evs csF ps0 Q" and i: "in_step cv evs ps0 rl"
    and pre: "prefix (commands (Cancel st rl)) csF" and ok: "\<not> refused_cancel (Cancel st rl)"
  shows "Cancel st (mirror Q b V M rl) = mirror Q b V M (Cancel st rl) \<and> in_step cv evs ps0 (Cancel st rl)"
proof (cases st)
  case None
  with i show ?thesis by (simp add: Cancel_def)
next
  case (Some a)
  show ?thesis
  proof (cases "cancelled (heap rl ! a)")
    case True
    with Some i show ?thesis by (simp add: Cancel_def)
  next
    case False
    show ?thesis
    proof (cases "fs_op (heap rl ! a)")
      case OpTimer
      with Some False pre sim_cancel_timer [OF tr i, of a] show ?thesis by (simp add: Cancel_def)
    next
      case OpActivity
      have "cancel_activity a rl = warn cannot_cancel (op_id (heap rl ! a)) rl"
        using fresh_in_step [OF tr i]
        by (simp add: cancel_activity_def fresh_scan_def cannot_cancel_def)
      with OpActivity Some False ok show ?thesis
        by (simp add: Cancel_def refused_cancel_def warn_def)
    next
      case OpChildWorkflow
      with Some False pre sim_request_cancel [OF tr i, of "op_id (heap rl ! a)" True]
      show ?thesis by (simp add: Cancel_def)
    qed (use Some False i in \<open>simp_all add: Cancel_def sim_warn\<close>)
  qed
qed

lemma sim_signal:
  assumes tr: "task_record evs csF ps0 Q" and i: "in_step cv evs ps0 rl"
    and pre: "prefix (commands (SignalExternalWorkflow_op wid name inp rl)) csF"
  shows "SignalExternalWorkflow_op wid name inp (mirror Q b V M rl)
      = mirror Q b V M (SignalExternalWorkflow_op wid name inp rl)
    \<and> in_step cv evs ps0 (SignalExternalWorkflow_op wid name inp rl)"
proof -
  let ?c = "CmdSignalExternal (wi_ns (info rl)) wid name (payloads_or_unset inp)"
  have live: "SignalExternalWorkflow_op wid name inp rl =
      rl\<lparr>ext_signal_seq := Suc (ext_signal_seq rl),
         produced_commands := produced_commands rl @ [mk_command_event SignalExternalWorkflow wid []],
         commands := commands rl @ [?c]\<rparr>"
    using fresh_in_step [OF tr i]
    by (simp add: SignalExternalWorkflow_op_def fresh_scan_def effect_defs Let_def)
  from pre live have "prefix (commands rl @ [?c]) csF" by simp
  from emitted_is_known [OF tr this] obtain eid
    where u: "scan_upto evs ps0 (commands rl @ [?c]) = scan_switch eid (echo_attrs ?c) (scan_upto evs ps0 (commands rl))"
      and g: "grows (scan_switch eid (echo_attrs ?c) (scan_upto evs ps0 (commands rl))) Q" .
  have "ext_signal_seq rl < ext_signals_initiated Q"
    using g i by (simp add: grows_def in_step_def Let_def scan_defs)
  then have "SignalExternalWorkflow_op wid name inp (mirror Q b V M rl)
      = mirror Q b V M (SignalExternalWorkflow_op wid name inp rl)"
    unfolding live by (simp add: SignalExternalWorkflow_op_def Let_def push_produced_def mirror_def)
  moreover have "in_step cv evs ps0 (SignalExternalWorkflow_op wid name inp rl)"
    using i u by (auto simp: live in_step_def Let_def scan_defs)
  ultimately show ?thesis by simp
qed

lemma sim_upsert:
  assumes tr: "task_record evs csF ps0 Q" and i: "in_step cv evs ps0 rl"
    and pre: "prefix (commands (UpsertSearchAttributes_op as rl)) csF"
  shows "UpsertSearchAttributes_op as (mirror Q b V M rl) = mirror Q b V M (UpsertSearchAttributes_op as rl)
    \<and> in_step cv evs ps0 (UpsertSearchAttributes_op as rl)"
proof -
  let ?c = "CmdUpsertSearchAttributes (map_option ToProtoPayload \<circ> as)"
  have live: "UpsertSearchAttributes_op as rl =
      rl\<lparr>upsert_seq := Suc (upsert_seq rl),
         produced_commands := produced_commands rl @ [mk_command_event UpsertSearchAttributes [] []],
         commands := commands rl @ [?c]\<rparr>"
    using fresh_in_step [OF tr i]
    by (simp add: UpsertSearchAttributes_op_def fresh_scan_def effect_defs Let_def)
  from pre live have "prefix (commands rl @ [?c]) csF" by simp
  from emitted_is_known [OF tr this] obtain eid
    where u: "scan_upto evs ps0 (commands rl @ [?c]) = scan_switch eid (echo_attrs ?c) (scan_upto evs ps0 (commands rl))"
      and g: "grows (scan_switch eid (echo_attrs ?c) (scan_upto evs ps0 (commands rl))) Q" .
  have "upsert_seq rl < upserts_initiated Q"
    using g i by (simp add: grows_def in_step_def Let_def scan_defs)
  then have "UpsertSearchAttributes_op as (mirror Q b V M rl)
      = mirror Q b V M (UpsertSearchAttributes_op as rl)"
    unfolding live by (simp add: UpsertSearchAttributes_op_def Let_def push_produced_def mirror_def)
  moreover have "in_step cv evs ps0 (UpsertSearchAttributes_op as rl)"
    using i u by (auto simp: live in_step_def Let_def scan_defs)
  ultimately show ?thesis by simp
qed

section \<open>Markers in both runs\<close>

text \<open>
  What the runner relies on for the strings and integers it stores in markers: UTF-8 text and 32-bit
  integers decode to what was encoded, and an encoded text has data (an empty payload is read as the
  empty string).
\<close>

locale marker_codec =
  fixes cv :: converter
    and utf8 :: "string \<Rightarrow> bool"
  assumes string_roundtrip: "utf8 s \<Longrightarrow> from_payload_string cv (to_payload_string cv s) = Some s"
    and int_roundtrip: "- (2 ^ 31) \<le> n \<Longrightarrow> n < 2 ^ 31 \<Longrightarrow> from_payload_int cv (to_payload_int cv n) = Some n"
    and string_has_data: "utf8 s \<Longrightarrow> pdata (to_payload_string cv s) \<noteq> []"
    and text_empty: "utf8 []"
begin

lemma decode_text_roundtrip: "utf8 s \<Longrightarrow> decode_text cv (to_payload_string cv s) = s"
  by (simp add: decode_text_def string_has_data string_roundtrip)

lemma load_versions_snoc:
  assumes "utf8 cid" and "- (2 ^ 31) \<le> v" and "v < 2 ^ 31"
  shows "load_versions cv (ms @ [([to_payload_string cv cid], [to_payload_int cv v])]) m
     = (load_versions cv ms m)(cid \<mapsto> v)"
  using string_roundtrip [OF assms(1)] int_roundtrip [OF assms(2,3)]
  by (induction ms arbitrary: m) auto

lemma failure_marker_decodes:
  assumes "details ''failure-type'' = Some (ToProtoPayloads [to_payload_string cv ty])"
    and "details ''failure-message'' = Some (ToProtoPayloads [to_payload_string cv msg])"
    and "utf8 ty" and "utf8 msg"
  shows "la_failed (local_activity_raw details)"
    and "decode_text cv (la_failure_type (local_activity_raw details)) = ty"
    and "decode_text cv (la_failure_message (local_activity_raw details)) = msg"
  using assms by (simp_all add: local_activity_raw_def first_payload_def decode_text_roundtrip)

end

lemma sim_side_effect:
  assumes tr: "task_record evs csF ps0 Q" and i: "in_step cv evs ps0 rl"
    and p: "SideEffect E fn rl = (v, rl')" and pre: "prefix (commands rl') csF" and gap: "gap rl' \<le> 0"
  shows "SideEffect E' fn (mirror Q b V M rl) = (v, mirror Q b V M rl') \<and> in_step cv evs ps0 rl'"
proof -
  note fr = fresh_in_step [OF tr i]
  have "prefix (commands rl) csF"
    using perform_extends [of _ "DoSideEffect fn" E rl "Answer v" rl'] p pre
    by (auto simp: extends_def intro: prefix_order.trans)
  note g0 = in_step_gap [OF tr this i]
  let ?m = "mk_command_event Marker ''SideEffect'' []"
  obtain x where x: "fn (world E) = Inr x"
    using p gap g0 fr by (cases "fn (world E)")
      (auto simp: SideEffect_def ReplaySideEffect_def push_produced_def fresh_scan_def gap_def Let_def)
  define d where "d = [''side-effect-id'' \<mapsto> ToProtoPayloads [to_payload_int (conv E) (int (side_effect_seq rl))],
    ''data'' \<mapsto> ToProtoPayloads [x]]"
  let ?c = "CmdRecordMarker ''SideEffect'' d"
  have live: "v = RPayload x" "rl' = rl\<lparr>side_effect_seq := Suc (side_effect_seq rl),
         produced_commands := produced_commands rl @ [?m], commands := commands rl @ [?c]\<rparr>"
    using p fr x by (auto simp: SideEffect_def ReplaySideEffect_def RecordSideEffect_def fresh_scan_def
        effect_defs d_def Let_def)
  from pre live have "prefix (commands rl @ [?c]) csF" by simp
  from emitted_is_known [OF tr this] obtain eid
    where u: "scan_upto evs ps0 (commands rl @ [?c]) = scan_switch eid (echo_attrs ?c) (scan_upto evs ps0 (commands rl))"
      and g: "grows (scan_switch eid (echo_attrs ?c) (scan_upto evs ps0 (commands rl))) Q" .
  have se: "scan_marker ''SideEffect'' d ps
      = (push_command ?m ps)\<lparr>side_effects := side_effects ps @ [x]\<rparr>" for ps
    by (simp add: scan_marker_def scan_side_effect_def d_def push_command_def FromProtoPayloads_def
        ToProtoPayloads_def Let_def)
  let ?n = "side_effect_seq rl"
  have "prefix (side_effects (scan_upto evs ps0 (commands rl)) @ [x]) (side_effects Q)"
    using g by (simp add: grows_def se)
  then have "?n < length (side_effects Q)" "side_effects Q ! ?n = x"
    using i by (auto simp: prefix_def in_step_def Let_def)
  then have "SideEffect E' fn (mirror Q b V M rl) = (v, mirror Q b V M rl')"
    by (simp add: live SideEffect_def ReplaySideEffect_def push_produced_def mirror_def Let_def)
  moreover have "in_step cv evs ps0 rl'"
    using i u by (auto simp: live in_step_def Let_def se push_command_def)
  ultimately show ?thesis by simp
qed

text \<open>What \<^verbatim>\<open>ExecuteLocalActivity\<close> answers from a recorded marker.\<close>

definition recorded_answer :: "converter \<Rightarrow> LocalActivityMarkerRaw \<Rightarrow> resp" where
  "recorded_answer cv raw =
     (if la_failed raw
      then RThrow (ApplicationError (decode_text cv (la_failure_message raw))
                     (decode_text cv (la_failure_type raw)) False)
      else RPayloads (la_result raw))"

text \<open>The messages and types of the errors local activities raise, as far as markers carry them.\<close>

fun text_error :: "(string \<Rightarrow> bool) \<Rightarrow> wf_error \<Rightarrow> bool" where
  "text_error utf8 (ApplicationError msg ty nr) = (utf8 msg \<and> utf8 ty)"
| "text_error utf8 (StdError msg) = utf8 msg"
| "text_error utf8 OtherThrow = True"

definition text_failures :: "(string \<Rightarrow> bool) \<Rightarrow> env \<Rightarrow> bool" where
  "text_failures utf8 E \<longleftrightarrow>
     (\<forall>resolve name fn ai inp e. local_activity_resolver E = Some resolve \<longrightarrow> resolve name = Some fn
        \<longrightarrow> fn ai inp = Inl e \<longrightarrow> text_error utf8 e)"

lemma la_loop_text:
  assumes "\<And>ai e. fn ai inp = Inl e \<Longrightarrow> text_error utf8 e" and "utf8 []"
  shows "la_loop fn inp type r m a acc = Some (Inl (ty, msg)) \<Longrightarrow> utf8 (fst acc) \<Longrightarrow> utf8 (snd acc)
    \<Longrightarrow> utf8 ty \<and> utf8 msg"
  using assms(1)
proof (induction fn inp type r m a acc rule: la_loop.induct)
  case (1 fn inp type r m a acc)
  show ?case
  proof (cases "fn (la_info type a r) inp")
    case (Inl e)
    with "1.prems" have "text_error utf8 e" by blast
    with Inl 1 assms(2) show ?thesis
      by (cases e) (auto simp: la_loop.simps [of fn inp type r m a acc] split: if_splits)
  next
    case (Inr res)
    with 1 show ?thesis by (auto simp: la_loop.simps [of fn inp type r m a acc] split: if_splits)
  qed
qed

context marker_codec
begin

lemma local_activity_live:
  assumes cv: "conv E = cv" and tf: "text_failures utf8 E" and p: "ExecuteLocalActivity E type inp opts rl = (v, rl')"
    and none: "local_activities (scan rl) = []" and gap: "gap rl' \<le> 0" "gap rl = 0"
  shows "\<exists>d. v = recorded_answer cv (local_activity_raw d)
    \<and> rl' = rl\<lparr>local_activity_seq := Suc (local_activity_seq rl),
        produced_commands := produced_commands rl @ [mk_command_event Marker ''LocalActivity'' []],
        commands := commands rl @ [CmdRecordMarker ''LocalActivity'' d]\<rparr>"
proof -
  let ?r = "rl\<lparr>local_activity_seq := Suc (local_activity_seq rl),
    produced_commands := produced_commands rl @ [mk_command_event Marker ''LocalActivity'' []]\<rparr>"
  have r: "gap ?r = 1" using gap(2) by (simp add: gap_def)
  obtain resolve where res: "local_activity_resolver E = Some resolve"
    using p none gap r by (cases "local_activity_resolver E")
      (auto simp: ExecuteLocalActivity_def push_produced_def Let_def)
  obtain fn where fn: "resolve type = Some fn"
    using p none gap r res by (cases "resolve type")
      (auto simp: ExecuteLocalActivity_def push_produced_def Let_def)
  have q: "run_local_activity E fn type inp opts ?r = (v, rl')"
    using p none res fn by (simp add: ExecuteLocalActivity_def push_produced_def Let_def)
  show ?thesis
  proof (cases "la_loop fn inp type ?r (la_max_attempts opts) 1 ([], [])")
    case None
    with q gap r show ?thesis by (auto simp: run_local_activity_def)
  next
    case (Some out)
    show ?thesis
    proof (cases out)
      case (Inr res)
      with q Some show ?thesis
        by (intro exI [of _ "[''result'' \<mapsto> ToProtoPayloads res]"])
          (auto simp: run_local_activity_def effect_defs recorded_answer_def local_activity_raw_def)
    next
      case (Inl f)
      obtain ty msg where f: "f = (ty, msg)" by fastforce
      let ?d = "[''failure-type'' \<mapsto> ToProtoPayloads [to_payload_string cv ty],
        ''failure-message'' \<mapsto> ToProtoPayloads [to_payload_string cv msg]]"
      have "utf8 ty \<and> utf8 msg"
        by (rule la_loop_text [where fn = fn and inp = inp])
          (use Some Inl f tf res fn text_empty in \<open>auto simp: text_failures_def\<close>)
      then have "v = recorded_answer cv (local_activity_raw ?d)"
        using q Some Inl f failure_marker_decodes [of ?d ty msg]
        by (simp add: run_local_activity_def recorded_answer_def)
      moreover have "rl' = ?r\<lparr>commands := commands rl @ [CmdRecordMarker ''LocalActivity'' ?d]\<rparr>"
        using q Some Inl f by (simp add: run_local_activity_def effect_defs cv)
      ultimately show ?thesis by (intro exI [of _ ?d]) simp
    qed
  qed
qed

lemma sim_local_activity:
  assumes tr: "task_record evs csF ps0 Q" and i: "in_step cv evs ps0 rl"
    and cv: "conv E = cv" "conv E' = cv"
    and tf: "text_failures utf8 E"
    and p: "ExecuteLocalActivity E type inp opts rl = (v, rl')"
    and pre: "prefix (commands rl') csF" and gap: "gap rl' \<le> 0"
  shows "ExecuteLocalActivity E' type inp opts (mirror Q b V M rl) = (v, mirror Q b V M rl')
    \<and> in_step cv evs ps0 rl'"
proof -
  note fr = fresh_in_step [OF tr i]
  have "prefix (commands rl) csF"
    using perform_extends [of _ "DoExecuteLocalActivity type inp opts" E rl "Answer v" rl'] p pre
    by (auto simp: extends_def intro: prefix_order.trans)
  note g0 = in_step_gap [OF tr this i]
  have none: "local_activities (scan rl) = []" using fr by (simp add: fresh_scan_def)
  let ?m = "mk_command_event Marker ''LocalActivity'' []"
  from local_activity_live [OF cv(1) tf p none gap g0] obtain d
    where live: "v = recorded_answer cv (local_activity_raw d)"
      "rl' = rl\<lparr>local_activity_seq := Suc (local_activity_seq rl),
        produced_commands := produced_commands rl @ [?m],
        commands := commands rl @ [CmdRecordMarker ''LocalActivity'' d]\<rparr>" by blast
  let ?c = "CmdRecordMarker ''LocalActivity'' d"
  from pre live have "prefix (commands rl @ [?c]) csF" by simp
  from emitted_is_known [OF tr this] obtain eid
    where u: "scan_upto evs ps0 (commands rl @ [?c]) = scan_switch eid (echo_attrs ?c) (scan_upto evs ps0 (commands rl))"
      and g: "grows (scan_switch eid (echo_attrs ?c) (scan_upto evs ps0 (commands rl))) Q" .
  have la: "scan_marker ''LocalActivity'' d ps
      = (push_command ?m ps)\<lparr>local_activities := local_activities ps @ [local_activity_raw d]\<rparr>" for ps
    by (simp add: scan_marker_def push_command_def Let_def)
  let ?n = "local_activity_seq rl"
  have "prefix (local_activities (scan_upto evs ps0 (commands rl)) @ [local_activity_raw d]) (local_activities Q)"
    using g by (simp add: grows_def la)
  then have "?n < length (local_activities Q)" "local_activities Q ! ?n = local_activity_raw d"
    using i by (auto simp: prefix_def in_step_def Let_def)
  then have "ExecuteLocalActivity E' type inp opts (mirror Q b V M rl) = (v, mirror Q b V M rl')"
    by (simp add: live cv recorded_answer_def ExecuteLocalActivity_def push_produced_def mirror_def Let_def)
  moreover have "in_step cv evs ps0 rl'"
    using i u by (auto simp: live in_step_def Let_def la push_command_def)
  ultimately show ?thesis by simp
qed

lemma sim_version:
  assumes tr: "task_record evs csF ps0 Q" and i: "in_step cv evs ps0 rl"
    and cv: "conv E = cv" and safe: "safe_call utf8 (DoGetVersion cid lo hi)"
    and p: "GetVersion E cid lo hi rl = (v, rl')"
    and pre: "prefix (commands rl') csF" and gap: "gap rl' \<le> 0"
    and V: "change_versions rl' \<subseteq>\<^sub>m V"
  shows "GetVersion E' cid lo hi (mirror Q b V M rl) = (v, mirror Q b V M rl') \<and> in_step cv evs ps0 rl'"
proof -
  have "prefix (commands rl) csF"
    using perform_extends [of _ "DoGetVersion cid lo hi" E rl "Answer v" rl', OF safe] p pre
    by (auto simp: extends_def intro: prefix_order.trans)
  note g0 = in_step_gap [OF tr this i]
  have none: "change_versions rl cid = None"
    using p gap g0 by (cases "change_versions rl cid")
      (auto simp: GetVersion_def push_produced_def gap_def Let_def split: if_splits)
  let ?m = "mk_command_event Marker ''Version'' []"
  define d where "d = [''change-id'' \<mapsto> ToProtoPayloads [to_payload_string cv cid],
    ''version'' \<mapsto> ToProtoPayloads [to_payload_int cv hi]]"
  let ?c = "CmdRecordMarker ''Version'' d"
  have live: "v = RInt hi" "rl' = rl\<lparr>produced_commands := produced_commands rl @ [?m],
      commands := commands rl @ [?c], change_versions := (change_versions rl)(cid \<mapsto> hi)\<rparr>"
    using p none i by (auto simp: GetVersion_def in_step_def effect_defs cv d_def Let_def)
  from pre live have "prefix (commands rl @ [?c]) csF" by simp
  from emitted_is_known [OF tr this] obtain eid
    where u: "scan_upto evs ps0 (commands rl @ [?c]) = scan_switch eid (echo_attrs ?c) (scan_upto evs ps0 (commands rl))" .
  have vm: "scan_marker ''Version'' d ps = (push_command ?m ps)\<lparr>version_markers :=
      version_markers ps @ [([to_payload_string cv cid], [to_payload_int cv hi])]\<rparr>" for ps
    by (simp add: scan_marker_def scan_version_def d_def push_command_def Let_def)
  have "V cid = Some hi" using V by (force simp: live map_le_def)
  then have "GetVersion E' cid lo hi (mirror Q b V M rl) = (v, mirror Q b V M rl')"
    using safe by (simp add: live GetVersion_def push_produced_def mirror_def Let_def)
  moreover have "in_step cv evs ps0 rl'"
    using i u safe by (auto simp: live in_step_def Let_def vm push_command_def load_versions_snoc)
  ultimately show ?thesis by simp
qed

end

section \<open>A whole task in both runs\<close>

lemma sim_quiet:
  assumes tr: "task_record evs csF ps0 Q" and i: "in_step cv evs ps0 rl"
  shows "TryConsumeSignal name (mirror Q b V M rl) = map_prod id (mirror Q b V M) (TryConsumeSignal name rl)"
    and "in_step cv evs ps0 (snd (TryConsumeSignal name rl))"
    and "HasSignal name (mirror Q b V M rl) = HasSignal name rl"
    and "IsCancelRequested (mirror Q b V M rl) = IsCancelRequested rl"
    and "AwaitCancellation (mirror Q b V M rl) = map_prod id (mirror Q b V M) (AwaitCancellation rl)"
    and "in_step cv evs ps0 (snd (AwaitCancellation rl))"
proof -
  have "signals Q = signals (scan rl)" "cancel_requested Q = cancel_requested (scan rl)"
    using upto_final [OF tr, of "[]"] fresh_in_step [OF tr i] by (simp_all add: grows_def)
  then show "TryConsumeSignal name (mirror Q b V M rl) = map_prod id (mirror Q b V M) (TryConsumeSignal name rl)"
    "HasSignal name (mirror Q b V M rl) = HasSignal name rl"
    "IsCancelRequested (mirror Q b V M rl) = IsCancelRequested rl"
    "AwaitCancellation (mirror Q b V M rl) = map_prod id (mirror Q b V M) (AwaitCancellation rl)"
    by (auto simp: TryConsumeSignal_def HasSignal_def IsCancelRequested_def AwaitCancellation_def alloc_def
        mirror_def Let_def split: option.split)
  show "in_step cv evs ps0 (snd (TryConsumeSignal name rl))" "in_step cv evs ps0 (snd (AwaitCancellation rl))"
    using i by (auto simp: in_step_def TryConsumeSignal_def AwaitCancellation_def alloc_def Let_def
        split: option.split)
qed

context marker_codec
begin

lemma sim_perform:
  assumes tr: "task_record evs csF ps0 Q" and i: "in_step cv evs ps0 rl"
    and cv: "conv E = cv" "conv E' = cv" and tf: "text_failures utf8 E"
    and p: "perform E c rl = (rep, rl')" and safe: "safe_call utf8 c"
    and pre: "prefix (commands rl') csF" and gap: "gap rl' \<le> 0" and ok: "\<not> refused_cancel rl'"
    and V: "change_versions rl' \<subseteq>\<^sub>m V"
  shows "perform E' c (mirror Q b V M rl) = (rep, mirror Q b V M rl') \<and> in_step cv evs ps0 rl'"
proof (cases c)
  case (DoScheduleActivity t inp op)
  with p obtain a where "ScheduleActivity E t inp op rl = (a, rl')" "rep = Answer (RFuture a)" by (auto simp: map_prod_id_eq)
  with DoScheduleActivity sim_activity [OF tr i _ pre] show ?thesis by simp
next
  case (DoStartTimer d)
  with p obtain a where "StartTimer d rl = (a, rl')" "rep = Answer (RFuture a)" by (auto simp: map_prod_id_eq)
  with DoStartTimer sim_timer [OF tr i _ pre] show ?thesis by simp
next
  case (DoCancel st)
  with p sim_cancel [OF tr i, of st] pre ok show ?thesis by auto
next
  case (DoCancelExternalWorkflow wid)
  with p sim_request_cancel [OF tr i, of wid False] pre show ?thesis by (auto simp: CancelExternalWorkflow_def)
next
  case (DoSignalExternalWorkflow wid name inp)
  with p sim_signal [OF tr i, of wid name inp] pre show ?thesis by auto
next
  case (DoUpsertSearchAttributes as)
  with p sim_upsert [OF tr i, of as] pre show ?thesis by auto
next
  case (DoStartChildWorkflow t inp op)
  with p obtain a where "StartChildWorkflow t inp op rl = (a, rl')" "rep = Answer (RFuture a)" by (auto simp: map_prod_id_eq)
  with DoStartChildWorkflow sim_child [OF tr i _ pre] show ?thesis by simp
next
  case (DoScheduleNexusOperation ep sv opn inp d)
  with p obtain a where "ScheduleNexusOperation ep sv opn inp d rl = (a, rl')" "rep = Answer (RFuture a)"
    by (auto simp: map_prod_id_eq)
  with DoScheduleNexusOperation sim_nexus [OF tr i _ pre] show ?thesis by simp
next
  case (DoSideEffect fn)
  with p obtain v where "SideEffect E fn rl = (v, rl')" "rep = Answer v" by (auto simp: map_prod_id_eq)
  with DoSideEffect sim_side_effect [OF tr i _ pre gap] show ?thesis by simp
next
  case (DoGetVersion cid lo hi)
  with p obtain v where "GetVersion E cid lo hi rl = (v, rl')" "rep = Answer v" by (auto simp: map_prod_id_eq)
  with DoGetVersion sim_version [OF tr i cv(1) _ _ pre gap V] safe show ?thesis by simp
next
  case (DoExecuteLocalActivity t inp op)
  with p obtain v where "ExecuteLocalActivity E t inp op rl = (v, rl')" "rep = Answer v" by (auto simp: map_prod_id_eq)
  with DoExecuteLocalActivity sim_local_activity [OF tr i cv tf _ pre gap] show ?thesis by simp
next
  case (DoTryConsumeSignal n)
  with p sim_quiet [OF tr i] show ?thesis by (cases "TryConsumeSignal n rl") (auto, metis snd_conv)
next
  case DoAwaitCancellation
  with p sim_quiet [OF tr i] show ?thesis by (cases "AwaitCancellation rl") auto
qed (use p safe i sim_quiet [OF tr i] in auto)

lemma Register_mirror:
  "RegisterHandler kind name h (mirror Q b V M rl) = mirror Q b V M (RegisterHandler kind name h rl)"
  "in_step cv evs ps0 (RegisterHandler kind name h rl) = in_step cv evs ps0 rl"
  by (cases kind; simp add: mirror_def in_step_def)+

lemma sim_exec:
  assumes tr: "task_record evs csF ps0 Q" and cv: "conv E = cv" "conv E' = cv"
    and tf: "text_failures utf8 E"
    and "in_step cv evs ps0 rl" and "exec E n body rl = (st, rF)" and "safe_body utf8 body"
    and pre: "prefix (commands rF) csF" and gap: "gap rF \<le> 0" and ok: "\<not> refused_cancel rF"
    and V: "change_versions rF \<subseteq>\<^sub>m V"
  shows "exec E' n body (mirror Q b V M rl) = (st, mirror Q b V M rF) \<and> in_step cv evs ps0 rF"
  using assms(5-7)
proof (induction n arbitrary: body rl)
  case (Suc n)
  show ?case
  proof (cases body)
    case (Finish out)
    with Suc.prems show ?thesis by simp
  next
    case (Get_locals k)
    moreover have "locals (mirror Q b V M rl) = locals rl" by (simp add: mirror_def)
    ultimately show ?thesis using Suc by auto
  next
    case (Put_locals s k)
    moreover have "(mirror Q b V M rl)\<lparr>locals := s\<rparr> = mirror Q b V M (rl\<lparr>locals := s\<rparr>)"
      "in_step cv evs ps0 (rl\<lparr>locals := s\<rparr>) = in_step cv evs ps0 rl"
      by (simp_all add: mirror_def in_step_def)
    ultimately show ?thesis using Suc by auto
  next
    case (Invoke c k)
    obtain rep r1 where p: "perform E c rl = (rep, r1)" by fastforce
    from Invoke Suc.prems have safe: "safe_call utf8 c" "\<And>v. safe_body utf8 (k v)" by auto
    have "extends r1 rF"
    proof (cases rep)
      case (Answer v)
      with p Invoke Suc.prems safe show ?thesis by (auto intro: exec_extends)
    qed (use p Invoke Suc.prems in auto)
    then have "prefix (commands r1) csF" "gap r1 \<le> 0" "\<not> refused_cancel r1" "change_versions r1 \<subseteq>\<^sub>m V"
      using pre gap ok V
      by (auto simp: extends_def refused_cancel_def intro: prefix_order.trans map_le_trans)
    from sim_perform [OF tr Suc.prems(1) cv tf p safe(1) this]
    have "perform E' c (mirror Q b V M rl) = (rep, mirror Q b V M r1)" "in_step cv evs ps0 r1" by auto
    with p Invoke Suc safe show ?thesis by (cases rep) auto
  next
    case (Register kind name h k)
    with Suc.IH [of "RegisterHandler kind name h rl" k] Suc.prems show ?thesis
      by (auto simp: Register_mirror)
  qed
qed simp

end

section \<open>Histories of a first task\<close>

lemma scan_plain_other:
  "scan_plain (filter (\<lambda>e. \<not> is_other (attrs e)) h) ps = scan_plain h ps"
proof (induction h arbitrary: ps)
  case (Cons ev h)
  then show ?case by (cases "attrs ev") auto
qed simp

lemma scan_plain_bookkeeping:
  "\<not> list_ex (is_update_accepted \<circ> attrs) h \<Longrightarrow>
   scan_plain h (ps\<lparr>last_event_id := l, post_update_timeline := t\<rparr>)
     = (scan_plain h ps)\<lparr>last_event_id := l, post_update_timeline := t\<rparr>"
  by (induction h arbitrary: ps) (simp_all add: scan_switch_bookkeeping)

lemma ScanHistory_no_update:
  "\<not> list_ex (is_update_accepted \<circ> attrs) h \<Longrightarrow>
   ScanHistory h = (scan_plain h empty_prescan)
     \<lparr>last_event_id := (if h = [] then 0 else event_id (last h)), post_update_timeline := []\<rparr>"
  using visible_append_no_update [of h "[]"] timeline_append_no_update [of h "[]"]
  by (simp add: ScanHistory_split)

lemma first_task_no_update: "first_task_history h \<Longrightarrow> \<not> list_ex (is_update_accepted \<circ> attrs) h"
proof (induction h)
  case (Cons ev h)
  then show ?case by (cases "attrs ev") (auto simp: first_task_history_def)
qed simp

lemma echo_no_update: "\<not> is_update_accepted (echo_attrs c)"
  by (cases c) auto

lemma records_no_update:
  assumes "records tail cs"
  shows "\<not> list_ex (is_update_accepted \<circ> attrs) tail"
proof
  assume "list_ex (is_update_accepted \<circ> attrs) tail"
  then obtain ev where ev: "ev \<in> set tail" "is_update_accepted (attrs ev)"
    by (auto simp: list_ex_iff)
  then have "\<not> is_other (attrs ev)" by (cases "attrs ev") auto
  with ev have "attrs ev \<in> set (map attrs (filter (\<lambda>e. \<not> is_other (attrs e)) tail))" by auto
  then have "attrs ev \<in> echo_attrs ` set cs" using assms by (simp add: records_def flip: set_map)
  with ev echo_no_update show False by auto
qed

lemma first_task_fresh:
  assumes "first_task_history h"
  shows "fresh_scan (ScanHistory h)"
proof -
  have "fresh_scan (scan_plain h ps)" if "fresh_scan ps" for ps
    using that assms
  proof (induction h arbitrary: ps)
    case (Cons ev h)
    have "fresh_scan (scan_switch (event_id ev) (attrs ev) ps)"
      using Cons.prems by (cases "attrs ev") (auto simp: first_task_history_def fresh_scan_def push_signal_def)
    with Cons show ?case by (auto simp: first_task_history_def)
  qed simp
  moreover have "fresh_scan empty_prescan" by (simp add: fresh_scan_def empty_prescan_def)
  ultimately show ?thesis
    by (simp add: ScanHistory_no_update [OF first_task_no_update [OF assms]] fresh_scan_def)
qed

lemma first_task_record:
  assumes h: "first_task_history h" and r: "records tail cs"
  shows "task_record (filter (\<lambda>e. \<not> is_other (attrs e)) tail) cs (ScanHistory h) (ScanHistory (h @ tail))"
    and "post_update_timeline (ScanHistory h) = []" and "post_update_timeline (ScanHistory (h @ tail)) = []"
proof -
  note nu = first_task_no_update [OF h] records_no_update [OF r]
  then have nu2: "\<not> list_ex (is_update_accepted \<circ> attrs) (h @ tail)" by simp
  let ?evs = "filter (\<lambda>e. \<not> is_other (attrs e)) tail"
  obtain l where Q: "ScanHistory (h @ tail) = (scan_plain tail (scan_plain h empty_prescan))
      \<lparr>last_event_id := l, post_update_timeline := []\<rparr>"
    using ScanHistory_no_update [OF nu2] by (simp add: scan_plain_append)
  obtain l' where P: "ScanHistory h = (scan_plain h empty_prescan)
      \<lparr>last_event_id := l', post_update_timeline := []\<rparr>"
    using ScanHistory_no_update [OF nu(1)] by simp
  have "scan_plain ?evs (ScanHistory h) = (scan_plain tail (scan_plain h empty_prescan))
      \<lparr>last_event_id := l', post_update_timeline := []\<rparr>"
    by (simp add: P scan_plain_other scan_plain_bookkeeping [OF nu(2)])
  then have "ScanHistory (h @ tail) = (scan_plain ?evs (ScanHistory h))
      \<lparr>last_event_id := l, post_update_timeline := []\<rparr>" by (simp add: Q)
  with r first_task_fresh [OF h] show "task_record ?evs cs (ScanHistory h) (ScanHistory (h @ tail))"
    unfolding task_record_def records_def by blast
  show "post_update_timeline (ScanHistory h) = []" "post_update_timeline (ScanHistory (h @ tail)) = []"
    by (simp_all add: P Q)
qed

section \<open>The first task and its replay\<close>

text \<open>The runner the handler builds and runs over a full history.\<close>

definition built ::
  "env \<Rightarrow> int \<Rightarrow> WorkflowInfo \<Rightarrow> bool \<Rightarrow> HistoryEvent list \<Rightarrow> (Payloads \<Rightarrow> 's body) \<Rightarrow> 's \<Rightarrow> 's WorkflowRunner" where
  "built E t wi replaying h fn s0 =
     SetDeadlockTimeout t (new_runner E wi replaying (ScanHistory h) fn (ps_input (ScanHistory h)) s0)"

text \<open>
  Every command the run counted as produced was sent, and no cancellation of an activity was refused
  for not being in history yet.
\<close>

definition all_sent :: "'s WorkflowRunner \<Rightarrow> bool" where
  "all_sent r \<longleftrightarrow>
     length (produced_commands r) = length (commands r @ terminal_commands r) \<and> \<not> refused_cancel r"

definition started :: "'s WorkflowRunner \<Rightarrow> 's WorkflowRunner" where
  "started r = start_coroutine (r\<lparr>commands := [], produced_commands := []\<rparr>)"

lemma Run_no_timeline:
  assumes "\<And>r'. ResumeCoroutine E n (started r) = Ok r' \<Longrightarrow> scan r' = scan r"
    and "post_update_timeline (scan r) = []"
  shows "Run E n r = ResumeCoroutine E n (started r)"
  using assms by (cases "ResumeCoroutine E n (started r)")
    (auto simp: Run_def started_def ReapplyHistoricalUpdates_def)

lemma resumed_cases:
  assumes "ResumeCoroutine E n r0 = Ok rl" and "coroutine r0 = Parked b" and "\<not> deadlocked rl"
  obtains (stopped) out rF where "exec E n b r0 = (Stopped out, rF)"
      and "rl = RunBody_end E out (rF\<lparr>coroutine := CoDone\<rparr>)"
    | (suspended) b' rF where "exec E n b r0 = (Suspended b', rF)" and "rl = rF\<lparr>coroutine := Parked b'\<rparr>"
  using assms by (auto simp: ResumeCoroutine_def split: prod.splits stop.splits if_splits)

text \<open>The commands and the produced commands that ending the body adds.\<close>

definition ended :: "Command list \<Rightarrow> CommandEvent list" where
  "ended ts = map (\<lambda>c. the (recorded_command 0 (echo_attrs c))) ts"

lemma RunBody_end_frame:
  assumes "status r = Blocked"
  shows "commands (RunBody_end E out r) = commands r" "scan (RunBody_end E out r) = scan r"
    "warnings (RunBody_end E out r) = warnings r"
    "change_versions (RunBody_end E out r) = change_versions r"
    "produced_commands (RunBody_end E out r)
       = produced_commands r @ ended (terminal_commands (RunBody_end E out r))"
  using assms by (cases out; simp add: push_produced_def terminal_commands_def ended_def)+

lemma RunBody_end_mirror:
  assumes "conv E' = conv E"
  shows "RunBody_end E' out (mirror Q b V M r) = mirror Q b V M (RunBody_end E out r)"
  using assms by (cases out) (simp_all add: push_produced_def mirror_def body_failure_def)

lemma mirror_coroutine: "(mirror Q b V M r)\<lparr>coroutine := co\<rparr> = mirror Q b V M (r\<lparr>coroutine := co\<rparr>)"
  by (simp add: mirror_def)

lemma terminal_scan:
  assumes "c \<in> set (terminal_commands r)"
  shows "version_markers (scan_switch eid (echo_attrs c) ps) = version_markers ps"
    and "ps_commands (scan_switch eid (echo_attrs c) ps) = ps_commands ps @ ended [c]"
  using assms by (auto simp: terminal_commands_def ended_def push_command_def split: Status.splits option.splits)

lemma length_terminal: "length (terminal_commands r) \<le> 1"
  by (auto simp: terminal_commands_def split: Status.splits option.splits)

lemma built_started [simp]:
  "coroutine (started (built E t wi rp h fn s0)) = Parked (fn (ps_input (ScanHistory h)))"
  "scan (started (built E t wi rp h fn s0)) = ScanHistory h"
  "status (started (built E t wi rp h fn s0)) = Blocked"
  by (simp_all add: started_def built_def start_coroutine_def has_coroutine_def new_runner_def SetDeadlockTimeout_def)

lemma built_in_step:
  assumes "fresh_scan (ScanHistory h)"
  shows "in_step cv evs (ScanHistory h) (started (built E t wi False h fn s0))"
  using assms
  by (simp add: in_step_def started_def built_def start_coroutine_def has_coroutine_def new_runner_def
      SetDeadlockTimeout_def fresh_scan_def)

lemma built_mirror:
  assumes "ps_headers (ScanHistory g) = ps_headers (ScanHistory h)"
    and "ps_input (ScanHistory g) = ps_input (ScanHistory h)" and "conv E' = conv E"
  shows "started (built E' t wi b g fn s0)
    = mirror (ScanHistory g) b (load_versions (conv E) (version_markers (ScanHistory g)) Map.empty)
        (load_mutable_side_effects (conv E) (mutable_side_effect_markers (ScanHistory g)) Map.empty)
        (started (built E t wi False h fn s0))"
  using assms
  by (simp add: mirror_def started_def built_def start_coroutine_def has_coroutine_def new_runner_def
      SetDeadlockTimeout_def)

lemma final_scan:
  assumes tr: "task_record evs (cs @ terminal_commands r) ps0 Q"
  shows "version_markers Q = version_markers (scan_upto evs ps0 cs)"
    and "ps_commands Q = ps_commands (scan_upto evs ps0 cs) @ ended (terminal_commands r)"
proof -
  let ?F = "cs @ terminal_commands r"
  have "length evs = length ?F" using tr unfolding task_record_def by (metis length_map)
  then have "scan_plain evs ps0 = scan_upto evs ps0 ?F" by (simp add: scan_upto_def)
  then have Q: "version_markers Q = version_markers (scan_upto evs ps0 ?F)"
    "ps_commands Q = ps_commands (scan_upto evs ps0 ?F)"
    using tr by (auto simp: task_record_def)
  have "version_markers (scan_upto evs ps0 ?F) = version_markers (scan_upto evs ps0 cs)
      \<and> ps_commands (scan_upto evs ps0 ?F) = ps_commands (scan_upto evs ps0 cs) @ ended (terminal_commands r)"
  proof (cases "terminal_commands r")
    case Nil
    then show ?thesis by (simp add: ended_def)
  next
    case (Cons c ts)
    with length_terminal [of r] have F: "terminal_commands r = [c]" by simp
    with tr have "task_record evs (cs @ [c]) ps0 Q" by simp
    then obtain eid where "scan_upto evs ps0 (cs @ [c]) = scan_switch eid (echo_attrs c) (scan_upto evs ps0 cs)"
      using upto_step by blast
    with F terminal_scan [of c r] show ?thesis by simp
  qed
  with Q show "version_markers Q = version_markers (scan_upto evs ps0 cs)"
    "ps_commands Q = ps_commands (scan_upto evs ps0 cs) @ ended (terminal_commands r)" by simp_all
qed

context marker_codec
begin

text \<open>The body of the task, run live and over the record of it.\<close>

lemma replay_exec:
  assumes tr: "task_record evs (commands rF @ terminal_commands rl) ps0 Q"
    and cv: "conv E = cv" "conv E' = cv" and tf: "text_failures utf8 E" and i: "in_step cv evs ps0 r0"
    and x: "exec E n body r0 = (st, rF)" and safe: "safe_body utf8 body"
    and gap: "gap rF \<le> 0" and ok: "\<not> refused_cancel rF"
  shows "exec E' n body (mirror Q b (load_versions cv (version_markers Q) Map.empty) M r0)
      = (st, mirror Q b (load_versions cv (version_markers Q) Map.empty) M rF)"
    and "ps_commands Q = produced_commands rF @ ended (terminal_commands rl)"
    and "scan rF = ps0"
proof -
  have pre: "prefix (commands rF) (commands rF @ terminal_commands rl)" by simp
  have "in_step cv evs ps0 rF"
    using sim_exec [OF tr cv(1) cv(1) tf i x safe pre gap ok map_le_refl] by blast
  then have "change_versions rF = load_versions cv (version_markers Q) Map.empty"
    and pc: "produced_commands rF = ps_commands (scan_upto evs ps0 (commands rF))" and "scan rF = ps0"
    using final_scan [OF tr] by (simp_all add: in_step_def Let_def)
  then have "change_versions rF \<subseteq>\<^sub>m load_versions cv (version_markers Q) Map.empty" by simp
  from sim_exec [OF tr cv tf i x safe pre gap ok this]
  show "exec E' n body (mirror Q b (load_versions cv (version_markers Q) Map.empty) M r0)
      = (st, mirror Q b (load_versions cv (version_markers Q) Map.empty) M rF)" by blast
  show "ps_commands Q = produced_commands rF @ ended (terminal_commands rl)" "scan rF = ps0"
    using final_scan [OF tr] pc \<open>scan rF = ps0\<close> by simp_all
qed

lemma replay_resume:
  assumes tr: "task_record evs (commands rl @ terminal_commands rl) ps0 Q"
    and cv: "conv E = cv" "conv E' = cv" and tf: "text_failures utf8 E" and i: "in_step cv evs ps0 r0"
    and r0: "coroutine r0 = Parked body" "status r0 = Blocked" and safe: "safe_body utf8 body"
    and run: "ResumeCoroutine E n r0 = Ok rl" "\<not> deadlocked rl" and sent: "all_sent rl"
  defines "V \<equiv> load_versions cv (version_markers Q) Map.empty"
  shows "ResumeCoroutine E' n (mirror Q b V M r0) = Ok (mirror Q b V M rl)"
    and "ps_commands Q = produced_commands rl" and "scan rl = ps0"
proof -
  have r0': "coroutine (mirror Q b V M r0) = Parked body" using r0 by (simp add: mirror_def)
  have "ResumeCoroutine E' n (mirror Q b V M r0) = Ok (mirror Q b V M rl)
      \<and> ps_commands Q = produced_commands rl \<and> scan rl = ps0"
    using run(1) r0(1) run(2)
  proof (cases rule: resumed_cases)
    case (stopped out rF)
    have st: "status rF = Blocked" using exec_extends [OF stopped(1) safe] r0 by (simp add: extends_def)
    note fr = RunBody_end_frame [of "rF\<lparr>coroutine := CoDone\<rparr>" E out, folded stopped(2)]
    have ok: "gap rF \<le> 0" "\<not> refused_cancel rF"
      using sent fr st by (simp_all add: all_sent_def gap_def refused_cancel_def ended_def)
    have tr': "task_record evs (commands rF @ terminal_commands rl) ps0 Q" using tr fr st by simp
    from replay_exec(1) [OF tr' cv tf i stopped(1) safe ok, of b M]
      replay_exec(2,3) [OF tr' cv tf i stopped(1) safe ok] fr st
    show ?thesis
      using r0' cv stopped(2)
      by (simp add: ResumeCoroutine_def V_def mirror_coroutine RunBody_end_mirror)
  next
    case (suspended b' rF)
    have "status rF = Blocked" using exec_extends [OF suspended(1) safe] r0 by (simp add: extends_def)
    then have tm: "terminal_commands rl = []" using suspended(2) by (simp add: terminal_commands_def)
    have ok: "gap rF \<le> 0" "\<not> refused_cancel rF"
      using sent suspended(2) tm by (simp_all add: all_sent_def gap_def refused_cancel_def)
    have tr': "task_record evs (commands rF @ terminal_commands rl) ps0 Q" using tr suspended(2) by simp
    from replay_exec(1) [OF tr' cv tf i suspended(1) safe ok, of b M]
      replay_exec(2,3) [OF tr' cv tf i suspended(1) safe ok] suspended(2) tm
    show ?thesis using r0' by (simp add: ResumeCoroutine_def V_def mirror_coroutine ended_def)
  qed
  then show "ResumeCoroutine E' n (mirror Q b V M r0) = Ok (mirror Q b V M rl)"
    "ps_commands Q = produced_commands rl" "scan rl = ps0" by simp_all
qed

lemma replay_first_task:
  assumes h: "first_task_history h" and cv: "conv E = cv" "conv E' = cv"
    and tf: "text_failures utf8 E"
    and run: "Run E n (built E t wi False h fn s0) = Ok rl" "\<not> deadlocked rl"
    and safe: "safe_body utf8 (fn (ps_input (ScanHistory h)))" and sent: "all_sent rl"
    and rec: "records tail (commands rl @ terminal_commands rl)"
  shows "\<exists>V M. Run E' n (built E' t wi True (h @ tail) fn s0)
             = Ok (mirror (ScanHistory (h @ tail)) True V M rl)
           \<and> CheckDeterminism (mirror (ScanHistory (h @ tail)) True V M rl) = None"
proof -
  let ?Q = "ScanHistory (h @ tail)" and ?r0 = "started (built E t wi False h fn s0)"
  let ?evs = "filter (\<lambda>e. \<not> is_other (attrs e)) tail"
  let ?V = "load_versions cv (version_markers ?Q) Map.empty"
  let ?M = "load_mutable_side_effects cv (mutable_side_effect_markers ?Q) Map.empty"
  note tr = first_task_record [OF h rec]
  note i = built_in_step [OF first_task_fresh [OF h], of cv ?evs E t wi fn s0]
  have resume: "ResumeCoroutine E n ?r0 = Ok rl"
  proof -
    obtain r' where r': "ResumeCoroutine E n ?r0 = Ok r'" and re: "reapply E n (post_update_timeline (scan r')) r' = Ok rl"
      using run(1) by (cases "ResumeCoroutine E n ?r0")
        (auto simp: Run_def started_def ReapplyHistoricalUpdates_def)
    have "scan r' = ScanHistory h"
      using r' safe by (auto simp: ResumeCoroutine_def push_produced_def split: prod.splits stop.splits if_splits
          dest!: exec_extends simp: extends_def RunBody_end_frame)
    with re tr(2) r' show ?thesis by simp
  qed
  note rr = replay_resume [OF tr(1) cv tf i built_started(1,3) safe resume run(2) sent]
  have "ps_headers ?Q = ps_headers (ScanHistory h)" "ps_input ?Q = ps_input (ScanHistory h)"
    using upto_final [OF tr(1), of "[]"] by (simp_all add: grows_def)
  then have m: "started (built E' t wi True (h @ tail) fn s0) = mirror ?Q True ?V ?M ?r0"
    using built_mirror [of "h @ tail" h E' E t wi True fn s0] cv by simp
  have "Run E' n (built E' t wi True (h @ tail) fn s0) = Ok (mirror ?Q True ?V ?M rl)"
    using rr(1) [of True ?M] tr(3) unfolding m [symmetric]
    by (simp add: Run_def ReapplyHistoricalUpdates_def flip: started_def)
  moreover have "CheckDeterminism (mirror ?Q True ?V ?M rl) = None"
    using rr(2) by (simp add: CheckDeterminism_def)
  ultimately show ?thesis by blast
qed

end

end
