(* ===== verification/Coroutine.thy ===== *)
theory Coroutine
  imports Prelude
begin

text \<open>
  The stackful coroutine (\<^verbatim>\<open>src/internal/coroutine.h\<close>, \<^verbatim>\<open>coroutine.cpp\<close>): a controller thread and a
  coroutine thread that hand a turn back and forth under one mutex. The state keeps the fields of
  the class and the program point of each thread; a step is one critical section of one thread
  (\<^verbatim>\<open>wait\<close> releases the mutex, so a waiting thread moves only when its predicate holds). Every
  interleaving of the two threads is a run of the relation.

  The parameter says what the body may do with the \<^verbatim>\<open>CoroutineAbort\<close> thrown into it: let it unwind the stack
  without awaiting anything on the way; await something while it unwinds (in a handler that
  rethrows, or in a destructor); or besides that catch it for good and go on running.
\<close>

section \<open>State\<close>

datatype turn = Controller | CoroutineTurn

datatype on_abort = LetsThrough | AwaitsThenRethrows | Swallows

text \<open>
  Program points of the controller: outside the class, waiting in \<^verbatim>\<open>Resume\<close>, in \<^verbatim>\<open>ResumeFor\<close> or
  in the destructor, holding the \<^verbatim>\<open>false\<close> of a timed-out \<^verbatim>\<open>ResumeFor\<close>, after \<^verbatim>\<open>Abandon\<close>, joining,
  and past the destructor.
\<close>

datatype ctl_pc =
  CIdle | CWaitResume | CWaitTimed | CWaitAbort | COverran | CAbandoned | CJoin | CDestroyed

text \<open>
  Program points of the coroutine thread: before its first turn, in the body, waiting in
  \<^verbatim>\<open>Yield\<close>, unwinding after \<^verbatim>\<open>CoroutineAbort\<close>, before its last critical section, finished.
\<close>

datatype thr_pc = TStart | TBody | TYield | TUnwinding | TFinish | TExit

record co =
  co_turn :: turn
  co_done :: bool
  co_abort :: bool
  co_abandoned :: bool
  co_error :: bool
  co_joinable :: bool
  ctl :: ctl_pc
  thr :: thr_pc

definition co_init :: co where
  "co_init = \<lparr>co_turn = Controller, co_done = False, co_abort = False, co_abandoned = False, co_error = False,
     co_joinable = True, ctl = CIdle, thr = TStart\<rparr>"

text \<open>What the controller reads: whether the body has ended, and whether it let an exception escape.\<close>

definition Done :: "co \<Rightarrow> bool" where
  "Done s = co_done s"

definition RethrowIfError :: "co \<Rightarrow> bool" where
  "RethrowIfError s = co_error s"

section \<open>Steps\<close>

inductive co_step :: "on_abort \<Rightarrow> co \<Rightarrow> co \<Rightarrow> bool" for conduct :: on_abort where
  resume: "ctl s = CIdle \<Longrightarrow> \<not> co_done s \<Longrightarrow>
     co_step conduct s (s\<lparr>co_turn := CoroutineTurn, ctl := CWaitResume\<rparr>)"
| resume_return: "ctl s = CWaitResume \<Longrightarrow> co_turn s = Controller \<Longrightarrow>
     co_step conduct s (s\<lparr>ctl := CIdle\<rparr>)"
| resume_for: "ctl s = CIdle \<Longrightarrow> \<not> co_done s \<Longrightarrow>
     co_step conduct s (s\<lparr>co_turn := CoroutineTurn, ctl := CWaitTimed\<rparr>)"
| resume_for_true: "ctl s = CWaitTimed \<Longrightarrow> co_turn s = Controller \<Longrightarrow>
     co_step conduct s (s\<lparr>ctl := CIdle\<rparr>)"
| resume_for_false: "ctl s = CWaitTimed \<Longrightarrow> co_turn s = CoroutineTurn \<Longrightarrow>
     co_step conduct s (s\<lparr>ctl := COverran\<rparr>)"
| abandon: "ctl s = COverran \<Longrightarrow>
     co_step conduct s (s\<lparr>co_abandoned := True, co_joinable := False, ctl := CAbandoned\<rparr>)"
| destroy_abandoned: "ctl s = CIdle \<or> ctl s = CAbandoned \<Longrightarrow> co_abandoned s \<or> \<not> co_joinable s \<Longrightarrow>
     co_step conduct s (s\<lparr>ctl := CDestroyed\<rparr>)"
| destroy_suspended: "ctl s = CIdle \<Longrightarrow> \<not> co_abandoned s \<Longrightarrow> co_joinable s \<Longrightarrow> \<not> co_done s \<Longrightarrow>
     co_step conduct s (s\<lparr>co_abort := True, co_turn := CoroutineTurn, ctl := CWaitAbort\<rparr>)"
| destroy_done: "ctl s = CIdle \<Longrightarrow> \<not> co_abandoned s \<Longrightarrow> co_joinable s \<Longrightarrow> co_done s \<Longrightarrow>
     co_step conduct s (s\<lparr>ctl := CJoin\<rparr>)"
| destroy_unwound: "ctl s = CWaitAbort \<Longrightarrow> co_turn s = Controller \<Longrightarrow>
     co_step conduct s (s\<lparr>ctl := CJoin\<rparr>)"
| join: "ctl s = CJoin \<Longrightarrow> thr s = TExit \<Longrightarrow>
     co_step conduct s (s\<lparr>co_joinable := False, ctl := CDestroyed\<rparr>)"
| start_body: "thr s = TStart \<Longrightarrow> co_turn s = CoroutineTurn \<Longrightarrow> \<not> co_abort s \<Longrightarrow>
     co_step conduct s (s\<lparr>thr := TBody\<rparr>)"
| start_aborted: "thr s = TStart \<Longrightarrow> co_turn s = CoroutineTurn \<Longrightarrow> co_abort s \<Longrightarrow>
     co_step conduct s (s\<lparr>thr := TFinish\<rparr>)"
| yield: "thr s = TBody \<Longrightarrow>
     co_step conduct s (s\<lparr>co_turn := Controller, thr := TYield\<rparr>)"
| yield_return: "thr s = TYield \<Longrightarrow> co_turn s = CoroutineTurn \<Longrightarrow> \<not> co_abort s \<Longrightarrow>
     co_step conduct s (s\<lparr>thr := TBody\<rparr>)"
| yield_abort: "thr s = TYield \<Longrightarrow> co_turn s = CoroutineTurn \<Longrightarrow> co_abort s \<Longrightarrow>
     co_step conduct s (s\<lparr>thr := TUnwinding\<rparr>)"
| unwinding_yield: "conduct \<noteq> LetsThrough \<Longrightarrow> thr s = TUnwinding \<Longrightarrow>
     co_step conduct s (s\<lparr>co_turn := Controller, thr := TYield\<rparr>)"
| abort_swallowed: "conduct = Swallows \<Longrightarrow> thr s = TUnwinding \<Longrightarrow>
     co_step conduct s (s\<lparr>thr := TBody\<rparr>)"
| unwound: "thr s = TUnwinding \<Longrightarrow>
     co_step conduct s (s\<lparr>thr := TFinish\<rparr>)"
| body_returned: "thr s = TBody \<Longrightarrow>
     co_step conduct s (s\<lparr>thr := TFinish\<rparr>)"
| body_threw: "thr s = TBody \<Longrightarrow>
     co_step conduct s (s\<lparr>co_error := True, thr := TFinish\<rparr>)"
| finish: "thr s = TFinish \<Longrightarrow>
     co_step conduct s (s\<lparr>co_done := True, co_turn := Controller, thr := TExit\<rparr>)"

inductive co_reachable :: "on_abort \<Rightarrow> co \<Rightarrow> bool" for conduct :: on_abort where
  init: "co_reachable conduct co_init"
| step: "co_reachable conduct s \<Longrightarrow> co_step conduct s t \<Longrightarrow> co_reachable conduct t"

inductive_cases co_stepE: "co_step conduct s t"

text \<open>User code runs on the coroutine thread, controller code outside the class: also after a timeout or \<^verbatim>\<open>Abandon\<close>.\<close>

definition body_running :: "co \<Rightarrow> bool" where
  "body_running s \<longleftrightarrow> thr s = TBody \<or> thr s = TUnwinding"

definition controller_running :: "co \<Rightarrow> bool" where
  "controller_running s \<longleftrightarrow> ctl s \<in> {CIdle, COverran, CAbandoned}"

section \<open>The handshake invariant\<close>

definition handshake :: "co \<Rightarrow> bool" where
  "handshake s \<longleftrightarrow>
     (co_turn s = Controller \<longrightarrow> thr s \<in> {TStart, TYield, TExit})
     \<and> (co_done s \<longleftrightarrow> thr s = TExit)
     \<and> (co_done s \<longrightarrow> co_turn s = Controller)
     \<and> (ctl s = CIdle \<longrightarrow> co_turn s = Controller \<and> \<not> co_abort s \<and> \<not> co_abandoned s \<and> co_joinable s)
     \<and> (co_abort s \<longrightarrow> ctl s \<in> {CWaitAbort, CJoin, CDestroyed})
     \<and> (thr s = TUnwinding \<longrightarrow> co_abort s)
     \<and> (ctl s \<in> {CWaitResume, CWaitTimed, COverran} \<longrightarrow> \<not> co_abandoned s \<and> co_joinable s)"

lemma handshake_init: "handshake co_init"
  by (simp add: handshake_def co_init_def)

lemma handshake_step: "co_step conduct s t \<Longrightarrow> handshake s \<Longrightarrow> handshake t"
  by (induction rule: co_step.induct) (auto simp: handshake_def)

lemma handshake_reachable: "co_reachable conduct s \<Longrightarrow> handshake s"
  by (induction rule: co_reachable.induct) (auto intro: handshake_init handshake_step)

text \<open>
  When the abort is let through, the body is never running again once the destructor has set the flag.
\<close>

definition teardown_ok :: "co \<Rightarrow> bool" where
  "teardown_ok s \<longleftrightarrow>
     (ctl s = CWaitAbort \<longrightarrow> co_abort s \<and> thr s \<noteq> TBody \<and> (co_turn s = Controller \<longrightarrow> thr s = TExit))
     \<and> (ctl s = CJoin \<longrightarrow> thr s = TExit)"

lemma teardown_ok_step:
  "co_step LetsThrough s t \<Longrightarrow> handshake s \<Longrightarrow> teardown_ok s \<Longrightarrow> teardown_ok t"
  by (induction rule: co_step.induct) (auto simp: handshake_def teardown_ok_def)

lemma teardown_ok_init: "teardown_ok co_init"
  by (simp add: teardown_ok_def co_init_def)

lemma teardown_ok_reachable: "co_reachable LetsThrough s \<Longrightarrow> teardown_ok s"
  by (induction rule: co_reachable.induct)
    (auto intro: teardown_ok_init teardown_ok_step handshake_reachable)

text \<open>Steps left until the destructor returns.\<close>

fun thr_rank :: "thr_pc \<Rightarrow> nat" where
  "thr_rank TStart = 2"
| "thr_rank TBody = 4"
| "thr_rank TYield = 3"
| "thr_rank TUnwinding = 2"
| "thr_rank TFinish = 1"
| "thr_rank TExit = 0"

fun ctl_rank :: "ctl_pc \<Rightarrow> nat" where
  "ctl_rank CWaitAbort = 2"
| "ctl_rank CJoin = 1"
| "ctl_rank _ = 0"

definition teardown_rank :: "co \<Rightarrow> nat" where
  "teardown_rank s = ctl_rank (ctl s) + thr_rank (thr s)"

definition tearing_down :: "co \<Rightarrow> bool" where
  "tearing_down s \<longleftrightarrow> ctl s = CWaitAbort \<or> ctl s = CJoin"

lemma teardown_decreases:
  "co_step LetsThrough s t \<Longrightarrow> teardown_ok s \<Longrightarrow> tearing_down s \<Longrightarrow> teardown_rank t < teardown_rank s"
  by (induction rule: co_step.induct) (auto simp: teardown_ok_def tearing_down_def teardown_rank_def)

definition torn_down :: "co \<Rightarrow> bool" where
  "torn_down s \<longleftrightarrow> ctl s = CDestroyed \<and> thr s = TExit"

lemma teardown_stays:
  "co_step LetsThrough s t \<Longrightarrow> teardown_ok s \<Longrightarrow> tearing_down s \<Longrightarrow> tearing_down t \<or> torn_down t"
  by (induction rule: co_step.induct) (auto simp: tearing_down_def torn_down_def)

lemma torn_down_final: "torn_down s \<Longrightarrow> \<not> co_step conduct s t"
  by (auto simp: torn_down_def elim!: co_stepE)

lemma thr_can_move:
  assumes "co_turn s = CoroutineTurn" and "thr s \<noteq> TExit"
  shows "\<exists>t. co_step conduct s t"
proof (cases "thr s")
  case TStart
  with assms show ?thesis by (cases "co_abort s") (auto intro: start_body start_aborted)
next
  case TYield
  with assms show ?thesis by (cases "co_abort s") (auto intro: yield_return yield_abort)
qed (use assms in \<open>auto intro: co_step.intros\<close>)

lemma teardown_progress:
  assumes "handshake s" and "teardown_ok s" and "tearing_down s"
  shows "\<exists>t. co_step LetsThrough s t"
proof (cases "co_turn s")
  case Controller
  with assms show ?thesis
    by (auto simp: tearing_down_def teardown_ok_def intro: destroy_unwound join)
next
  case CoroutineTurn
  show ?thesis
  proof (cases "thr s = TExit")
    case True
    with assms CoroutineTurn show ?thesis by (auto simp: handshake_def)
  next
    case False
    with CoroutineTurn show ?thesis by (rule thr_can_move)
  qed
qed

text \<open>A run of \<open>n\<close> steps.\<close>

inductive co_run :: "on_abort \<Rightarrow> nat \<Rightarrow> co \<Rightarrow> co \<Rightarrow> bool" for conduct :: on_abort where
  run_nil: "co_run conduct 0 s s"
| run_cons: "co_step conduct s t \<Longrightarrow> co_run conduct n t u \<Longrightarrow> co_run conduct (Suc n) s u"

lemma teardown_run:
  assumes "co_run LetsThrough n s t" and "co_reachable LetsThrough s" and "tearing_down s \<or> torn_down s"
  shows "n \<le> teardown_rank s \<and> co_reachable LetsThrough t \<and> (tearing_down t \<or> torn_down t)"
  using assms
proof (induction rule: co_run.induct)
  case (run_cons s t n u)
  then have td: "tearing_down s" using torn_down_final by blast
  note ok = teardown_ok_reachable [OF run_cons.prems(1)]
  have "teardown_rank t < teardown_rank s"
    by (rule teardown_decreases [OF run_cons.hyps(1) ok td])
  moreover have "co_reachable LetsThrough t"
    using run_cons by (auto intro: co_reachable.step)
  ultimately show ?case
    using run_cons.IH teardown_stays [OF run_cons.hyps(1) ok td] by auto
qed auto

text \<open>
  One more \<^verbatim>\<open>Yield\<close> after the abort hands the turn to the destructor, which then joins a thread that waits
  for a turn nobody will give it.
\<close>

definition hung :: co where
  "hung = co_init\<lparr>co_abort := True, ctl := CJoin, thr := TYield\<rparr>"

lemma hung_stuck: "\<not> co_step conduct hung t"
  by (auto simp: hung_def co_init_def elim!: co_stepE)

section \<open>Safety and teardown\<close>

text \<open>
  C21. The handshake is a strict alternation: in every reachable state, code of the body runs only while the coroutine
  holds the turn; the controller outside the class holds it, with the abort flag down, unless a timed
  resume ran out or the coroutine was abandoned; and only in those two cases can both run at once.
\<close>

theorem strict_alternation:
  assumes "co_reachable conduct s"
  shows "(body_running s \<longrightarrow> co_turn s = CoroutineTurn)
    \<and> (controller_running s \<and> ctl s \<notin> {COverran, CAbandoned} \<longrightarrow> co_turn s = Controller \<and> \<not> co_abort s)
    \<and> (body_running s \<and> controller_running s \<longrightarrow> ctl s \<in> {COverran, CAbandoned})"
proof -
  have h: "co_turn s = Controller \<longrightarrow> thr s \<in> {TStart, TYield, TExit}" "ctl s = CIdle \<longrightarrow> co_turn s = Controller \<and> \<not> co_abort s"
    using handshake_reachable [OF assms] by (simp_all add: handshake_def)
  have "body_running s \<longrightarrow> co_turn s = CoroutineTurn" using h(1) by (cases "co_turn s") (auto simp: body_running_def)
  with h(2) show ?thesis by (auto simp: controller_running_def)
qed

definition running_body :: co where
  "running_body = co_init\<lparr>co_turn := CoroutineTurn, ctl := CWaitResume, thr := TBody\<rparr>"

lemma running_body_reachable: "co_reachable conduct running_body"
proof -
  have "co_reachable conduct (co_init\<lparr>co_turn := CoroutineTurn, ctl := CWaitResume\<rparr>)"
    by (rule co_reachable.step [OF co_reachable.init resume]) (simp_all add: co_init_def)
  from co_reachable.step [OF this start_body] show ?thesis by (simp add: co_init_def running_body_def)
qed

theorem strict_alternation_witness:
  "body_running running_body \<and> co_turn running_body = CoroutineTurn \<and> \<not> controller_running running_body"
proof -
  have "body_running running_body" by (simp add: body_running_def running_body_def)
  with strict_alternation [OF running_body_reachable [of LetsThrough]] show ?thesis
    by (auto simp: controller_running_def running_body_def)
qed

text \<open>
  C22. Destroying a suspended coroutine ends: from the moment the destructor has set the abort flag,
  no run takes more steps than the rank of the state (at most six), a run that has not reached the
  end can always go on, and the end is the destructor returned with the thread joined. This holds
  when workflow code lets the abort exception through and awaits nothing while it unwinds.
\<close>

theorem destructor_terminates:
  assumes "co_reachable LetsThrough s" and "tearing_down s" and "co_run LetsThrough n s t"
  shows "n \<le> teardown_rank s \<and> teardown_rank s \<le> 6
    \<and> (torn_down t \<or> (tearing_down t \<and> (\<exists>u. co_step LetsThrough t u)))"
proof -
  have run: "n \<le> teardown_rank s" "co_reachable LetsThrough t" "tearing_down t \<or> torn_down t"
    using teardown_run [OF assms(3,1)] assms(2) by auto
  moreover have "teardown_rank s \<le> 6" by (cases "ctl s"; cases "thr s") (simp_all add: teardown_rank_def)
  ultimately show ?thesis
    using teardown_progress [OF handshake_reachable teardown_ok_reachable] by blast
qed

text \<open>A coroutine parked in \<^verbatim>\<open>Yield\<close>, and the destructor waiting for it to unwind.\<close>

definition suspended :: co where
  "suspended = co_init\<lparr>thr := TYield\<rparr>"

definition stopping :: co where
  "stopping = suspended\<lparr>co_abort := True, co_turn := CoroutineTurn, ctl := CWaitAbort\<rparr>"

lemma stopping_reachable: "co_reachable conduct stopping"
proof -
  have "co_reachable conduct (running_body\<lparr>co_turn := Controller, thr := TYield\<rparr>)"
    by (rule co_reachable.step [OF running_body_reachable yield]) (simp add: running_body_def)
  from co_reachable.step [OF this resume_return] have "co_reachable conduct suspended"
    by (simp add: running_body_def suspended_def co_init_def)
  from co_reachable.step [OF this destroy_suspended] show ?thesis
    by (simp add: stopping_def suspended_def co_init_def)
qed

lemma unwinding_reachable: "co_reachable conduct (stopping\<lparr>thr := TUnwinding\<rparr>)"
  by (rule co_reachable.step [OF stopping_reachable yield_abort]) (simp_all add: stopping_def suspended_def co_init_def)

theorem destructor_terminates_witness:
  "\<exists>t. co_run LetsThrough 5 stopping t \<and> torn_down t"
proof -
  let ?u = "stopping\<lparr>thr := TExit, co_done := True, co_turn := Controller\<rparr>"
  have join: "co_run LetsThrough 2 ?u (?u\<lparr>ctl := CDestroyed, co_joinable := False\<rparr>)"
    using run_cons [OF destroy_unwound run_cons [OF co_step.join run_nil], of ?u LetsThrough]
    by (simp add: stopping_def suspended_def co_init_def numeral_2_eq_2)
  have fin: "co_run LetsThrough 3 (stopping\<lparr>thr := TFinish\<rparr>) (?u\<lparr>ctl := CDestroyed, co_joinable := False\<rparr>)"
    using run_cons [OF finish, of "stopping\<lparr>thr := TFinish\<rparr>" LetsThrough 2] join
    by (simp add: stopping_def suspended_def co_init_def eval_nat_numeral)
  have unw: "co_run LetsThrough 4 (stopping\<lparr>thr := TUnwinding\<rparr>) (?u\<lparr>ctl := CDestroyed, co_joinable := False\<rparr>)"
    using run_cons [OF unwound, of "stopping\<lparr>thr := TUnwinding\<rparr>" LetsThrough 3] fin by (simp add: eval_nat_numeral)
  have run: "co_run LetsThrough 5 stopping (?u\<lparr>ctl := CDestroyed, co_joinable := False\<rparr>)"
    using run_cons [OF yield_abort, of stopping LetsThrough 4] unw
    by (simp add: stopping_def suspended_def co_init_def eval_nat_numeral)
  have "tearing_down stopping" by (simp add: tearing_down_def stopping_def)
  from destructor_terminates [OF stopping_reachable this run] run show ?thesis
    by (auto simp: tearing_down_def)
qed

text \<open>
  C23. Workflow code that keeps the abort exception from unwinding the stack at once can hang the destructor for
  good. Both a body that swallows it (as \<^verbatim>\<open>catch (...)\<close> does) and one that awaits something before it
  rethrows can reach a state in which the destructor joins the thread, the thread waits for its
  turn, and nothing can move, whatever the body does.
\<close>

theorem swallowed_abort_hangs:
  "co_reachable Swallows hung \<and> co_reachable AwaitsThenRethrows hung \<and> ctl hung = CJoin \<and> thr hung = TYield
    \<and> (\<forall>conduct t. \<not> co_step conduct hung t)"
proof -
  have "co_reachable conduct hung" if "conduct \<noteq> LetsThrough" for conduct
  proof -
    have "co_reachable conduct (stopping\<lparr>co_turn := Controller\<rparr>)"
      using co_reachable.step [OF unwinding_reachable unwinding_yield, of conduct] that
      by (simp add: stopping_def suspended_def co_init_def)
    from co_reachable.step [OF this destroy_unwound] show ?thesis
      by (simp add: stopping_def suspended_def co_init_def hung_def)
  qed
  then show ?thesis by (simp add: hung_stuck) (simp add: hung_def)
qed

text \<open>A body that swallows the abort and goes on to its next \<^verbatim>\<open>Yield\<close> ends in the same state.\<close>

lemma swallowed_then_yields: "co_reachable Swallows (stopping\<lparr>thr := TBody\<rparr>) \<and> co_step Swallows (stopping\<lparr>thr := TBody\<rparr>) (stopping\<lparr>co_turn := Controller\<rparr>)"
proof
  show "co_reachable Swallows (stopping\<lparr>thr := TBody\<rparr>)"
    using co_reachable.step [OF unwinding_reachable abort_swallowed] by simp
  show "co_step Swallows (stopping\<lparr>thr := TBody\<rparr>) (stopping\<lparr>co_turn := Controller\<rparr>)"
    using yield [of "stopping\<lparr>thr := TBody\<rparr>" Swallows] by (simp add: stopping_def suspended_def co_init_def)
qed

end
