(* ===== verification/Failure_Converter.thy ===== *)
theory Failure_Converter
  imports Runner
begin

text \<open>
  The default failure converter (\<^verbatim>\<open>src/converter/failure_converter.cpp\<close>). Errors are those of the
  runner; a value of \<open>OtherThrow\<close> is not a \<^verbatim>\<open>std::exception\<close>, and no caller hands one over.
\<close>

definition kSource :: string where
  "kSource = ''cpp-sdk''"

definition ErrorToFailure :: "wf_error \<Rightarrow> Failure" where
  "ErrorToFailure e =
     \<lparr>f_message = what e, f_source = kSource,
      f_app = Some (case e of
                      ApplicationError msg type nr \<Rightarrow> \<lparr>afi_type = type, afi_non_retryable = nr\<rparr>
                    | _ \<Rightarrow> \<lparr>afi_type = [], afi_non_retryable = False\<rparr>)\<rparr>"

definition FailureToError :: "Failure \<Rightarrow> wf_error" where
  "FailureToError f =
     (case f_app f of
        Some i \<Rightarrow> ApplicationError (f_message f) (afi_type i) (afi_non_retryable i)
      | None \<Rightarrow> ApplicationError (f_message f) [] False)"

lemma FailureToError_ErrorToFailure:
  "FailureToError (ErrorToFailure (ApplicationError msg type nr)) = ApplicationError msg type nr"
  "FailureToError (ErrorToFailure (StdError msg)) = ApplicationError msg [] False"
  by (simp_all add: FailureToError_def ErrorToFailure_def)

text \<open>Converting once more changes nothing: the image of the converter is a fixed point.\<close>

lemma ErrorToFailure_stable:
  "e \<noteq> OtherThrow \<Longrightarrow> ErrorToFailure (FailureToError (ErrorToFailure e)) = ErrorToFailure e"
  by (cases e) (simp_all add: FailureToError_def ErrorToFailure_def)

section \<open>Failures round trip\<close>

text \<open>
  Failures round trip: an application error comes back from its failure message with message,
  type and retryability intact; any other exception comes back as an untyped, retryable application
  error with its message; and converting what came back gives the same failure again.
\<close>

theorem failure_roundtrip:
  "FailureToError (ErrorToFailure (ApplicationError msg type nr)) = ApplicationError msg type nr
   \<and> FailureToError (ErrorToFailure (StdError msg)) = ApplicationError msg [] False
   \<and> ErrorToFailure (FailureToError (ErrorToFailure (StdError msg))) = ErrorToFailure (StdError msg)"
  by (simp add: FailureToError_ErrorToFailure ErrorToFailure_stable) (simp add: ErrorToFailure_def)

end
