(* ===== verification/Grpc.thy ===== *)
theory Grpc
  imports Prelude
begin

text \<open>
  The one function every RPC goes through (\<^verbatim>\<open>GrpcClient::UnaryCall\<close>, \<^verbatim>\<open>src/internal/grpc_client.cpp\<close>),
  as a function of the status and response the stub returns. The stub and the transport are not
  part of the code; \<open>rpc\<close> is what they answer.
\<close>

datatype status_code = DEADLINE_EXCEEDED | NOT_FOUND | OtherCode

datatype 'r rpc = RpcOk 'r | RpcFail status_code string

datatype rpc_error = RpcError string | NotFoundError string

fun rpc_what :: "rpc_error \<Rightarrow> string" where
  "rpc_what (RpcError m) = m"
| "rpc_what (NotFoundError m) = m"

fun not_found :: "rpc_error \<Rightarrow> bool" where
  "not_found (RpcError m) = False"
| "not_found (NotFoundError m) = True"

fun UnaryCall :: "string \<Rightarrow> bool \<Rightarrow> 'r \<Rightarrow> 'r rpc \<Rightarrow> rpc_error + 'r" where
  "UnaryCall name poll default_resp (RpcOk resp) = Inr resp"
| "UnaryCall name poll default_resp (RpcFail code msg) =
     (if poll \<and> code = DEADLINE_EXCEEDED then Inr default_resp
      else (let text = ''rpc '' @ name @ '' failed: '' @ msg
            in if code = NOT_FOUND then Inl (NotFoundError text) else Inl (RpcError text)))"

lemma UnaryCall_error_iff:
  "(\<exists>e. UnaryCall name poll d st = Inl e)
     \<longleftrightarrow> (\<exists>code msg. st = RpcFail code msg \<and> \<not> (poll \<and> code = DEADLINE_EXCEEDED))"
  by (cases st) (auto simp: Let_def)

lemma UnaryCall_not_found:
  "UnaryCall name poll d st = Inl e \<Longrightarrow> not_found e \<longleftrightarrow> (\<exists>msg. st = RpcFail NOT_FOUND msg)"
  by (cases st) (auto simp: Let_def split: if_splits)

end
