(* ===== verification/Activity_Handler.thy ===== *)
theory Activity_Handler
  imports Runner Grpc
begin

text \<open>
  Activity execution: the context an activity runs in (\<^verbatim>\<open>include/temporal/activity/activity.h\<close>), the
  chain of inbound interceptors (\<^verbatim>\<open>include/temporal/interceptor/interceptor.h\<close>), and the handler of
  activity tasks (\<^verbatim>\<open>src/internal/activity_task_handler.cpp\<close>). An activity function is a value of
  \<open>act\<close>, one node for each call it makes on its context; the clock and the server are parameters
  that answer the \<open>n\<close>-th reading and the \<open>n\<close>-th heartbeat. Durations are nanoseconds without a bound; in the code
  they have 64 bits, which a heartbeat timeout above 36 years would exceed in the throttle's product.
\<close>

section \<open>The activity context\<close>

datatype act =
    ActReturn Payloads
  | ActThrow wf_error
  | ActHeartbeat "wf_error + Payloads" "wf_error option \<Rightarrow> act"
  | ActIsCancelled "bool \<Rightarrow> act"
  | ActSetWillCompleteAsync act

record act_world =
  clock :: "nat \<Rightarrow> int"
  heartbeat_reply :: "nat \<Rightarrow> rpc_error + bool"

text \<open>
  \<open>reports\<close> are the heartbeats that reached the server, newest last, with the time of each. A heartbeat's
  details are what the converter makes of them: payloads, or the exception it throws.
\<close>

record ActivityContext =
  cx_info :: ActivityInfo
  has_heartbeat :: bool
  throttle_interval :: int
  last_report :: int
  reported :: bool
  cx_cancel_requested :: bool
  will_complete_async :: bool
  clock_reads :: nat
  reports :: "(int \<times> Payloads) list"

definition new_context :: "ActivityInfo \<Rightarrow> bool \<Rightarrow> int \<Rightarrow> ActivityContext" where
  "new_context ai hb throttle =
     \<lparr>cx_info = ai, has_heartbeat = hb, throttle_interval = throttle, last_report = 0, reported = False,
      cx_cancel_requested = False, will_complete_async = False, clock_reads = 0, reports = []\<rparr>"

definition rpc_exception :: "rpc_error \<Rightarrow> wf_error" where
  "rpc_exception e = StdError (rpc_what e)"

text \<open>The time of the report is kept before the details are encoded, so a throw of the converter leaves it.\<close>

definition RecordHeartbeat :: "act_world \<Rightarrow> wf_error + Payloads \<Rightarrow> ActivityContext \<Rightarrow> wf_error option \<times> ActivityContext" where
  "RecordHeartbeat W details c =
     (if \<not> has_heartbeat c then (None, c)
      else (let now = clock W (clock_reads c);
                c1 = c\<lparr>clock_reads := Suc (clock_reads c)\<rparr>
            in if reported c1 \<and> now - last_report c1 < throttle_interval c1 then (None, c1)
               else (let c2 = c1\<lparr>last_report := now, reported := True\<rparr>
                     in case details of
                          Inl e \<Rightarrow> (Some e, c2)
                        | Inr ps \<Rightarrow>
                            (let c3 = c2\<lparr>reports := reports c2 @ [(now, ps)]\<rparr>
                             in case heartbeat_reply W (length (reports c)) of
                                  Inl e \<Rightarrow> (Some (rpc_exception e), c3)
                                | Inr asked \<Rightarrow> (None, c3\<lparr>cx_cancel_requested := asked\<rparr>)))))"

primrec run_act :: "act_world \<Rightarrow> act \<Rightarrow> ActivityContext \<Rightarrow> (wf_error + Payloads) \<times> ActivityContext" where
  "run_act W (ActReturn res) c = (Inr res, c)"
| "run_act W (ActThrow e) c = (Inl e, c)"
| "run_act W (ActHeartbeat details k) c =
     (let (err, c') = RecordHeartbeat W details c in run_act W (k err) c')"
| "run_act W (ActIsCancelled k) c = run_act W (k (cx_cancel_requested c)) c"
| "run_act W (ActSetWillCompleteAsync k) c = run_act W k (c\<lparr>will_complete_async := True\<rparr>)"

section \<open>Interceptors\<close>

type_synonym act_fn = "ActivityInfo \<Rightarrow> Payloads \<Rightarrow> act"
type_synonym inbound = "ActivityInfo \<Rightarrow> Payloads \<Rightarrow> (string \<rightharpoonup> Payload) \<Rightarrow> act"

definition RootActivityInbound :: "act_fn \<Rightarrow> inbound" where
  "RootActivityInbound fn = (\<lambda>ai args header. fn ai args)"

fun build_chain_loop :: "('i \<Rightarrow> 'i option) list \<Rightarrow> 'i \<Rightarrow> 'i" where
  "build_chain_loop [] next = next"
| "build_chain_loop (f # fs) next =
     build_chain_loop fs (case f next of Some wrapper \<Rightarrow> wrapper | None \<Rightarrow> next)"

definition BuildActivityInboundChain :: "('i \<Rightarrow> 'i option) list \<Rightarrow> 'i \<Rightarrow> 'i" where
  "BuildActivityInboundChain factories terminal = build_chain_loop (rev factories) terminal"

section \<open>The handler\<close>

definition HeartbeatThrottleInterval :: "proto_duration option \<Rightarrow> int" where
  "HeartbeatThrottleInterval d =
     (case d of
        None \<Rightarrow> 30 * ns_per_s
      | Some t \<Rightarrow>
          (let timeout = duration_ns t
           in if timeout \<le> 0 then 30 * ns_per_s else tdiv (timeout * 8) 10))"

record activity_task =
  at_token :: string
  at_activity_id :: string
  at_activity_type :: string
  at_workflow_id :: string
  at_run_id :: string
  at_attempt :: int
  at_header :: "string \<rightharpoonup> proto_payload"
  at_input :: "proto_payload list"
  at_heartbeat_timeout :: "proto_duration option"

record ActivityTaskHandler =
  ah_task_queue :: string
  ah_activities :: "string \<rightharpoonup> act_fn"
  ah_interceptors :: "(inbound \<Rightarrow> inbound option) list"
  ah_failure_converter :: "(wf_error \<Rightarrow> Failure) option"

definition Register_activity :: "string \<Rightarrow> act_fn \<Rightarrow> ActivityTaskHandler \<Rightarrow> ActivityTaskHandler" where
  "Register_activity name fn h = h\<lparr>ah_activities := (ah_activities h)(name \<mapsto> fn)\<rparr>"

definition has_activities :: "ActivityTaskHandler \<Rightarrow> bool" where
  "has_activities h \<longleftrightarrow> dom (ah_activities h) \<noteq> {}"

text \<open>A local activity runs the registered function in a context without heartbeat.\<close>

definition Lookup :: "act_world \<Rightarrow> ActivityTaskHandler \<Rightarrow> resolver" where
  "Lookup W h name =
     (case ah_activities h name of
        None \<Rightarrow> None
      | Some fn \<Rightarrow> Some (\<lambda>ai args. fst (run_act W (fn ai args) (new_context ai False 0))))"

datatype act_response =
    RespondActivityTaskFailed string Failure
  | RespondActivityTaskCompleted string "proto_payload list option"

text \<open>What the two response RPCs answer, and what the handler did: the requests sent, in order, and
  the exception that left it.\<close>

record respond_rpcs =
  completed_rpc :: "rpc_error option"
  failed_rpc :: "rpc_error option"

type_synonym handled = "act_response list \<times> wf_error option"

definition send_failed :: "respond_rpcs \<Rightarrow> string \<Rightarrow> Failure \<Rightarrow> handled" where
  "send_failed R token f = ([RespondActivityTaskFailed token f], map_option rpc_exception (failed_rpc R))"

definition handler_failure :: "ActivityTaskHandler \<Rightarrow> wf_error \<Rightarrow> Failure" where
  "handler_failure h e =
     (case ah_failure_converter h of
        Some fc \<Rightarrow> fc e
      | None \<Rightarrow> (case e of
                   ApplicationError msg type nr \<Rightarrow> MakeApplicationFailure msg type nr
                 | StdError msg \<Rightarrow> MakeApplicationFailure msg ''std::exception'' False
                 | OtherThrow \<Rightarrow> MakeApplicationFailure [] [] False))"

text \<open>The \<^verbatim>\<open>catch\<close> clauses around the activity: what is not a \<^verbatim>\<open>std::exception\<close> passes through.\<close>

definition catch_clauses :: "ActivityTaskHandler \<Rightarrow> respond_rpcs \<Rightarrow> string \<Rightarrow> wf_error \<Rightarrow> handled" where
  "catch_clauses h R token e =
     (if e = OtherThrow then ([], Some OtherThrow) else send_failed R token (handler_failure h e))"

definition activity_info :: "ActivityTaskHandler \<Rightarrow> activity_task \<Rightarrow> ActivityInfo" where
  "activity_info h t =
     \<lparr>ai_activity_id = at_activity_id t, ai_activity_type = at_activity_type t,
      ai_workflow_id = at_workflow_id t, ai_run_id = at_run_id t, ai_task_queue = ah_task_queue h,
      ai_task_token = at_token t, ai_headers = map_option FromProtoPayload \<circ> at_header t,
      ai_attempt = at_attempt t\<rparr>"

definition execute :: "act_world \<Rightarrow> ActivityTaskHandler \<Rightarrow> act_fn \<Rightarrow> activity_task
  \<Rightarrow> (wf_error + Payloads) \<times> ActivityContext" where
  "execute W h fn t =
     (let ai = activity_info h t;
          chain = BuildActivityInboundChain (ah_interceptors h) (RootActivityInbound fn)
      in run_act W (chain ai (FromProtoPayloads (at_input t)) (ai_headers ai))
           (new_context ai True (HeartbeatThrottleInterval (at_heartbeat_timeout t))))"

definition Handle_activity :: "act_world \<Rightarrow> respond_rpcs \<Rightarrow> ActivityTaskHandler \<Rightarrow> activity_task \<Rightarrow> handled" where
  "Handle_activity W R h t =
     (case ah_activities h (at_activity_type t) of
        None \<Rightarrow> send_failed R (at_token t)
          (MakeApplicationFailure (''no activity registered for type: '' @ at_activity_type t)
             ''NotRegisteredError'' False)
      | Some fn \<Rightarrow>
          (case execute W h fn t of
             (Inl e, c) \<Rightarrow> catch_clauses h R (at_token t) e
           | (Inr res, c) \<Rightarrow>
               if will_complete_async c then ([], None)
               else (let req = RespondActivityTaskCompleted (at_token t)
                                 (if res \<noteq> [] then Some (ToProtoPayloads res) else None)
                     in case completed_rpc R of
                          None \<Rightarrow> ([req], None)
                        | Some e \<Rightarrow>
                            (let (rs, esc) = catch_clauses h R (at_token t) (rpc_exception e)
                             in (req # rs, esc)))))"

section \<open>Interceptor order\<close>

text \<open>The first factory is the outermost: the chain is the factories applied from the right.\<close>

lemma build_chain_append: "build_chain_loop (fs @ gs) n = build_chain_loop gs (build_chain_loop fs n)"
  by (induction fs arbitrary: n) auto

lemma chain_is_foldr:
  "BuildActivityInboundChain fs t = foldr (\<lambda>f n. case f n of Some w \<Rightarrow> w | None \<Rightarrow> n) fs t"
  by (induction fs) (auto simp: BuildActivityInboundChain_def build_chain_append)

section \<open>Heartbeats\<close>

text \<open>
  The reports are in order, \<open>throttle\<close> apart, and the time the context remembers is that of the last of them
  or a later one, at which the details could not be encoded.
\<close>

definition spaced :: "int \<Rightarrow> (int \<times> Payloads) list \<Rightarrow> bool" where
  "spaced d rs \<longleftrightarrow> sorted_wrt (\<lambda>x y. fst x + d \<le> fst y) rs"

definition context_ok :: "ActivityContext \<Rightarrow> bool" where
  "context_ok c \<longleftrightarrow>
     (reports c \<noteq> [] \<longrightarrow> reported c \<and> fst (last (reports c)) \<le> last_report c)
     \<and> spaced (throttle_interval c) (reports c)"

lemma new_context_ok: "context_ok (new_context ai hb d)"
  by (simp add: context_ok_def new_context_def spaced_def)

lemma spaced_snoc:
  assumes "spaced d rs" and "0 \<le> d" and "rs \<noteq> [] \<longrightarrow> fst (last rs) + d \<le> t"
  shows "spaced d (rs @ [(t, p)])"
proof -
  have "fst x + d \<le> t" if x: "x \<in> set rs" for x
  proof -
    from x obtain ys zs where rs: "rs = ys @ x # zs" by (auto dest: split_list)
    show ?thesis
    proof (cases "zs = []")
      case True
      with rs assms(3) show ?thesis by simp
    next
      case False
      then have "fst x + d \<le> fst (last zs)" using assms(1) rs by (simp add: spaced_def sorted_wrt_append)
      with False rs assms(2,3) show ?thesis by simp
    qed
  qed
  with assms(1) show ?thesis by (simp add: spaced_def sorted_wrt_append)
qed

lemma RecordHeartbeat_ok:
  assumes "context_ok c" and "0 \<le> throttle_interval c" and "RecordHeartbeat W d c = (e, c')"
  shows "context_ok c' \<and> throttle_interval c' = throttle_interval c"
proof -
  let ?now = "clock W (clock_reads c)"
  have "spaced (throttle_interval c) (reports c @ [(?now, ps)])" "reports c \<noteq> [] \<longrightarrow> fst (last (reports c)) \<le> ?now"
    if "\<not> (reported c \<and> ?now - last_report c < throttle_interval c)" for ps
    using assms(1,2) that by (auto simp: context_ok_def intro!: spaced_snoc)
  with assms show ?thesis
    by (auto simp: RecordHeartbeat_def Let_def context_ok_def split: if_splits sum.splits)
qed

lemma run_act_ok:
  assumes "context_ok c" and "0 \<le> throttle_interval c"
  shows "context_ok (snd (run_act W a c)) \<and> throttle_interval (snd (run_act W a c)) = throttle_interval c"
  using assms
proof (induction a arbitrary: c)
  case (ActHeartbeat d k)
  obtain e c' where r: "RecordHeartbeat W d c = (e, c')" by fastforce
  from RecordHeartbeat_ok [OF ActHeartbeat.prems r] ActHeartbeat.IH [of "k e" c'] ActHeartbeat.prems
  show ?case by (simp add: r)
next
  case (ActSetWillCompleteAsync a)
  have "context_ok (c\<lparr>will_complete_async := True\<rparr>)"
    using ActSetWillCompleteAsync.prems by (simp add: context_ok_def)
  with ActSetWillCompleteAsync show ?case by simp
qed simp_all

lemma HeartbeatThrottleInterval_bounds:
  "0 \<le> HeartbeatThrottleInterval d"
  "d = Some t \<Longrightarrow> 0 < duration_ns t \<Longrightarrow> HeartbeatThrottleInterval d < duration_ns t"
  by (auto simp: HeartbeatThrottleInterval_def Let_def ns_per_s_def split: option.split)

section \<open>Properties of activity tasks\<close>

fun act_token :: "act_response \<Rightarrow> string" where
  "act_token (RespondActivityTaskFailed t f) = t"
| "act_token (RespondActivityTaskCompleted t r) = t"

text \<open>Whether the service took an answer.\<close>

fun act_accepted :: "respond_rpcs \<Rightarrow> act_response \<Rightarrow> bool" where
  "act_accepted R (RespondActivityTaskFailed t f) \<longleftrightarrow> failed_rpc R = None"
| "act_accepted R (RespondActivityTaskCompleted t r) \<longleftrightarrow> completed_rpc R = None"

fun is_completion :: "act_response \<Rightarrow> bool" where
  "is_completion (RespondActivityTaskCompleted t r) = True"
| "is_completion (RespondActivityTaskFailed t f) = False"

text \<open>
  How the registered function ended: it returned, deferred its completion and returned, or threw. A throw after
  deferring is a throw.
\<close>

datatype ending = Unregistered | ReturnedResult | Deferred | ThrewStd | ThrewOther

definition ending_of :: "act_world \<Rightarrow> ActivityTaskHandler \<Rightarrow> activity_task \<Rightarrow> ending" where
  "ending_of W h t =
     (case ah_activities h (at_activity_type t) of
        None \<Rightarrow> Unregistered
      | Some fn \<Rightarrow> (case execute W h fn t of
                     (Inr res, c) \<Rightarrow> if will_complete_async c then Deferred else ReturnedResult
                   | (Inl e, c) \<Rightarrow> if e = OtherThrow then ThrewOther else ThrewStd))"

lemmas handling_defs = ending_of_def Handle_activity_def send_failed_def catch_clauses_def rpc_exception_def

text \<open>
  C38. An activity task gets at most one accepted answer, and every answer carries its token, whatever
  the two response RPCs answer. Nothing is sent exactly when the function deferred its completion and
  returned, or threw something that is no \<^verbatim>\<open>std::exception\<close>; a function that defers and then throws is answered
  with a failure like any other that throws. The accepted answer is a completion exactly when the
  function returned without deferring and the completion RPC succeeded. When that RPC fails a failure
  follows, which may be the accepted answer.
\<close>

theorem activity_task_answered_once:
  "list_all (\<lambda>x. act_token x = at_token t) (fst (Handle_activity W R h t))
    \<and> length (filter (act_accepted R) (fst (Handle_activity W R h t))) \<le> 1
    \<and> (fst (Handle_activity W R h t) = [] \<longleftrightarrow> ending_of W h t = Deferred \<or> ending_of W h t = ThrewOther)
    \<and> (list_ex (\<lambda>x. act_accepted R x \<and> is_completion x) (fst (Handle_activity W R h t))
        \<longleftrightarrow> ending_of W h t = ReturnedResult \<and> completed_rpc R = None)
    \<and> (list_ex (\<lambda>x. act_accepted R x \<and> \<not> is_completion x) (fst (Handle_activity W R h t))
        \<longleftrightarrow> failed_rpc R = None \<and> (ending_of W h t = Unregistered \<or> ending_of W h t = ThrewStd
              \<or> ending_of W h t = ReturnedResult \<and> completed_rpc R \<noteq> None))"
proof (cases "ah_activities h (at_activity_type t)")
  case None
  then show ?thesis by (simp add: handling_defs)
next
  case (Some fn)
  obtain out c where ex: "execute W h fn t = (out, c)" by fastforce
  show ?thesis
  proof (cases out)
    case (Inl e)
    with Some ex show ?thesis by (simp add: handling_defs)
  next
    case (Inr res)
    with Some ex show ?thesis by (cases "completed_rpc R") (simp_all add: handling_defs Let_def)
  qed
qed

definition echo_handler :: ActivityTaskHandler where
  "echo_handler = \<lparr>ah_task_queue = ''q'', ah_activities = [''echo'' \<mapsto> (\<lambda>ai args. ActReturn args)],
     ah_interceptors = [], ah_failure_converter = None\<rparr>"

definition echo_task :: activity_task where
  "echo_task = \<lparr>at_token = ''tok'', at_activity_id = ''1'', at_activity_type = ''echo'', at_workflow_id = ''w'',
     at_run_id = ''r'', at_attempt = 1, at_header = Map.empty, at_input = [], at_heartbeat_timeout = None\<rparr>"

text \<open>An activity that defers its completion and throws afterwards is reported as failed.\<close>

lemma deferred_throw_reported:
  "\<exists>f. fst (Handle_activity W R (echo_handler\<lparr>ah_activities := [''echo'' \<mapsto> (\<lambda>ai args. ActSetWillCompleteAsync (ActThrow (StdError m)))]\<rparr>) echo_task)
     = [RespondActivityTaskFailed ''tok'' f]"
  by (simp add: echo_handler_def echo_task_def execute_def BuildActivityInboundChain_def RootActivityInbound_def handling_defs Let_def)

text \<open>
  C39. Heartbeats are throttled: in any run of an activity, whatever the clock and the server answer,
  consecutive reports to the server are at least the throttle interval apart, and for a positive
  heartbeat timeout that interval is shorter than the timeout.
\<close>

theorem heartbeats_throttled:
  "spaced (HeartbeatThrottleInterval (at_heartbeat_timeout t)) (reports (snd (execute W h fn t)))
   \<and> (duration_ns d \<le> 0 \<or> HeartbeatThrottleInterval (Some d) < duration_ns d)"
proof -
  let ?c = "new_context (activity_info h t) True (HeartbeatThrottleInterval (at_heartbeat_timeout t))"
  have i: "throttle_interval ?c = HeartbeatThrottleInterval (at_heartbeat_timeout t)"
    by (simp add: new_context_def)
  have "context_ok (snd (execute W h fn t))
      \<and> throttle_interval (snd (execute W h fn t)) = HeartbeatThrottleInterval (at_heartbeat_timeout t)"
    unfolding execute_def Let_def
    using run_act_ok [OF new_context_ok, of "activity_info h t" True "HeartbeatThrottleInterval (at_heartbeat_timeout t)"] i
      HeartbeatThrottleInterval_bounds(1) by simp
  then have "spaced (HeartbeatThrottleInterval (at_heartbeat_timeout t)) (reports (snd (execute W h fn t)))"
    by (metis context_ok_def)
  moreover have "duration_ns d \<le> 0 \<or> HeartbeatThrottleInterval (Some d) < duration_ns d"
    using HeartbeatThrottleInterval_bounds(2) [of "Some d" d] by (cases "0 < duration_ns d") auto
  ultimately show ?thesis ..
qed

text \<open>
  Interceptors nest in the order they are configured: the chain built back to front is the
  factories applied from the right, so the first one is outermost and sees the rest of the chain,
  and one that declines to wrap leaves the chain as it was.
\<close>

theorem interceptors_nest_in_order:
  "BuildActivityInboundChain (f # fs) t
     = (case f (BuildActivityInboundChain fs t) of Some w \<Rightarrow> w | None \<Rightarrow> BuildActivityInboundChain fs t)
   \<and> BuildActivityInboundChain (fs @ gs) t = BuildActivityInboundChain fs (BuildActivityInboundChain gs t)
   \<and> BuildActivityInboundChain [] t = t"
  by (simp add: chain_is_foldr split: option.split)

text \<open>
  A completion whose RPC fails is reported as a failure: the exception of the response call is
  caught by the clause meant for the activity, and the server is told that an activity failed
  that returned its result.
\<close>

theorem lost_completion_reported_failed:
  assumes "completed_rpc R = Some e" and "ah_activities h (at_activity_type t) = Some fn"
    and "execute W h fn t = (Inr res, c)" and "\<not> will_complete_async c"
  shows "map act_token (fst (Handle_activity W R h t)) = [at_token t, at_token t]
    \<and> last (fst (Handle_activity W R h t))
      = RespondActivityTaskFailed (at_token t) (handler_failure h (StdError (rpc_what e)))"
  using assms by (simp add: Handle_activity_def catch_clauses_def send_failed_def rpc_exception_def Let_def)

theorem lost_completion_reported_failed_witness:
  "\<forall>W. last (fst (Handle_activity W \<lparr>completed_rpc = Some (RpcError ''down''), failed_rpc = None\<rparr> echo_handler echo_task))
     = RespondActivityTaskFailed ''tok'' (MakeApplicationFailure ''down'' ''std::exception'' False)"
proof
  fix W
  let ?R = "\<lparr>completed_rpc = Some (RpcError ''down''), failed_rpc = None\<rparr>"
  obtain fn res c where fn: "ah_activities echo_handler (at_activity_type echo_task) = Some fn"
    and x: "execute W echo_handler fn echo_task = (Inr res, c)" "\<not> will_complete_async c"
    by (simp add: echo_handler_def echo_task_def execute_def BuildActivityInboundChain_def RootActivityInbound_def
        new_context_def Let_def)
  have "completed_rpc ?R = Some (RpcError ''down'')" by simp
  from lost_completion_reported_failed [OF this fn x]
  show "last (fst (Handle_activity W ?R echo_handler echo_task))
     = RespondActivityTaskFailed ''tok'' (MakeApplicationFailure ''down'' ''std::exception'' False)"
    by (simp add: handler_failure_def) (simp add: echo_handler_def echo_task_def)
qed

end
