(* ===== verification/Worker.thy ===== *)
theory Worker
  imports Activity_Handler
begin

text \<open>
  The worker (\<^verbatim>\<open>src/internal/worker_impl.h\<close>, \<^verbatim>\<open>worker_impl.cpp\<close>): the concurrency gate, the rate limiter,
  the poller scaler, the built-in session activities, the sizes of the poller pools, and one
  iteration of the poll loops. Each method that holds its mutex throughout is one function of the
  object's state; a wait on the condition variable is \<open>None\<close> while its predicate is false. The
  threads that share a gate or a scaler interleave as steps of a relation.
\<close>

section \<open>The concurrency gate\<close>

record ConcurrencyGate =
  limit :: int
  in_flight :: nat
  released :: bool

definition new_gate :: "int \<Rightarrow> ConcurrencyGate" where
  "new_gate n = \<lparr>limit = n, in_flight = 0, released = False\<rparr>"

definition gate_Acquire :: "ConcurrencyGate \<Rightarrow> (bool \<times> ConcurrencyGate) option" where
  "gate_Acquire g =
     (if limit g \<le> 0 then Some (True, g\<lparr>in_flight := Suc (in_flight g)\<rparr>)
      else if released g then Some (False, g)
      else if int (in_flight g) < limit g then Some (True, g\<lparr>in_flight := Suc (in_flight g)\<rparr>)
      else None)"

definition gate_Release :: "ConcurrencyGate \<Rightarrow> ConcurrencyGate" where
  "gate_Release g = (if in_flight g > 0 then g\<lparr>in_flight := in_flight g - 1\<rparr> else g)"

definition gate_ReleaseAll :: "ConcurrencyGate \<Rightarrow> ConcurrencyGate" where
  "gate_ReleaseAll g = g\<lparr>released := True\<rparr>"

text \<open>\<open>expired\<close>: the deadline has passed. \<open>None\<close>: still waiting.\<close>

definition gate_Drain :: "bool \<Rightarrow> ConcurrencyGate \<Rightarrow> bool option" where
  "gate_Drain expired g = (if in_flight g = 0 then Some True else if expired then Some False else None)"

text \<open>
  A thread outside the gate asks for a permit; one that got it holds a \<^verbatim>\<open>GateGuard\<close>, whose destructor
  gives it back. A refused thread leaves its loop.
\<close>

datatype gate_pc = Outside | Holding | Refused

type_synonym gate_state = "ConcurrencyGate \<times> (nat \<Rightarrow> gate_pc)"

inductive gate_step :: "gate_state \<Rightarrow> gate_state \<Rightarrow> bool" where
  acquire: "pc t = Outside \<Longrightarrow> gate_Acquire g = Some (True, g') \<Longrightarrow> gate_step (g, pc) (g', pc(t := Holding))"
| refuse: "pc t = Outside \<Longrightarrow> gate_Acquire g = Some (False, g') \<Longrightarrow> gate_step (g, pc) (g', pc(t := Refused))"
| leave: "pc t = Holding \<Longrightarrow> gate_step (g, pc) (gate_Release g, pc(t := Outside))"
| stop: "gate_step (g, pc) (gate_ReleaseAll g, pc)"

inductive_cases gate_stepE: "gate_step (g, pc) s'"

inductive gate_reach :: "int \<Rightarrow> gate_state \<Rightarrow> bool" for n where
  start: "gate_reach n (new_gate n, \<lambda>t. Outside)"
| step: "gate_reach n s \<Longrightarrow> gate_step s s' \<Longrightarrow> gate_reach n s'"

definition holders :: "(nat \<Rightarrow> gate_pc) \<Rightarrow> nat set" where
  "holders pc = {t. pc t = Holding}"

text \<open>The counter counts the holders, and a bounded gate never has more of them than its limit.\<close>

definition gate_ok :: "int \<Rightarrow> gate_state \<Rightarrow> bool" where
  "gate_ok n s \<longleftrightarrow>
     limit (fst s) = n \<and> finite (holders (snd s)) \<and> in_flight (fst s) = card (holders (snd s))
     \<and> (n > 0 \<longrightarrow> int (in_flight (fst s)) \<le> n)"

lemma holders_upd:
  "holders (pc(t := Holding)) = insert t (holders pc)"
  "v \<noteq> Holding \<Longrightarrow> holders (pc(t := v)) = holders pc - {t}"
  by (auto simp: holders_def)

lemma gate_step_ok: "gate_step s s' \<Longrightarrow> gate_ok n s \<Longrightarrow> gate_ok n s'"
proof (induction rule: gate_step.induct)
  case (acquire pc t g g')
  then have "t \<notin> holders pc" by (simp add: holders_def)
  with acquire show ?case
    by (auto simp: gate_ok_def holders_upd gate_Acquire_def split: if_splits)
next
  case (refuse pc t g g')
  then have "holders pc - {t} = holders pc" by (auto simp: holders_def)
  with refuse show ?case by (auto simp: gate_ok_def holders_upd gate_Acquire_def split: if_splits)
next
  case (leave pc t g)
  then have "t \<in> holders pc" by (simp add: holders_def)
  moreover from this leave.prems have "0 < card (holders pc)" by (auto simp: gate_ok_def card_gt_0_iff)
  ultimately show ?case using leave.prems
    by (auto simp: gate_ok_def holders_upd gate_Release_def)
next
  case (stop g pc)
  then show ?case by (auto simp: gate_ok_def gate_ReleaseAll_def)
qed

lemma gate_reach_ok: "gate_reach n s \<Longrightarrow> gate_ok n s"
proof (induction rule: gate_reach.induct)
  case start
  then show ?case by (simp add: gate_ok_def new_gate_def holders_def)
next
  case (step s s')
  then show ?case by (simp add: gate_step_ok)
qed

text \<open>Once stopped, a bounded gate lets no further thread in: the holders only leave.\<close>

lemma stopped_step:
  "gate_step s s' \<Longrightarrow> released (fst s) \<Longrightarrow> 0 < limit (fst s)
     \<Longrightarrow> released (fst s') \<and> 0 < limit (fst s') \<and> holders (snd s') \<subseteq> holders (snd s)"
  by (induction rule: gate_step.induct)
    (auto simp: gate_Acquire_def gate_Release_def gate_ReleaseAll_def holders_def split: if_splits)

section \<open>The rate limiter\<close>

text \<open>
  The critical section of \<^verbatim>\<open>Acquire\<close> for a positive rate: \<open>interval\<close> is the cast of \<^verbatim>\<open>1.0 / per_second\<close>,
  \<open>now\<close> the time read under the lock, the answers the slot handed out and the next one. A rate of
  zero or less hands out no slot and returns at once.
\<close>

definition limiter_Acquire :: "int \<Rightarrow> int \<Rightarrow> int \<Rightarrow> int \<times> int" where
  "limiter_Acquire interval next_slot now =
     (let allowed = (if next_slot < now then now else next_slot) in (allowed, allowed + interval))"

text \<open>The wait outside the lock, over the successive readings of the stop flag and of the clock:
  how many times it sleeps, or \<open>None\<close> if it is still waiting after them.\<close>

fun limiter_wait :: "int \<Rightarrow> (bool \<times> int) list \<Rightarrow> nat option" where
  "limiter_wait allowed [] = None"
| "limiter_wait allowed ((stop, now) # rest) =
     (if \<not> stop \<and> now < allowed then map_option Suc (limiter_wait allowed rest) else Some 0)"

fun limiter_run :: "int \<Rightarrow> int \<Rightarrow> int list \<Rightarrow> int list" where
  "limiter_run interval next_slot [] = []"
| "limiter_run interval next_slot (now # nows) =
     (let (allowed, next') = limiter_Acquire interval next_slot now
      in allowed # limiter_run interval next' nows)"

lemma limiter_wait_ends:
  "(stop, now) \<in> set rs \<Longrightarrow> stop \<or> allowed \<le> now \<Longrightarrow> \<exists>n. limiter_wait allowed rs = Some n"
  by (induction allowed rs rule: limiter_wait.induct) auto

lemma limiter_wait_not_early:
  "limiter_wait allowed rs = Some n \<Longrightarrow> n < length rs \<and> (fst (rs ! n) \<or> allowed \<le> snd (rs ! n))"
  by (induction allowed rs arbitrary: n rule: limiter_wait.induct) (auto split: if_splits)

lemma limiter_run_bound:
  "0 \<le> d \<Longrightarrow> s \<in> set (limiter_run d next_slot nows) \<Longrightarrow> next_slot \<le> s"
proof (induction nows arbitrary: next_slot)
  case (Cons now nows)
  then have "s = fst (limiter_Acquire d next_slot now) \<or> snd (limiter_Acquire d next_slot now) \<le> s"
    by (auto simp: split_beta)
  with \<open>0 \<le> d\<close> show ?case by (auto simp: limiter_Acquire_def Let_def split: if_splits)
qed simp

lemma limiter_run_spaced:
  "0 \<le> d \<Longrightarrow> sorted_wrt (\<lambda>s s'. s + d \<le> s') (limiter_run d next_slot nows)"
proof (induction d next_slot nows rule: limiter_run.induct)
  case (2 d next_slot now nows)
  show ?case
    using 2 limiter_run_bound [OF "2.prems"] by (auto simp: limiter_Acquire_def Let_def)
qed simp

lemma limiter_run_length: "length (limiter_run d n nows) = length nows"
  by (induction d n nows rule: limiter_run.induct) (auto simp: Let_def split: prod.split)

lemma limiter_run_waits: "i < length nows \<Longrightarrow> nows ! i \<le> limiter_run d n nows ! i"
  by (induction d n nows arbitrary: i rule: limiter_run.induct)
    (auto simp: limiter_Acquire_def Let_def nth_Cons' split: if_splits)

section \<open>The poller scaler\<close>

record PollerScaler =
  always_hot :: int
  max_scalable :: int
  empty_threshold :: int
  target :: int
  scalable_active :: int
  empty_streak :: int

definition new_scaler :: PollerScaler where
  "new_scaler = \<lparr>always_hot = 0, max_scalable = 0, empty_threshold = 1, target = 0, scalable_active = 0,
     empty_streak = 0\<rparr>"

definition Configure :: "int \<Rightarrow> int \<Rightarrow> int \<Rightarrow> PollerScaler \<Rightarrow> PollerScaler" where
  "Configure hot max_s empty_polls s =
     s\<lparr>always_hot := hot, max_scalable := max_s,
       empty_threshold := (if empty_polls > 0 then empty_polls else 1), target := 0\<rparr>"

definition scaler_Acquire :: "bool \<Rightarrow> PollerScaler \<Rightarrow> (bool \<times> PollerScaler) option" where
  "scaler_Acquire stop s =
     (if stop then Some (False, s)
      else if scalable_active s < target s
      then Some (True, s\<lparr>scalable_active := scalable_active s + 1\<rparr>)
      else None)"

definition scaler_Release :: "PollerScaler \<Rightarrow> PollerScaler" where
  "scaler_Release s = (if scalable_active s > 0 then s\<lparr>scalable_active := scalable_active s - 1\<rparr> else s)"

definition Report :: "bool \<Rightarrow> PollerScaler \<Rightarrow> PollerScaler" where
  "Report got_task s =
     (if got_task then
        (if target s < max_scalable s then s\<lparr>empty_streak := 0, target := target s + 1\<rparr>
         else s\<lparr>empty_streak := 0\<rparr>)
      else if empty_streak s + 1 \<ge> empty_threshold s then
        (if target s > 0 then s\<lparr>empty_streak := 0, target := target s - 1\<rparr> else s\<lparr>empty_streak := 0\<rparr>)
      else s\<lparr>empty_streak := empty_streak s + 1\<rparr>)"

definition scaler_active :: "PollerScaler \<Rightarrow> int" where
  "scaler_active s = always_hot s + scalable_active s"

definition scaler_ok :: "PollerScaler \<Rightarrow> bool" where
  "scaler_ok s \<longleftrightarrow>
     0 \<le> target s \<and> target s \<le> max_scalable s \<and> 0 \<le> scalable_active s \<and> scalable_active s \<le> max_scalable s
     \<and> 0 \<le> empty_streak s \<and> empty_streak s < empty_threshold s"

datatype scaler_call = CallAcquire | CallRelease | CallReport bool

fun scaler_op :: "scaler_call \<Rightarrow> PollerScaler \<Rightarrow> PollerScaler" where
  "scaler_op CallAcquire s = (case scaler_Acquire False s of Some (True, s') \<Rightarrow> s' | _ \<Rightarrow> s)"
| "scaler_op CallRelease s = scaler_Release s"
| "scaler_op (CallReport b) s = Report b s"

lemma scaler_op_ok: "scaler_ok s \<Longrightarrow> scaler_ok (scaler_op x s)"
  by (cases x) (auto simp: scaler_ok_def scaler_Acquire_def scaler_Release_def Report_def)

lemma Configure_ok: "0 \<le> m \<Longrightarrow> scaler_ok (Configure h m e new_scaler)"
  by (simp add: scaler_ok_def Configure_def new_scaler_def)

lemma Report_frame:
  "max_scalable (Report b s) = max_scalable s" "empty_threshold (Report b s) = empty_threshold s"
  "scalable_active (Report b s) = scalable_active s" "always_hot (Report b s) = always_hot s"
  by (simp_all add: Report_def)

text \<open>Tasks raise the target one by one up to the maximum.\<close>

lemma Report_tasks:
  "scaler_ok s \<Longrightarrow> target ((Report True ^^ n) s) = min (max_scalable s) (target s + int n)
     \<and> max_scalable ((Report True ^^ n) s) = max_scalable s"
  by (induction n) (auto simp: Report_def scaler_ok_def)

text \<open>A full run of empty polls lowers it by one and starts a new run.\<close>

lemma Report_empty_run:
  assumes "scaler_ok s"
  shows "n < nat (empty_threshold s - empty_streak s) \<Longrightarrow>
      (Report False ^^ n) s = s\<lparr>empty_streak := empty_streak s + int n\<rparr>"
    and "(Report False ^^ nat (empty_threshold s - empty_streak s)) s
      = s\<lparr>empty_streak := 0, target := max 0 (target s - 1)\<rparr>"
proof -
  show run: "(Report False ^^ n) s = s\<lparr>empty_streak := empty_streak s + int n\<rparr>"
    if "n < nat (empty_threshold s - empty_streak s)" for n
    using that by (induction n) (auto simp: Report_def)
  have "0 < nat (empty_threshold s - empty_streak s)" using assms by (simp add: scaler_ok_def)
  then obtain m where m: "nat (empty_threshold s - empty_streak s) = Suc m" using gr0_conv_Suc by blast
  then have "empty_streak s + int m + 1 = empty_threshold s" by linarith
  with run [of m] m assms show "(Report False ^^ nat (empty_threshold s - empty_streak s)) s
      = s\<lparr>empty_streak := 0, target := max 0 (target s - 1)\<rparr>"
    by (auto simp: Report_def scaler_ok_def)
qed

section \<open>Sessions\<close>

text \<open>
  The creation and completion activities: the loop around \<^verbatim>\<open>compare_exchange_weak\<close> leaves with the
  value the counter had when the exchange succeeded, so each is one atomic change of the counter.
\<close>

definition create_session :: "int \<Rightarrow> int \<Rightarrow> wf_error + int" where
  "create_session cap active =
     (if cap > 0 then
        (if active \<ge> cap
         then Inl (ApplicationError ''worker session capacity reached'' ''SessionCapacityError'' False)
         else Inr (active + 1))
      else Inr (active + 1))"

definition complete_session :: "int \<Rightarrow> int" where
  "complete_session active = (if active > 0 then active - 1 else active)"

section \<open>Pool sizes\<close>

record WorkerOptions =
  workflow_task_pollers :: int
  activity_task_pollers :: int
  enable_poller_autoscaling :: bool
  min_concurrent_pollers :: int
  max_concurrent_pollers :: int
  autoscaling_idle_polls_before_park :: int

definition base_pollers :: "int \<Rightarrow> int" where
  "base_pollers n = (if n > 0 then n else 1)"

definition min_hot :: "WorkerOptions \<Rightarrow> int" where
  "min_hot opts = (if enable_poller_autoscaling opts then max 1 (min_concurrent_pollers opts) else 0)"

definition pool_size :: "WorkerOptions \<Rightarrow> int \<Rightarrow> int" where
  "pool_size opts base =
     (if enable_poller_autoscaling opts then max (max base (max_concurrent_pollers opts)) (min_hot opts)
      else base)"

text \<open>Both loops of a pool (normal and sticky) share one scaler, so its numbers count twice.\<close>

definition hot_pollers :: "WorkerOptions \<Rightarrow> int \<Rightarrow> int \<Rightarrow> int" where
  "hot_pollers opts loops pool =
     (if enable_poller_autoscaling opts then loops * min (min_hot opts) pool else loops * pool)"

definition Start_scaler :: "WorkerOptions \<Rightarrow> int \<Rightarrow> int \<Rightarrow> PollerScaler \<Rightarrow> PollerScaler" where
  "Start_scaler opts loops base s =
     (let pool = pool_size opts base; hot = hot_pollers opts loops pool
      in Configure hot (loops * pool - hot) (autoscaling_idle_polls_before_park opts) s)"

definition is_scalable :: "WorkerOptions \<Rightarrow> int \<Rightarrow> bool" where
  "is_scalable opts index \<longleftrightarrow>
     enable_poller_autoscaling opts \<and> index \<ge> max 1 (min_concurrent_pollers opts)"

text \<open>
  The scaler's maximum is the number of scalable loops that are started, and the hot count the
  number of the others.
\<close>

lemma scalable_indices:
  assumes "0 < base" and "0 \<le> loops"
  shows "max_scalable (Start_scaler opts loops base s)
      = loops * int (card {i. 0 \<le> i \<and> i < pool_size opts base \<and> is_scalable opts i})"
    and "always_hot (Start_scaler opts loops base s)
      = loops * int (card {i. 0 \<le> i \<and> i < pool_size opts base \<and> \<not> is_scalable opts i})"
proof -
  let ?pool = "pool_size opts base" and ?m = "max 1 (min_concurrent_pollers opts)"
  have scal: "{i. 0 \<le> i \<and> i < ?pool \<and> is_scalable opts i}
      = (if enable_poller_autoscaling opts then {?m..<?pool} else {})"
    by (auto simp: is_scalable_def)
  have hot: "{i. 0 \<le> i \<and> i < ?pool \<and> \<not> is_scalable opts i}
      = (if enable_poller_autoscaling opts then {0..<min ?m ?pool} else {0..<?pool})"
    by (auto simp: is_scalable_def)
  have "?m \<le> ?pool" if "enable_poller_autoscaling opts"
    using that by (simp add: pool_size_def min_hot_def)
  then show "max_scalable (Start_scaler opts loops base s)
      = loops * int (card {i. 0 \<le> i \<and> i < ?pool \<and> is_scalable opts i})"
    by (auto simp: scal Start_scaler_def Configure_def hot_pollers_def min_hot_def Let_def algebra_simps)
  have "0 \<le> ?pool" using assms by (auto simp: pool_size_def le_max_iff_disj)
  then show "always_hot (Start_scaler opts loops base s)
      = loops * int (card {i. 0 \<le> i \<and> i < ?pool \<and> \<not> is_scalable opts i})"
    by (auto simp: hot Start_scaler_def Configure_def hot_pollers_def min_hot_def Let_def)
qed

section \<open>Sticky-cache metrics\<close>

text \<open>
  \<^verbatim>\<open>EmitStickyCacheMetrics\<close> for one of the two counters: the reading is taken before the mutex, the
  difference and the update of the last reading are made under it, and only a positive difference
  is added to the metric.
\<close>

definition emit_delta :: "int \<Rightarrow> int \<Rightarrow> int \<times> int" where
  "emit_delta last_seen reading = (let d = reading - last_seen in (if d > 0 then d else 0, reading))"

fun emitted_total :: "int \<Rightarrow> int list \<Rightarrow> int" where
  "emitted_total last_seen [] = 0"
| "emitted_total last_seen (r # rs) =
     (let (d, l) = emit_delta last_seen r in d + emitted_total l rs)"

lemma emitted_total_sorted:
  "sorted (l # rs) \<Longrightarrow> emitted_total l rs = last (l # rs) - l"
  by (induction l rs rule: emitted_total.induct) (auto simp: emit_delta_def Let_def)

section \<open>One iteration of a poll loop\<close>

text \<open>
  What one pass through a loop body meets: the answers of the calls it makes and of the flags it
  reads, in the order it reads them; the unused ones do not matter. \<open>pi_slot\<close> and \<open>pi_permit\<close> are
  what the scaler's and the gate's \<^verbatim>\<open>Acquire\<close> return, \<open>pi_handler\<close> what the handler throws.
\<close>

record poll_inputs =
  pi_slot :: bool
  pi_poll :: "rpc_error + string"
  pi_stop_polled :: bool
  pi_draining :: bool
  pi_stop_paced :: bool
  pi_permit :: bool
  pi_handler :: "wf_error option"
  pi_stop_caught :: bool

datatype poll_event =
    SlotAcquired | SlotReleased | Reported bool | Paced | PermitAcquired | PermitReleased
  | Dispatched string | LoggedError

datatype poll_next = Continue | Break | Terminate

text \<open>The \<^verbatim>\<open>catch (const std::exception\&)\<close> clause; anything else ends the process.\<close>

definition poll_catch :: "bool \<Rightarrow> bool \<Rightarrow> poll_event list \<times> poll_next" where
  "poll_catch free_slot stopped =
     ((if free_slot then [SlotReleased] else []) @ (if stopped then [] else [LoggedError]),
      if stopped then Break else Continue)"

definition after :: "'e list \<Rightarrow> 'e list \<times> poll_next \<Rightarrow> 'e list \<times> poll_next" where
  "after es r = (es @ fst r, snd r)"

text \<open>The part all loops share: the permit, the handler, and what its end means.\<close>

definition dispatch_task :: "poll_inputs \<Rightarrow> string \<Rightarrow> poll_event list \<times> poll_next" where
  "dispatch_task x token =
     (if \<not> pi_permit x then ([], Break)
      else after [PermitAcquired, Dispatched token]
        (case pi_handler x of
           None \<Rightarrow> ([PermitReleased], Continue)
         | Some OtherThrow \<Rightarrow> ([], Terminate)
         | Some _ \<Rightarrow> after [PermitReleased] (poll_catch False (pi_stop_caught x))))"

definition WorkflowPollLoop_body :: "bool \<Rightarrow> bool \<Rightarrow> poll_inputs \<Rightarrow> poll_event list \<times> poll_next" where
  "WorkflowPollLoop_body autoscaling scalable x =
     (if scalable \<and> \<not> pi_slot x then ([], Break)
      else after (if scalable then [SlotAcquired] else [])
        (case pi_poll x of
           Inl e \<Rightarrow> poll_catch scalable (pi_stop_caught x)
         | Inr token \<Rightarrow>
             after ((if autoscaling then [Reported (token \<noteq> [])] else [])
                    @ (if scalable then [SlotReleased] else []))
               (if pi_stop_polled x then ([], Break)
                else if token = [] then ([], Continue)
                else if pi_draining x then ([], Continue)
                else dispatch_task x token)))"

definition ActivityPollLoop_body ::
  "bool \<Rightarrow> bool \<Rightarrow> bool \<Rightarrow> poll_inputs \<Rightarrow> poll_event list \<times> poll_next" where
  "ActivityPollLoop_body session autoscaling scalable x =
     (if scalable \<and> \<not> pi_slot x then ([], Break)
      else after (if scalable then [SlotAcquired] else [])
        (case pi_poll x of
           Inl e \<Rightarrow> poll_catch scalable (pi_stop_caught x)
         | Inr token \<Rightarrow>
             after ((if autoscaling \<and> \<not> session then [Reported (token \<noteq> [])] else [])
                    @ (if scalable then [SlotReleased] else []))
               (if pi_stop_polled x then ([], Break)
                else if token = [] then ([], Continue)
                else if pi_draining x then ([], Continue)
                else after [Paced] (if pi_stop_paced x then ([], Break) else dispatch_task x token))))"

definition NexusPollLoop_body :: "poll_inputs \<Rightarrow> poll_event list \<times> poll_next" where
  "NexusPollLoop_body x =
     (case pi_poll x of
        Inl e \<Rightarrow> poll_catch False (pi_stop_caught x)
      | Inr token \<Rightarrow>
          (if pi_stop_polled x then ([], Break)
           else if token = [] then ([], Continue)
           else if pi_draining x then ([], Continue)
           else dispatch_task x token))"

text \<open>What every loop body keeps: it frees what it took, and dispatches under a permit.\<close>

definition balanced :: "poll_event list \<times> poll_next \<Rightarrow> bool" where
  "balanced r \<longleftrightarrow>
     snd r = Terminate
     \<or> (count_list (fst r) SlotAcquired = count_list (fst r) SlotReleased
        \<and> count_list (fst r) PermitAcquired = count_list (fst r) PermitReleased)"

lemmas loop_defs = WorkflowPollLoop_body_def ActivityPollLoop_body_def NexusPollLoop_body_def
  dispatch_task_def poll_catch_def after_def

lemma loops_balanced:
  "balanced (WorkflowPollLoop_body a s x)" "balanced (ActivityPollLoop_body se a s x)"
  "balanced (NexusPollLoop_body x)"
  by (auto simp: balanced_def loop_defs split: sum.split option.split wf_error.split)

lemma loops_dispatch:
  "Dispatched t \<in> set (fst (WorkflowPollLoop_body a s x)) \<or> Dispatched t \<in> set (fst (ActivityPollLoop_body se a s x))
     \<or> Dispatched t \<in> set (fst (NexusPollLoop_body x))
   \<Longrightarrow> pi_poll x = Inr t \<and> t \<noteq> [] \<and> \<not> pi_stop_polled x \<and> \<not> pi_draining x \<and> pi_permit x"
  by (auto simp: loop_defs split: sum.splits option.splits wf_error.splits if_splits)

section \<open>Properties of the worker\<close>

text \<open>
  C31. The concurrency gate counts: in every interleaving of threads that ask for permits, hold them
  and give them back, with stops anywhere, the counter is the number of holders, and with a positive
  limit there are never more holders than the limit.
\<close>

theorem gate_bounds_executions:
  assumes "gate_reach n (g, pc)"
  shows "in_flight g = card (holders pc) \<and> (n \<le> 0 \<or> int (card (holders pc)) \<le> n)"
  using gate_reach_ok [OF assms] by (auto simp: gate_ok_def)

lemma gate_one_holder:
  "gate_reach 1 ((new_gate 1)\<lparr>in_flight := 1\<rparr>, (\<lambda>t. Outside)(0 := Holding))"
  by (rule gate_reach.step [OF gate_reach.start acquire]) (simp_all add: gate_Acquire_def new_gate_def)

theorem gate_bounds_executions_witness:
  "int (card (holders ((\<lambda>t. Outside)(0 := Holding)))) \<le> 1"
  using gate_bounds_executions [OF gate_one_holder] by simp

text \<open>
  Stopping drains: once a bounded gate is released, no step adds a holder and the gate stays
  released; a waiting thread is refused at once instead of waiting; and \<^verbatim>\<open>Drain\<close> reports success only
  when no thread holds a permit.
\<close>

theorem stopped_gate_drains:
  assumes "gate_reach n (g, pc)" and "0 < n" and "released g" and "gate_step (g, pc) (g', pc')"
  shows "released g' \<and> holders pc' \<subseteq> holders pc \<and> gate_Acquire g = Some (False, g)
    \<and> (gate_Drain expired g = Some True \<longleftrightarrow> holders pc = {})"
proof -
  have ok: "limit g = n" "finite (holders pc)" "in_flight g = card (holders pc)"
    using gate_reach_ok [OF assms(1)] by (simp_all add: gate_ok_def)
  with stopped_step [OF assms(4)] assms(2,3) show ?thesis
    by (auto simp: gate_Acquire_def gate_Drain_def)
qed

theorem stopped_gate_drains_witness:
  "gate_Acquire ((new_gate 1)\<lparr>in_flight := 1, released := True\<rparr>)
     = Some (False, (new_gate 1)\<lparr>in_flight := 1, released := True\<rparr>)"
proof -
  have r: "gate_reach 1 ((new_gate 1)\<lparr>in_flight := 1, released := True\<rparr>, (\<lambda>t. Outside)(0 := Holding))"
    using gate_reach.step [OF gate_one_holder stop] by (simp add: gate_ReleaseAll_def)
  from stopped_gate_drains [OF r _ _ stop] show ?thesis by simp
qed

text \<open>
  The rate limiter hands out slots at least one interval apart, one per call, none before the
  call that asked for it, whatever the arrival times; and the wait for a slot ends as soon as a
  reading of the clock has reached it or the worker stops, not earlier.
\<close>

theorem rate_limiter_paces:
  assumes "0 \<le> interval"
  shows "sorted_wrt (\<lambda>s s'. s + interval \<le> s') (limiter_run interval slot nows)
    \<and> length (limiter_run interval slot nows) = length nows
    \<and> list_all2 (\<le>) nows (limiter_run interval slot nows)
    \<and> (limiter_wait allowed readings \<noteq> None
         \<longleftrightarrow> list_ex (\<lambda>(stopped, now). stopped \<or> allowed \<le> now) readings)"
proof -
  have "limiter_wait allowed readings \<noteq> None \<longleftrightarrow> list_ex (\<lambda>(stopped, now). stopped \<or> allowed \<le> now) readings"
    by (induction allowed readings rule: limiter_wait.induct) auto
  then show ?thesis
    using assms by (simp add: limiter_run_spaced limiter_run_length limiter_run_waits list_all2_conv_all_nth)
qed

theorem rate_limiter_paces_witness:
  "sorted_wrt (\<lambda>s s'. s + 10 \<le> s') (limiter_run 10 0 [1, 2, 40]) \<and> limiter_run 10 0 [1, 2, 40] = [1, 11, 40]"
  using rate_limiter_paces [of 10 0 "[1, 2, 40]"] by (simp add: limiter_Acquire_def Let_def)

text \<open>
  C32. The poller scaler stays within its bounds under any sequence of calls: the target and the number
  of active scalable pollers lie between zero and the maximum, and the streak of empty polls below
  its threshold. Tasks raise the target one by one to the maximum; a full streak of empty polls
  lowers it by exactly one.
\<close>

theorem scaler_within_bounds:
  assumes "0 \<le> max_s"
  shows "let s = fold scaler_op ops (Configure hot max_s empties new_scaler) in
    scaler_ok s
    \<and> target ((Report True ^^ k) s) = min (max_scalable s) (target s + int k)
    \<and> (Report False ^^ nat (empty_threshold s - empty_streak s)) s
        = s\<lparr>empty_streak := 0, target := max 0 (target s - 1)\<rparr>"
proof -
  have "scaler_ok (fold scaler_op ops s)" if "scaler_ok s" for s
    using that by (induction ops arbitrary: s) (simp_all add: scaler_op_ok)
  from this [OF Configure_ok [OF assms]] show ?thesis
    unfolding Let_def using Report_tasks Report_empty_run(2) by blast
qed

theorem scaler_within_bounds_witness:
  "scaler_ok (fold scaler_op [CallReport True, CallAcquire, CallReport False, CallRelease] (Configure 1 3 1 new_scaler))"
  using scaler_within_bounds [of 3 "[CallReport True, CallAcquire, CallReport False, CallRelease]" 1 1]
  unfolding Let_def by simp

text \<open>
  The pool sizes fit together: for any options, the scaler's maximum is the number of poll loops
  that will ask it for a slot, and its hot count the number of the others, so with every scalable
  poller active all loops of the pool poll.
\<close>

theorem pool_matches_scaler:
  assumes "0 \<le> loops"
  shows "max_scalable (Start_scaler opts loops (base_pollers n) s)
      = loops * int (card {i. 0 \<le> i \<and> i < pool_size opts (base_pollers n) \<and> is_scalable opts i})
    \<and> always_hot (Start_scaler opts loops (base_pollers n) s)
      = loops * int (card {i. 0 \<le> i \<and> i < pool_size opts (base_pollers n) \<and> \<not> is_scalable opts i})"
  using scalable_indices [of "base_pollers n" loops opts s] assms by (simp add: base_pollers_def)

theorem pool_matches_scaler_witness:
  "max_scalable (Start_scaler \<lparr>workflow_task_pollers = 2, activity_task_pollers = 2, enable_poller_autoscaling = True,
       min_concurrent_pollers = 1, max_concurrent_pollers = 4, autoscaling_idle_polls_before_park = 2\<rparr> 2
       (base_pollers 2) new_scaler) = 2 * int (card {i :: int. 0 \<le> i \<and> i < 4 \<and> 1 \<le> i})"
  using pool_matches_scaler [of 2 "\<lparr>workflow_task_pollers = 2, activity_task_pollers = 2, enable_poller_autoscaling = True,
       min_concurrent_pollers = 1, max_concurrent_pollers = 4, autoscaling_idle_polls_before_park = 2\<rparr>" 2 new_scaler]
  by (simp add: pool_size_def base_pollers_def min_hot_def is_scalable_def)

text \<open>
  C33. No iteration of a poll loop leaks: on every path, exceptions included, a scaler slot taken is
  freed once and a permit taken is given back once, unless the process ends; and a task is
  dispatched only if the poll returned it, under a permit, and never once the stop or the drain flag
  was seen.
\<close>

theorem poll_loops_do_not_leak:
  "balanced (WorkflowPollLoop_body a s x) \<and> balanced (ActivityPollLoop_body se a s x) \<and> balanced (NexusPollLoop_body x)
   \<and> {t. Dispatched t \<in> set (fst (WorkflowPollLoop_body a s x)) \<union> set (fst (ActivityPollLoop_body se a s x))
          \<union> set (fst (NexusPollLoop_body x))}
     \<subseteq> {t. pi_poll x = Inr t \<and> t \<noteq> [] \<and> \<not> pi_stop_polled x \<and> \<not> pi_draining x \<and> pi_permit x}"
  using loops_balanced loops_dispatch [of _ a s x se] by blast

text \<open>
  The sticky-cache metric counts each hit once as long as the readings reach the mutex in order;
  the reading is taken before the mutex, so two loops can pass it out of order, and then the
  metric counts twice: readings 6, 5, 7 of a counter that stands at 7 emit 8.
\<close>

theorem sticky_metric_needs_order:
  "(sorted (l # rs) \<longrightarrow> emitted_total l rs = last (l # rs) - l) \<and> emitted_total 0 [6, 5, 7] = 8"
  using emitted_total_sorted [of l rs] by (simp add: emit_delta_def)

theorem sticky_metric_needs_order_witness: "emitted_total 0 [2, 5, 7] = 7"
  using sticky_metric_needs_order [of 0 "[2, 5, 7]"] by simp

definition session_step :: "int \<Rightarrow> bool \<Rightarrow> int \<Rightarrow> int" where
  "session_step cap create active =
     (if create then (case create_session cap active of Inl e \<Rightarrow> active | Inr a \<Rightarrow> a) else complete_session active)"

text \<open>
  Session slots: over any sequence of creations and completions on a worker with a positive
  capacity the number of open sessions stays between zero and the capacity, and a creation is
  refused exactly when the worker is full.
\<close>

theorem sessions_within_capacity:
  assumes "0 < cap"
  shows "0 \<le> fold (session_step cap) ops 0 \<and> fold (session_step cap) ops 0 \<le> cap
    \<and> ((\<exists>e. create_session cap (fold (session_step cap) ops 0) = Inl e) \<longleftrightarrow> fold (session_step cap) ops 0 = cap)"
proof -
  have "0 \<le> fold (session_step cap) ops a \<and> fold (session_step cap) ops a \<le> cap" if "0 \<le> a" "a \<le> cap" for a
    using that assms
    by (induction ops arbitrary: a) (auto simp: session_step_def create_session_def complete_session_def)
  from this [of 0] assms show ?thesis by (auto simp: create_session_def)
qed

theorem sessions_within_capacity_witness: "fold (session_step 1) [True, True, False] 0 \<le> 1"
  using sessions_within_capacity [of 1 "[True, True, False]"] by simp

end
