(* ===== verification/Poller_Stop.thy ===== *)
theory Poller_Stop
  imports Worker
begin

text \<open>
  Stopping a worker whose pollers wait on a condition variable (\<^verbatim>\<open>WorkerImpl::Stop\<close>,
  \<^verbatim>\<open>src/internal/worker_impl.cpp\<close>, with \<^verbatim>\<open>ConcurrencyGate\<close> and \<^verbatim>\<open>PollerScaler\<close> of \<^verbatim>\<open>worker_impl.h\<close>). Here a wait
  is taken apart: the predicate is evaluated under the mutex, and only then does the thread release the
  mutex and block, in one step. The gate sets its flag under that mutex and then notifies; for the
  scaler, \<^verbatim>\<open>Stop\<close> stores the flag and notifies without it.
\<close>

section \<open>Waiting on a monitor\<close>

text \<open>
  What a monitor does under its mutex: \<open>try_acquire\<close> is the body of \<^verbatim>\<open>Acquire\<close> for a value of the stop flag
  (\<open>None\<close>: the predicate of the wait is false), \<open>give_back\<close> that of \<^verbatim>\<open>Release\<close>, and \<open>feedback\<close> that of a call by
  another thread, with whether it notifies. \<open>stop_locks\<close>: the flag is set under the mutex.
\<close>

record 'o monitor =
  try_acquire :: "bool \<Rightarrow> 'o \<Rightarrow> (bool \<times> 'o) option"
  give_back :: "'o \<Rightarrow> 'o"
  feedback :: "bool \<Rightarrow> 'o \<Rightarrow> 'o \<times> bool"
  stop_locks :: bool

definition gate_monitor :: "ConcurrencyGate monitor" where
  "gate_monitor =
     \<lparr>try_acquire = (\<lambda>stop g. gate_Acquire (if stop then gate_ReleaseAll g else g)),
      give_back = gate_Release, feedback = (\<lambda>b g. (g, False)), stop_locks = True\<rparr>"

definition scaler_monitor :: "PollerScaler monitor" where
  "scaler_monitor =
     \<lparr>try_acquire = scaler_Acquire, give_back = scaler_Release,
      feedback = (\<lambda>got_task s. (Report got_task s, got_task \<and> target s < max_scalable s)), stop_locks = False\<rparr>"

text \<open>
  A poller: at the top of its loop, past the test of the flag, inside \<^verbatim>\<open>Acquire\<close> holding the mutex, about to
  block, blocked, notified, holding a slot, and out of the loop.
\<close>

datatype poller_pc = Top | Entering | Checking | Blocking | Waiting | Woken | Inside | Left

datatype stop_pc = Running | FlagSet | Notified

record 'o pool =
  obj :: 'o
  stopping :: bool
  mutex :: "nat option"
  pcs :: "nat \<Rightarrow> poller_pc"
  stopper :: stop_pc
  hot :: bool

definition wake_all :: "(nat \<Rightarrow> poller_pc) \<Rightarrow> nat \<Rightarrow> poller_pc" where
  "wake_all pc t = (if pc t = Waiting then Woken else pc t)"

definition goes :: "nat \<Rightarrow> poller_pc \<Rightarrow> 'o pool \<Rightarrow> 'o pool" where
  "goes t p s = s\<lparr>pcs := (pcs s)(t := p)\<rparr>"

text \<open>
  The steps of the pollers, of the always-hot pollers, which report to the scaler until they see the
  flag, and of the thread in \<^verbatim>\<open>Stop\<close>. A thread that gives its slot back wakes the waiters: all of them, which
  for the scaler's \<^verbatim>\<open>notify_one\<close> is more than the code does.
\<close>

inductive pool_step :: "'o monitor \<Rightarrow> 'o pool \<Rightarrow> 'o pool \<Rightarrow> bool" for M :: "'o monitor" where
  enter: "pcs s t = Top \<Longrightarrow> \<not> stopping s \<Longrightarrow> pool_step M s (goes t Entering s)"
| leave: "pcs s t = Top \<Longrightarrow> stopping s \<Longrightarrow> pool_step M s (goes t Left s)"
| lock: "pcs s t \<in> {Entering, Woken} \<Longrightarrow> mutex s = None \<Longrightarrow>
     pool_step M s (goes t Checking (s\<lparr>mutex := Some t\<rparr>))"
| admitted: "pcs s t = Checking \<Longrightarrow> try_acquire M (stopping s) (obj s) = Some (True, x) \<Longrightarrow>
     pool_step M s (goes t Inside (s\<lparr>obj := x, mutex := None\<rparr>))"
| refused: "pcs s t = Checking \<Longrightarrow> try_acquire M (stopping s) (obj s) = Some (False, x) \<Longrightarrow>
     pool_step M s (goes t Left (s\<lparr>obj := x, mutex := None\<rparr>))"
| not_yet: "pcs s t = Checking \<Longrightarrow> try_acquire M (stopping s) (obj s) = None \<Longrightarrow>
     pool_step M s (goes t Blocking s)"
| block: "pcs s t = Blocking \<Longrightarrow> pool_step M s (goes t Waiting (s\<lparr>mutex := None\<rparr>))"
| release: "pcs s t = Inside \<Longrightarrow> mutex s = None \<Longrightarrow>
     pool_step M s (s\<lparr>obj := give_back M (obj s), pcs := wake_all ((pcs s)(t := Top))\<rparr>)"
| report: "hot s \<Longrightarrow> mutex s = None \<Longrightarrow> feedback M b (obj s) = (x, notifies) \<Longrightarrow>
     pool_step M s (s\<lparr>obj := x, pcs := (if notifies then wake_all (pcs s) else pcs s)\<rparr>)"
| hot_leaves: "hot s \<Longrightarrow> stopping s \<Longrightarrow> pool_step M s (s\<lparr>hot := False\<rparr>)"
| set_flag: "stopper s = Running \<Longrightarrow> stop_locks M \<longrightarrow> mutex s = None \<Longrightarrow>
     pool_step M s (s\<lparr>stopping := True, stopper := FlagSet\<rparr>)"
| notify: "stopper s = FlagSet \<Longrightarrow> pool_step M s (s\<lparr>stopper := Notified, pcs := wake_all (pcs s)\<rparr>)"

inductive_cases pool_stepE: "pool_step M s s'"

definition new_pool :: "nat \<Rightarrow> bool \<Rightarrow> 'o \<Rightarrow> 'o pool" where
  "new_pool n h x = \<lparr>obj = x, stopping = False, mutex = None, pcs = (\<lambda>t. if t < n then Top else Left),
     stopper = Running, hot = h\<rparr>"

inductive pool_reach :: "'o monitor \<Rightarrow> 'o pool \<Rightarrow> 'o pool \<Rightarrow> bool" for M :: "'o monitor" and s0 :: "'o pool" where
  start: "pool_reach M s0 s0"
| step: "pool_reach M s0 s \<Longrightarrow> pool_step M s s' \<Longrightarrow> pool_reach M s0 s'"

inductive pool_run :: "'o monitor \<Rightarrow> nat \<Rightarrow> 'o pool \<Rightarrow> 'o pool \<Rightarrow> bool" for M :: "'o monitor" where
  none: "pool_run M 0 s s"
| more: "pool_step M s s' \<Longrightarrow> pool_run M k s' s'' \<Longrightarrow> pool_run M (Suc k) s s''"


section \<open>A monitor that sets its flag under its mutex\<close>

text \<open>
  The invariant of a stop: the mutex belongs to the thread between lock and wait; once the flag is set
  no thread is about to block; once the notification is out none is blocked.
\<close>

fun holding :: "poller_pc \<Rightarrow> bool" where
  "holding Checking = True"
| "holding Blocking = True"
| "holding _ = False"

definition owner_ok :: "(nat \<Rightarrow> poller_pc) \<Rightarrow> nat option \<Rightarrow> bool" where
  "owner_ok pc m \<longleftrightarrow> (\<forall>t. holding (pc t) \<longleftrightarrow> m = Some t)"

definition pool_ok :: "nat \<Rightarrow> 'o pool \<Rightarrow> bool" where
  "pool_ok n s \<longleftrightarrow>
     owner_ok (pcs s) (mutex s)
     \<and> (stopping s \<longrightarrow> (\<forall>t. pcs s t \<noteq> Blocking))
     \<and> (stopper s = Running \<longleftrightarrow> \<not> stopping s)
     \<and> (stopper s = Notified \<longrightarrow> (\<forall>t. pcs s t \<noteq> Waiting))
     \<and> \<not> hot s \<and> (\<forall>t \<ge> n. pcs s t = Left)"

lemma owner_ok_upd:
  "owner_ok pc m \<Longrightarrow> holding (pc t) = holding p \<Longrightarrow> owner_ok (pc(t := p)) m"
  "owner_ok pc None \<Longrightarrow> holding p \<Longrightarrow> owner_ok (pc(t := p)) (Some t)"
  "owner_ok pc m \<Longrightarrow> holding (pc t) \<Longrightarrow> \<not> holding p \<Longrightarrow> owner_ok (pc(t := p)) None"
  by (auto simp: owner_ok_def)

lemma holding_wake: "holding (wake_all pc t) = holding (pc t)"
  by (simp add: wake_all_def)

lemma owner_ok_wake [simp]: "owner_ok (wake_all pc) m = owner_ok pc m"
  by (simp add: owner_ok_def holding_wake)

lemma wake_all_simps [simp]:
  "wake_all pc t \<noteq> Waiting" "wake_all pc t = Blocking \<longleftrightarrow> pc t = Blocking"
  "wake_all pc t = Checking \<longleftrightarrow> pc t = Checking" "pc t = Left \<Longrightarrow> wake_all pc t = Left"
  by (auto simp: wake_all_def)

lemma goes_simps [simp]:
  "pcs (goes t p s) = (pcs s)(t := p)" "stopping (goes t p s) = stopping s" "mutex (goes t p s) = mutex s"
  "stopper (goes t p s) = stopper s" "hot (goes t p s) = hot s" "obj (goes t p s) = obj s"
  by (simp_all add: goes_def)

lemma new_pool_ok: "pool_ok n (new_pool n False x)"
  by (auto simp: pool_ok_def new_pool_def owner_ok_def)

lemma pool_ok_beyond: "pool_ok n s \<Longrightarrow> pcs s t \<noteq> Left \<Longrightarrow> t < n"
  unfolding pool_ok_def by (meson not_less)

fun pc_rank :: "poller_pc \<Rightarrow> nat" where
  "pc_rank Left = 0"
| "pc_rank Top = 1"
| "pc_rank Inside = 2"
| "pc_rank Blocking = 2"
| "pc_rank Waiting = 2"
| "pc_rank Checking = 3"
| "pc_rank Entering = 4"
| "pc_rank Woken = 4"

definition pool_rank :: "nat \<Rightarrow> 'o pool \<Rightarrow> nat" where
  "pool_rank n s = (\<Sum>t < n. pc_rank (pcs s t))"

lemma pool_rank_goes:
  assumes "t < n" and "pc_rank p < pc_rank (pcs s t)"
  shows "(\<Sum>i < n. pc_rank (((pcs s)(t := p)) i)) < pool_rank n s"
  unfolding pool_rank_def using assms
  by (intro sum_strict_mono_ex1) auto

lemma pc_rank_le: "pc_rank p \<le> 4"
  by (cases p) simp_all

lemma pool_rank_bound: "pool_rank n s \<le> 4 * n"
  using sum_bounded_above [of "{..<n}" "\<lambda>t. pc_rank (pcs s t)" 4] by (simp add: pool_rank_def pc_rank_le)

locale stop_safe =
  fixes M :: "'o monitor"
  assumes locks: "stop_locks M"
    and decides: "try_acquire M True x \<noteq> None"
begin

lemma step_ok: "pool_step M s s' \<Longrightarrow> pool_ok n s \<Longrightarrow> pool_ok n s'"
proof (induction rule: pool_step.induct)
  case (not_yet s t)
  then have "\<not> stopping s" using decides by (cases "stopping s") auto
  with not_yet show ?case using pool_ok_beyond [of n s t] by (auto simp: pool_ok_def owner_ok_upd)
next
  case (lock s t)
  then show ?case using pool_ok_beyond [of n s t] by (auto simp: pool_ok_def owner_ok_upd)
next
  case (release s t)
  then show ?case using pool_ok_beyond [of n s t] by (auto simp: pool_ok_def owner_ok_upd)
next
  case (set_flag s)
  then have "owner_ok (pcs s) None" using locks by (simp add: pool_ok_def)
  then have "pcs s t \<noteq> Blocking" for t by (auto simp: owner_ok_def dest: spec [of _ t])
  with set_flag show ?case by (auto simp: pool_ok_def)
qed (use pool_ok_beyond in \<open>fastforce simp: pool_ok_def owner_ok_upd\<close>)+

lemma reach_ok: "pool_reach M (new_pool n False x) s \<Longrightarrow> pool_ok n s"
proof (induction rule: pool_reach.induct)
  case start
  show ?case by (rule new_pool_ok)
next
  case (step s s')
  then show ?case using step_ok by blast
qed

lemma notified_step:
  assumes "pool_step M s s'" and "pool_ok n s" and "stopper s = Notified"
  shows "stopper s' = Notified \<and> pool_rank n s' < pool_rank n s"
  using assms
proof (induction rule: pool_step.induct)
  case (release s t)
  then have "wake_all ((pcs s)(t := Top)) = (pcs s)(t := Top)"
    by (auto simp: pool_ok_def wake_all_def fun_eq_iff)
  moreover have "t < n" using release pool_ok_beyond by fastforce
  ultimately show ?case
    using release pool_rank_goes [of t n Top s] by (simp add: pool_rank_def)
next
  case (enter s t)
  then show ?case by (simp add: pool_ok_def)
next
  case (leave s t)
  then show ?case using pool_rank_goes [of t n Left s] pool_ok_beyond [of n s t] by (simp add: pool_rank_def)
next
  case (lock s t)
  then show ?case using pool_rank_goes [of t n Checking s] pool_ok_beyond [of n s t] by (auto simp: pool_rank_def)
next
  case (admitted s t x)
  then show ?case using pool_rank_goes [of t n Inside s] pool_ok_beyond [of n s t] by (simp add: pool_rank_def)
next
  case (refused s t x)
  then show ?case using pool_rank_goes [of t n Left s] pool_ok_beyond [of n s t] by (simp add: pool_rank_def)
next
  case (not_yet s t)
  then show ?case using decides by (cases "stopping s") (auto simp: pool_ok_def)
qed (auto simp: pool_ok_def)

lemma notified_run:
  "pool_run M k s s' \<Longrightarrow> pool_ok n s \<Longrightarrow> stopper s = Notified \<Longrightarrow> k + pool_rank n s' \<le> pool_rank n s \<and> pool_ok n s'"
proof (induction rule: pool_run.induct)
  case (more s s' k s'')
  with notified_step [OF more.hyps(1) more.prems] step_ok [OF more.hyps(1)] show ?case by fastforce
qed simp

text \<open>No step is left only when every poller has left its loop: the one with the mutex, or else any, can move.\<close>

lemma notified_stuck:
  assumes "pool_ok n s" and "stopper s = Notified" and "\<And>s'. \<not> pool_step M s s'"
  shows "pcs s t = Left"
proof -
  have flag: "stopping s" and wait: "pcs s u \<noteq> Waiting" "pcs s u \<noteq> Blocking" for u
    using assms(1,2) by (auto simp: pool_ok_def)
  obtain b x where acq: "try_acquire M (stopping s) (obj s) = Some (b, x)"
    using decides [of "obj s"] flag by (cases "try_acquire M True (obj s)") auto
  have check: "pcs s u \<noteq> Checking" for u
    using assms(3) pool_step.admitted [of s u M x] pool_step.refused [of s u M x] acq by (cases b) auto
  have "\<not> holding (pcs s u)" for u using check [of u] wait(2) [of u] by (cases "pcs s u") simp_all
  with assms(1) have free: "mutex s = None" by (cases "mutex s") (simp_all add: pool_ok_def owner_ok_def)
  show ?thesis
  proof (cases "pcs s t")
    case Top
    with flag assms(3) pool_step.leave [of s t M] show ?thesis by blast
  next
    case Entering
    with free assms(3) pool_step.lock [of s t M] show ?thesis by simp
  next
    case Woken
    with free assms(3) pool_step.lock [of s t M] show ?thesis by simp
  next
    case Inside
    with free assms(3) pool_step.release [of s t M] show ?thesis by blast
  qed (use check wait in auto)
qed

end

interpretation gate: stop_safe gate_monitor
  by unfold_locales (auto simp: gate_monitor_def gate_Acquire_def gate_ReleaseAll_def)

section \<open>Properties of stopping\<close>

text \<open>
  C19. Stopping a gate wakes everybody: for any number of pollers in any interleaving, once the flag
  has been set under the mutex and the notification is out, no poller is blocked in \<^verbatim>\<open>Acquire\<close> or will block
  again; every further run is at most four steps per poller long, and it can only end with every
  poller out of its loop, so the join in \<^verbatim>\<open>Stop\<close> returns.
\<close>

theorem gate_stop_joins:
  assumes "pool_reach gate_monitor (new_pool n False (new_gate cap)) s" and "stopper s = Notified"
    and "pool_run gate_monitor k s s'"
  shows "k \<le> 4 * n \<and> (\<forall>t. pcs s' t \<noteq> Waiting \<and> pcs s' t \<noteq> Blocking)
    \<and> ((\<nexists>s''. pool_step gate_monitor s' s'') \<longrightarrow> (\<forall>t. pcs s' t = Left))"
proof -
  have ok: "pool_ok n s" by (rule gate.reach_ok [OF assms(1)])
  from gate.notified_run [OF assms(3) ok assms(2)] pool_rank_bound [of n s]
  have k: "k \<le> 4 * n" and ok': "pool_ok n s'" by auto
  have "stopper s' = Notified" using assms(3,2) ok
  proof (induction rule: pool_run.induct)
    case (more s s' k s'')
    then show ?case using gate.notified_step gate.step_ok by blast
  qed simp
  with k ok' gate.notified_stuck [OF ok'] show ?thesis by (auto simp: pool_ok_def)
qed

theorem gate_stop_joins_witness:
  "\<exists>s s'. pool_reach gate_monitor (new_pool 1 False (new_gate 2)) s \<and> stopper s = Notified
    \<and> pool_run gate_monitor 1 s s' \<and> pcs s' 0 = Left \<and> (\<forall>t. pcs s' t \<noteq> Waiting \<and> pcs s' t \<noteq> Blocking)"
proof -
  let ?M = gate_monitor and ?s0 = "new_pool 1 False (new_gate 2)"
  let ?s1 = "?s0\<lparr>stopping := True, stopper := FlagSet\<rparr>"
  let ?s2 = "?s1\<lparr>stopper := Notified, pcs := wake_all (pcs ?s1)\<rparr>"
  let ?s3 = "goes 0 Left ?s2"
  have "pool_step ?M ?s0 ?s1" by (rule pool_step.set_flag) (simp_all add: new_pool_def)
  moreover have "pool_step ?M ?s1 ?s2" by (rule pool_step.notify) simp
  ultimately have r: "pool_reach ?M ?s0 ?s2" by (blast intro: pool_reach.intros)
  have "pool_step ?M ?s2 ?s3" by (rule pool_step.leave) (simp_all add: new_pool_def wake_all_def)
  then have run: "pool_run ?M 1 ?s2 ?s3" using pool_run.more [OF _ pool_run.none] by simp
  from gate_stop_joins [OF r _ run] r run show ?thesis by (intro exI [of _ ?s2] exI [of _ ?s3]) simp
qed

text \<open>
  C20. Stopping the scaler can miss a parked poller: the flag is stored and the condition variable
  notified without the mutex, so a poller that has seen the flag unset and is about to block misses
  both. The state is reachable with one scalable poller; in it the poller is blocked, the flag is set,
  the notification is over, and no step of any thread remains, so the join in \<^verbatim>\<open>Stop\<close> never returns.
\<close>

theorem parked_poller_misses_stop:
  "\<exists>s. pool_reach scaler_monitor (new_pool 1 True (Configure 1 3 5 new_scaler)) s
    \<and> stopper s = Notified \<and> stopping s \<and> pcs s 0 = Waiting \<and> (\<nexists>s'. pool_step scaler_monitor s s')"
proof -
  let ?M = scaler_monitor and ?s0 = "new_pool 1 True (Configure 1 3 5 new_scaler)"
  let ?s1 = "goes 0 Entering ?s0"
  let ?s2 = "goes 0 Checking (?s1\<lparr>mutex := Some 0\<rparr>)"
  let ?s3 = "goes 0 Blocking ?s2"
  let ?s4 = "?s3\<lparr>stopping := True, stopper := FlagSet\<rparr>"
  let ?s5 = "?s4\<lparr>stopper := Notified, pcs := wake_all (pcs ?s4)\<rparr>"
  let ?s6 = "goes 0 Waiting (?s5\<lparr>mutex := None\<rparr>)"
  let ?s7 = "?s6\<lparr>hot := False\<rparr>"
  have st1: "pool_step ?M ?s0 ?s1" by (rule pool_step.enter) (simp_all add: new_pool_def)
  have st2: "pool_step ?M ?s1 ?s2" by (rule pool_step.lock) (simp_all add: new_pool_def)
  have st3: "pool_step ?M ?s2 ?s3"
    by (rule pool_step.not_yet)
      (simp_all add: new_pool_def scaler_monitor_def scaler_Acquire_def Configure_def new_scaler_def)
  have st4: "pool_step ?M ?s3 ?s4" by (rule pool_step.set_flag) (simp_all add: new_pool_def scaler_monitor_def)
  have st5: "pool_step ?M ?s4 ?s5" by (rule pool_step.notify) simp
  have st6: "pool_step ?M ?s5 ?s6" by (rule pool_step.block) simp
  have st7: "pool_step ?M ?s6 ?s7" by (rule pool_step.hot_leaves) (simp_all add: new_pool_def)
  have "pool_reach ?M ?s0 ?s7"
    by (intro pool_reach.step [OF _ st7] pool_reach.step [OF _ st6] pool_reach.step [OF _ st5]
        pool_reach.step [OF _ st4] pool_reach.step [OF _ st3] pool_reach.step [OF _ st2]
        pool_reach.step [OF _ st1] pool_reach.start)
  moreover have "pcs ?s7 t = (if t = 0 then Waiting else Left)" for t
    by (simp add: new_pool_def wake_all_def)
  moreover have "\<not> pool_step ?M s s'"
    if "\<And>t. pcs s t = (if t = 0 then Waiting else Left)" "\<not> hot s" "stopper s = Notified" for s s'
    using that by (auto elim: pool_stepE split: if_splits)
  ultimately show ?thesis by (intro exI [of _ ?s7]) (simp add: new_pool_def)
qed

end
