(* ===== verification/Lru_Cache.thy ===== *)
theory Lru_Cache
  imports Prelude "HOL-Library.AList"
begin

text \<open>
  The bounded least-recently-used cache (\<^verbatim>\<open>src/internal/lru_cache.h\<close>) that holds the sticky
  workflow cache. The concrete state keeps what the code keeps: a linked list of nodes, each with
  an identity that survives a splice, and a hash index from keys to node identities (an
  association list with distinct keys, so that its size can be computed). The abstract view is
  the list of entries from most to least recently used; the locale \<open>lru\<close> states the contract
  of the operations over that view, and the interpretation proves it for the code.
\<close>

section \<open>The cache\<close>

type_synonym ('k, 'v) node = "nat \<times> 'k \<times> 'v"

record ('k, 'v) LruCache =
  capacity :: nat
  order :: "('k, 'v) node list"
  index :: "('k \<times> nat) list"
  fresh :: nat

definition new_cache :: "nat \<Rightarrow> ('k, 'v) LruCache" where
  "new_cache cap = \<lparr>capacity = cap, order = [], index = [], fresh = 0\<rparr>"

text \<open>
  Dereferencing an iterator, and \<^verbatim>\<open>splice\<close> of one node to the front. An iterator that points to
  no node of the list would be undefined behaviour; the invariant below excludes it.
\<close>

definition deref :: "nat \<Rightarrow> ('k, 'v) node list \<Rightarrow> ('k, 'v) node option" where
  "deref it xs = find (\<lambda>n. fst n = it) xs"

definition splice_front :: "nat \<Rightarrow> ('k, 'v) node list \<Rightarrow> ('k, 'v) node list" where
  "splice_front it xs =
     (case deref it xs of None \<Rightarrow> xs | Some n \<Rightarrow> n # filter (\<lambda>m. fst m \<noteq> it) xs)"

definition assign_value :: "nat \<Rightarrow> 'v \<Rightarrow> ('k, 'v) node list \<Rightarrow> ('k, 'v) node list" where
  "assign_value it v xs = map (\<lambda>n. if fst n = it then (it, fst (snd n), v) else n) xs"

definition Get :: "'k \<Rightarrow> ('k, 'v) LruCache \<Rightarrow> 'v option \<times> ('k, 'v) LruCache" where
  "Get key c =
     (case map_of (index c) key of
        None \<Rightarrow> (None, c)
      | Some it \<Rightarrow>
          (let c' = c\<lparr>order := splice_front it (order c)\<rparr>
           in (map_option (snd \<circ> snd) (deref it (order c')), c')))"

function EvictToCapacity :: "('k, 'v) LruCache \<Rightarrow> ('k, 'v) LruCache" where
  "EvictToCapacity c =
     (if capacity c \<noteq> 0 \<and> length (index c) > capacity c \<and> order c \<noteq> [] then
        (let victim = last (order c)
         in EvictToCapacity
              (c\<lparr>index := AList.delete (fst (snd victim)) (index c), order := butlast (order c)\<rparr>))
      else c)"
  by pat_completeness auto
termination
  by (relation "measure (\<lambda>c. length (order c))") auto

declare EvictToCapacity.simps [simp del]

text \<open>The two branches of \<^verbatim>\<open>Put\<close>: overwrite and splice, or emplace at the front.\<close>

definition put_front :: "'k \<Rightarrow> 'v \<Rightarrow> ('k, 'v) LruCache \<Rightarrow> ('k, 'v) LruCache" where
  "put_front key v c =
     (case map_of (index c) key of
        Some it \<Rightarrow> c\<lparr>order := splice_front it (assign_value it v (order c))\<rparr>
      | None \<Rightarrow> c\<lparr>order := (fresh c, key, v) # order c, index := (key, fresh c) # index c,
                  fresh := Suc (fresh c)\<rparr>)"

definition Put :: "'k \<Rightarrow> 'v \<Rightarrow> ('k, 'v) LruCache \<Rightarrow> ('k, 'v) LruCache" where
  "Put key v c = EvictToCapacity (put_front key v c)"

definition Erase :: "'k \<Rightarrow> ('k, 'v) LruCache \<Rightarrow> ('k, 'v) LruCache" where
  "Erase key c =
     (case map_of (index c) key of
        None \<Rightarrow> c
      | Some it \<Rightarrow> c\<lparr>order := filter (\<lambda>n. fst n \<noteq> it) (order c), index := AList.delete key (index c)\<rparr>)"

definition Contains :: "'k \<Rightarrow> ('k, 'v) LruCache \<Rightarrow> bool" where
  "Contains key c \<longleftrightarrow> map_of (index c) key \<noteq> None"

definition cache_size :: "('k, 'v) LruCache \<Rightarrow> nat" where
  "cache_size c = length (index c)"

section \<open>The representation invariant\<close>

definition entries :: "('k, 'v) LruCache \<Rightarrow> ('k \<times> 'v) list" where
  "entries c = map snd (order c)"

text \<open>
  Every node has its own identity, every key occurs in one node, and the index sends exactly the
  keys of the list to the identity of their node.
\<close>

definition linked :: "('k, 'v) node list \<Rightarrow> ('k \<times> nat) list \<Rightarrow> bool" where
  "linked xs ix \<longleftrightarrow>
     distinct (map fst xs) \<and> distinct (map (fst \<circ> snd) xs) \<and> distinct (map fst ix)
     \<and> set ix = (\<lambda>n. (fst (snd n), fst n)) ` set xs"

definition wf_cache :: "('k, 'v) LruCache \<Rightarrow> bool" where
  "wf_cache c \<longleftrightarrow>
     linked (order c) (index c) \<and> (\<forall>n \<in> set (order c). fst n < fresh c)
     \<and> (capacity c \<noteq> 0 \<longrightarrow> length (index c) \<le> capacity c)"

section \<open>The abstract contract\<close>

text \<open>Moving a key to the front of the recency list, and cutting the list to the capacity.\<close>

definition touch :: "'k \<Rightarrow> 'v \<Rightarrow> ('k \<times> 'v) list \<Rightarrow> ('k \<times> 'v) list" where
  "touch k v es = (k, v) # filter (\<lambda>e. fst e \<noteq> k) es"

definition trim :: "nat \<Rightarrow> 'a list \<Rightarrow> 'a list" where
  "trim cap es = (if cap = 0 then es else take cap es)"

definition spec_get :: "'k \<Rightarrow> ('k \<times> 'v) list \<Rightarrow> 'v option \<times> ('k \<times> 'v) list" where
  "spec_get k es =
     (case map_of es k of None \<Rightarrow> (None, es) | Some v \<Rightarrow> (Some v, touch k v es))"

lemma set_touch: "fst ` set (touch k v es) = insert k (fst ` set es)"
  by (auto simp: touch_def image_iff)

lemma distinct_touch: "distinct (map fst es) \<Longrightarrow> distinct (map fst (touch k v es))"
  by (auto simp: touch_def distinct_map inj_on_def)

lemma touch_touch: "touch k v (touch k w es) = touch k v es"
  by (simp add: touch_def)

lemma map_of_touch: "map_of (touch k v es) = (map_of es)(k \<mapsto> v)"
proof
  fix x
  show "map_of (touch k v es) x = ((map_of es)(k \<mapsto> v)) x"
    by (induction es) (auto simp: touch_def)
qed

lemma map_of_filter_key: "k \<noteq> j \<Longrightarrow> map_of (filter (\<lambda>e. fst e \<noteq> k) es) j = map_of es j"
  by (induction es) auto

lemma length_touch_present:
  "distinct (map fst es) \<Longrightarrow> k \<in> fst ` set es \<Longrightarrow> length (touch k v es) = length es"
proof (induction es)
  case (Cons e es)
  show ?case
  proof (cases "fst e = k")
    case True
    with Cons.prems have "filter (\<lambda>e. fst e \<noteq> k) es = es"
      by (auto simp: filter_id_conv image_iff)
    with True show ?thesis by (simp add: touch_def)
  next
    case False
    with Cons show ?thesis by (auto simp: touch_def)
  qed
qed simp

lemma length_touch_absent:
  "k \<notin> fst ` set es \<Longrightarrow> touch k v es = (k, v) # es"
  by (auto simp: touch_def filter_id_conv image_iff)

text \<open>
  An entry is kept within \<open>T\<close> when only keys of \<open>T\<close> have been used more recently.
\<close>

definition kept_within :: "'k \<Rightarrow> 'v \<Rightarrow> 'k set \<Rightarrow> ('k \<times> 'v) list \<Rightarrow> bool" where
  "kept_within k v T es \<longleftrightarrow>
     (\<exists>newer older. es = newer @ (k, v) # older \<and> fst ` set newer \<subseteq> T)"

lemma kept_within_touch_self: "kept_within k v {} (touch k v es)"
  by (auto simp: kept_within_def touch_def)

lemma kept_within_touch:
  assumes "kept_within k v T es" and "j \<noteq> k"
  shows "kept_within k v (insert j T) (touch j w es)"
proof -
  from assms(1) obtain newer older
    where es: "es = newer @ (k, v) # older" and T: "fst ` set newer \<subseteq> T"
    by (auto simp: kept_within_def)
  let ?f = "filter (\<lambda>e. fst e \<noteq> j)"
  have "touch j w es = ((j, w) # ?f newer) @ (k, v) # ?f older"
    using assms(2) by (simp add: es touch_def)
  moreover have "fst ` set ((j, w) # ?f newer) \<subseteq> insert j T" using T by auto
  ultimately show ?thesis unfolding kept_within_def by blast
qed

lemma kept_within_mono: "kept_within k v T es \<Longrightarrow> T \<subseteq> U \<Longrightarrow> kept_within k v U es"
  by (auto simp: kept_within_def)

lemma kept_within_filter:
  assumes "kept_within k v T es" and "j \<noteq> k"
  shows "kept_within k v T (filter (\<lambda>e. fst e \<noteq> j) es)"
proof -
  from assms(1) obtain newer older
    where es: "es = newer @ (k, v) # older" and T: "fst ` set newer \<subseteq> T"
    by (auto simp: kept_within_def)
  have "filter (\<lambda>e. fst e \<noteq> j) es
      = filter (\<lambda>e. fst e \<noteq> j) newer @ (k, v) # filter (\<lambda>e. fst e \<noteq> j) older"
    using assms(2) by (simp add: es)
  moreover have "fst ` set (filter (\<lambda>e. fst e \<noteq> j) newer) \<subseteq> T" using T by auto
  ultimately show ?thesis unfolding kept_within_def by blast
qed

lemma kept_within_trim:
  assumes "kept_within k v T es" and "distinct (map fst es)" and "finite T"
    and "n = 0 \<or> card T < n"
  shows "kept_within k v T (trim n es)"
proof -
  from assms(1) obtain newer older
    where es: "es = newer @ (k, v) # older" and T: "fst ` set newer \<subseteq> T"
    by (auto simp: kept_within_def)
  from assms(2) have "distinct (map fst newer)" by (simp add: es)
  then have "length newer = card (fst ` set newer)"
    by (metis distinct_card length_map list.set_map)
  also have "\<dots> \<le> card T" using T assms(3) by (rule card_mono [rotated])
  finally have len: "length newer \<le> card T" .
  show ?thesis
  proof (cases "n = 0")
    case False
    with assms(4) len obtain m where "n - length newer = Suc m"
      by (metis Suc_pred le_less_trans zero_less_diff)
    then have "trim n es = newer @ (k, v) # take m older"
      using False by (simp add: trim_def es)
    with T show ?thesis by (auto simp: kept_within_def)
  qed (use assms(1) in \<open>simp add: trim_def\<close>)
qed

lemma kept_within_map_of:
  assumes "kept_within k v T es" and "distinct (map fst es)"
  shows "map_of es k = Some v"
proof -
  from assms(1) have "(k, v) \<in> set es" by (auto simp: kept_within_def)
  with assms(2) show ?thesis by simp
qed

text \<open>The operations of a client, and the key each of them uses.\<close>

datatype ('k, 'v) cache_op = OpGet 'k | OpPut 'k 'v | OpErase 'k

fun op_key :: "('k, 'v) cache_op \<Rightarrow> 'k" where
  "op_key (OpGet k) = k"
| "op_key (OpPut k v) = k"
| "op_key (OpErase k) = k"

text \<open>
  What a client of the cache relies on: the operations seen through \<open>view\<close>, the recency list.
\<close>

locale lru =
  fixes view :: "'c \<Rightarrow> ('k \<times> 'v) list"
    and cap :: "'c \<Rightarrow> nat"
    and invar :: "'c \<Rightarrow> bool"
    and get :: "'k \<Rightarrow> 'c \<Rightarrow> 'v option \<times> 'c"
    and put :: "'k \<Rightarrow> 'v \<Rightarrow> 'c \<Rightarrow> 'c"
    and erase :: "'k \<Rightarrow> 'c \<Rightarrow> 'c"
  assumes view_distinct: "invar c \<Longrightarrow> distinct (map fst (view c))"
    and view_bound: "invar c \<Longrightarrow> cap c \<noteq> 0 \<Longrightarrow> length (view c) \<le> cap c"
    and view_get: "invar c \<Longrightarrow> (fst (get k c), view (snd (get k c))) = spec_get k (view c)"
    and view_put: "invar c \<Longrightarrow> view (put k v c) = trim (cap c) (touch k v (view c))"
    and view_erase: "invar c \<Longrightarrow> view (erase k c) = filter (\<lambda>e. fst e \<noteq> k) (view c)"
    and cap_get: "cap (snd (get k c)) = cap c"
    and cap_put: "invar c \<Longrightarrow> cap (put k v c) = cap c"
    and cap_erase: "cap (erase k c) = cap c"
    and invar_get: "invar c \<Longrightarrow> invar (snd (get k c))"
    and invar_put: "invar c \<Longrightarrow> invar (put k v c)"
    and invar_erase: "invar c \<Longrightarrow> invar (erase k c)"
begin

definition resident :: "'k \<Rightarrow> 'c \<Rightarrow> bool" where
  "resident k c \<longleftrightarrow> k \<in> fst ` set (view c)"

lemma get_value: "invar c \<Longrightarrow> fst (get k c) = map_of (view c) k"
  using view_get [of c k] by (auto simp: spec_get_def split: option.splits)

lemma get_view:
  "invar c \<Longrightarrow>
     view (snd (get k c)) = (case map_of (view c) k of None \<Rightarrow> view c | Some v \<Rightarrow> touch k v (view c))"
  using view_get [of c k] by (auto simp: spec_get_def split: option.splits)

lemma get_put_same: "invar c \<Longrightarrow> fst (get k (put k v c)) = Some v"
  by (simp add: get_value invar_put view_put trim_def touch_def take_Cons split: nat.split)

lemma erased_absent: "invar c \<Longrightarrow> fst (get k (erase k c)) = None"
  by (auto simp: get_value invar_erase view_erase map_of_eq_None_iff)

lemma erase_other: "invar c \<Longrightarrow> k \<noteq> j \<Longrightarrow> fst (get j (erase k c)) = fst (get j c)"
  by (simp add: get_value invar_erase view_erase map_of_filter_key)

fun client_step :: "('k, 'v) cache_op \<Rightarrow> 'c \<Rightarrow> 'c" where
  "client_step (OpGet k) c = snd (get k c)"
| "client_step (OpPut k v) c = put k v c"
| "client_step (OpErase k) c = erase k c"

lemma invar_client_step: "invar c \<Longrightarrow> invar (client_step op c)"
  by (cases op) (simp_all add: invar_get invar_put invar_erase)

lemma cap_client_step: "invar c \<Longrightarrow> cap (client_step op c) = cap c"
  by (cases op) (simp_all add: cap_get cap_put cap_erase)

lemma kept_client_step:
  assumes "invar c" and "kept_within k v T (view c)" and "op_key op \<in> T" and "op_key op \<noteq> k"
    and "finite T" and "cap c = 0 \<or> card T < cap c"
  shows "kept_within k v T (view (client_step op c))"
proof (cases op)
  case (OpGet j)
  with assms kept_within_touch [OF assms(2), of j] show ?thesis
    by (auto simp: get_view insert_absorb split: option.split)
next
  case (OpPut j w)
  with assms kept_within_touch [OF assms(2), of j w]
  have "kept_within k v T (touch j w (view c))" by (simp add: insert_absorb)
  with OpPut assms show ?thesis
    by (simp add: view_put kept_within_trim distinct_touch view_distinct)
next
  case (OpErase j)
  with assms show ?thesis by (simp add: view_erase kept_within_filter)
qed

lemma kept_client_steps:
  assumes "invar c" and "kept_within k v T (view c)" and "op_key ` set ops \<subseteq> T"
    and "k \<notin> op_key ` set ops" and "finite T" and "cap c = 0 \<or> card T < cap c"
  shows "invar (fold client_step ops c) \<and> kept_within k v T (view (fold client_step ops c))"
  using assms
proof (induction ops arbitrary: c)
  case (Cons op ops)
  then have "kept_within k v T (view (client_step op c))"
    by (intro kept_client_step) auto
  with Cons.prems show ?case
    by (simp add: Cons.IH invar_client_step cap_client_step)
qed simp

lemma recently_put_is_resident:
  assumes "invar c" and "k \<notin> op_key ` set ops"
    and "cap c = 0 \<or> card (op_key ` set ops) < cap c"
  shows "fst (get k (fold client_step ops (put k v c))) = Some v"
proof -
  let ?c = "put k v c" and ?T = "op_key ` set ops"
  have "kept_within k v ?T (touch k v (view c))"
    by (rule kept_within_mono [OF kept_within_touch_self]) simp
  then have "kept_within k v ?T (view ?c)"
    using assms by (simp add: view_put kept_within_trim distinct_touch view_distinct)
  then have "invar (fold client_step ops ?c) \<and> kept_within k v ?T (view (fold client_step ops ?c))"
    using assms by (intro kept_client_steps) (auto simp: invar_put cap_put)
  then show ?thesis by (metis get_value kept_within_map_of view_distinct)
qed

lemma put_evicts_last:
  assumes "invar c" and "cap c = length (view c)" and "cap c \<noteq> 0" and "\<not> resident k c"
  shows "view (put k v c) = (k, v) # butlast (view c)"
  using assms
  by (simp add: view_put trim_def resident_def length_touch_absent take_Cons' butlast_conv_take)

end

section \<open>The code meets the contract\<close>

lemma linked_lookup:
  "linked xs ix \<Longrightarrow> map_of ix k = Some it \<longleftrightarrow> (\<exists>v. (it, k, v) \<in> set xs)"
  by (force simp: linked_def map_of_eq_Some_iff)

lemma linked_lookup_None:
  "linked xs ix \<Longrightarrow> map_of ix k = None \<longleftrightarrow> k \<notin> (fst \<circ> snd) ` set xs"
  by (force simp: linked_def map_of_eq_None_iff)

lemma linked_length:
  assumes "linked xs ix"
  shows "length ix = length xs"
proof -
  let ?g = "\<lambda>n. (fst (snd n), fst n)"
  from assms have "distinct ix" by (simp add: linked_def distinct_map)
  then have "length ix = card (?g ` set xs)"
    using assms by (simp add: linked_def distinct_card [symmetric])
  also have "\<dots> = card (fst ` set xs)"
  proof (rule bij_betw_same_card)
    from assms have "inj_on fst (set xs)" by (simp add: linked_def distinct_map)
    then show "bij_betw snd (?g ` set xs) (fst ` set xs)"
      by (force simp: bij_betw_def inj_on_def image_iff)
  qed
  also have "\<dots> = length xs"
    using assms by (metis distinct_card length_map linked_def list.set_map)
  finally show ?thesis .
qed

text \<open>Around a node of a linked list, neither its identity nor its key occurs again.\<close>

lemma linked_split:
  assumes "linked xs ix" and "(it, k, v) \<in> set xs"
  obtains ys zs where "xs = ys @ (it, k, v) # zs"
    and "it \<notin> fst ` set (ys @ zs)" and "k \<notin> (fst \<circ> snd) ` set (ys @ zs)"
proof -
  from assms(2) obtain ys zs where xs: "xs = ys @ (it, k, v) # zs" by (auto dest: split_list)
  with assms(1) that show thesis by (auto simp: linked_def)
qed

lemma filter_all_id: "(\<And>x. x \<in> set xs \<Longrightarrow> P x) \<Longrightarrow> filter P xs = xs"
  by (simp add: filter_id_conv)

lemma splice_front_split:
  assumes "xs = ys @ (it, k, v) # zs" and "it \<notin> fst ` set (ys @ zs)"
  shows "splice_front it xs = (it, k, v) # ys @ zs"
    and "filter (\<lambda>n. fst n \<noteq> it) xs = ys @ zs"
proof -
  have ys: "filter (\<lambda>n. fst n \<noteq> it) ys = ys" and zs: "filter (\<lambda>n. fst n \<noteq> it) zs = zs"
    using assms(2) by (auto intro!: filter_all_id)
  then show "filter (\<lambda>n. fst n \<noteq> it) xs = ys @ zs" by (simp add: assms(1))
  have "find (\<lambda>n. fst n = it) ys = None"
    using assms(2) by (force simp: find_None_iff)
  then have "deref it xs = Some (it, k, v)"
    unfolding deref_def assms(1) by (induction ys) (auto split: if_splits)
  with ys zs show "splice_front it xs = (it, k, v) # ys @ zs"
    by (simp add: splice_front_def assms(1))
qed

lemma touch_split:
  assumes "k \<notin> (fst \<circ> snd) ` set (ys @ zs)"
  shows "touch k v (map snd (ys @ (it, k, w) # zs)) = (k, v) # map snd (ys @ zs)"
    and "filter (\<lambda>e. fst e \<noteq> k) (map snd (ys @ (it, k, w) # zs)) = map snd (ys @ zs)"
proof -
  have "filter (\<lambda>e. fst e \<noteq> k) (map snd ys) = map snd ys"
    "filter (\<lambda>e. fst e \<noteq> k) (map snd zs) = map snd zs"
    using assms by (force intro!: filter_all_id)+
  then show "touch k v (map snd (ys @ (it, k, w) # zs)) = (k, v) # map snd (ys @ zs)"
    "filter (\<lambda>e. fst e \<noteq> k) (map snd (ys @ (it, k, w) # zs)) = map snd (ys @ zs)"
    by (simp_all add: touch_def)
qed

lemma assign_other: "it \<notin> fst ` set ns \<Longrightarrow> assign_value it w ns = ns"
  unfolding assign_value_def by (intro map_idI) auto

lemma assign_value_split:
  assumes "it \<notin> fst ` set (ys @ zs)"
  shows "assign_value it w (ys @ (it, k, v) # zs) = ys @ (it, k, w) # zs"
proof -
  have "assign_value it w (ys @ (it, k, v) # zs)
      = assign_value it w ys @ (it, k, w) # assign_value it w zs"
    by (simp add: assign_value_def)
  moreover have "it \<notin> fst ` set ys" "it \<notin> fst ` set zs" using assms by auto
  ultimately show ?thesis by (simp add: assign_other)
qed

lemma linked_rotate:
  "linked (ys @ (it, k, v) # zs) ix \<Longrightarrow> linked ((it, k, w) # ys @ zs) ix"
  by (auto simp: linked_def)

lemma linked_remove:
  assumes "linked (ys @ (it, k, v) # zs) ix"
  shows "linked (ys @ zs) (AList.delete k ix)"
proof -
  let ?g = "\<lambda>n. (fst (snd n), fst n)"
  have ix: "set ix = insert (k, it) (?g ` set (ys @ zs))"
    using assms by (simp add: linked_def)
  have "k \<notin> (fst \<circ> snd) ` set (ys @ zs)"
    using assms by (auto simp: linked_def)
  then have "{e \<in> insert (k, it) (?g ` set (ys @ zs)). k \<noteq> fst e} = ?g ` set (ys @ zs)"
    by force
  then have "set (AList.delete k ix) = ?g ` set (ys @ zs)"
    by (simp add: AList.delete_eq ix case_prod_beta)
  then show ?thesis
    using assms by (auto simp: linked_def AList.distinct_delete)
qed

section \<open>Eviction\<close>

lemma butlast_snoc_last: "xs \<noteq> [] \<Longrightarrow> xs = butlast xs @ [last xs]"
  by simp

lemma evict_step_linked:
  assumes "linked (order c) (index c)" and "order c \<noteq> []"
  shows "linked (butlast (order c)) (AList.delete (fst (snd (last (order c)))) (index c))"
proof -
  obtain it k v where l: "last (order c) = (it, k, v)" by (metis prod_cases3)
  have "linked (butlast (order c) @ (it, k, v) # []) (index c)"
    using assms by (simp flip: l)
  then show ?thesis using linked_remove by (fastforce simp: l)
qed

lemma EvictToCapacity_props:
  assumes "linked (order c) (index c)"
  shows "entries (EvictToCapacity c) = trim (capacity c) (entries c)
    \<and> linked (order (EvictToCapacity c)) (index (EvictToCapacity c))
    \<and> set (order (EvictToCapacity c)) \<subseteq> set (order c)
    \<and> capacity (EvictToCapacity c) = capacity c \<and> fresh (EvictToCapacity c) = fresh c"
  using assms
proof (induction c rule: EvictToCapacity.induct)
  case (1 c)
  let ?c = "c\<lparr>index := AList.delete (fst (snd (last (order c)))) (index c), order := butlast (order c)\<rparr>"
  note len = linked_length [OF "1.prems"]
  show ?case
  proof (cases "capacity c \<noteq> 0 \<and> length (index c) > capacity c \<and> order c \<noteq> []")
    case True
    then have unf: "EvictToCapacity c = EvictToCapacity ?c"
      by (simp add: EvictToCapacity.simps [of c])
    have "trim (capacity c) (entries ?c) = trim (capacity c) (entries c)"
      using True len by (simp add: trim_def entries_def map_butlast take_butlast)
    moreover have "set (butlast (order c)) \<subseteq> set (order c)"
      by (auto dest: in_set_butlastD)
    ultimately show ?thesis
      using "1.IH" [OF True refl] evict_step_linked [OF "1.prems"] True by (auto simp: unf)
  next
    case False
    then have unf: "EvictToCapacity c = c" by (subst EvictToCapacity.simps) auto
    from False len have "trim (capacity c) (entries c) = entries c"
      by (auto simp: trim_def entries_def)
    with "1.prems" show ?thesis by (simp add: unf)
  qed
qed

section \<open>The interpretation\<close>

lemma wf_new_cache: "wf_cache (new_cache n)"
  by (simp add: wf_cache_def new_cache_def linked_def)

lemma wf_cache_distinct: "wf_cache c \<Longrightarrow> distinct (map fst (entries c))"
  by (simp add: wf_cache_def linked_def entries_def comp_def)

lemma wf_cache_linked: "wf_cache c \<Longrightarrow> linked (order c) (index c)"
  by (simp add: wf_cache_def)

lemma lookup_entries:
  assumes "linked (order c) (index c)"
  shows "map_of (index c) k = None \<longleftrightarrow> map_of (entries c) k = None"
proof -
  have "(fst \<circ> snd) ` set (order c) = fst ` set (entries c)"
    by (simp add: entries_def image_image comp_def)
  then show ?thesis using linked_lookup_None [OF assms] by (simp add: map_of_eq_None_iff)
qed

lemma Get_refines:
  assumes "wf_cache c"
  shows "(fst (Get k c), entries (snd (Get k c))) = spec_get k (entries c) \<and> wf_cache (snd (Get k c))"
proof (cases "map_of (index c) k")
  case None
  then have "map_of (entries c) k = None"
    using lookup_entries [OF wf_cache_linked [OF assms], of k] by simp
  with None assms show ?thesis by (simp add: Get_def spec_get_def)
next
  case (Some it)
  note lk = wf_cache_linked [OF assms]
  from Some obtain v where "(it, k, v) \<in> set (order c)" by (auto simp: linked_lookup [OF lk])
  from linked_split [OF lk this] obtain ys zs
    where xs: "order c = ys @ (it, k, v) # zs"
      and it: "it \<notin> fst ` set (ys @ zs)" and k: "k \<notin> (fst \<circ> snd) ` set (ys @ zs)" .
  have dist: "distinct (map fst (entries c))" using assms by (rule wf_cache_distinct)
  moreover have "(k, v) \<in> set (entries c)" by (simp add: entries_def xs)
  ultimately have "map_of (entries c) k = Some v" by (rule map_of_is_SomeI)
  moreover have "touch k v (entries c) = (k, v) # map snd (ys @ zs)"
    unfolding entries_def xs by (rule touch_split(1) [OF k])
  moreover have "splice_front it (order c) = (it, k, v) # ys @ zs"
    by (rule splice_front_split(1) [OF xs it])
  ultimately have "(fst (Get k c), entries (snd (Get k c))) = spec_get k (entries c)"
    by (simp add: Get_def Some spec_get_def entries_def deref_def)
  moreover have "linked ((it, k, v) # ys @ zs) (index c)"
    using lk linked_rotate by (fastforce simp: xs)
  ultimately show ?thesis
    using assms \<open>splice_front it (order c) = (it, k, v) # ys @ zs\<close>
    by (auto simp: Get_def Some wf_cache_def xs)
qed

lemma put_front_props:
  assumes "wf_cache c"
  shows "entries (put_front k v c) = touch k v (entries c)
    \<and> linked (order (put_front k v c)) (index (put_front k v c))
    \<and> (\<forall>n \<in> set (order (put_front k v c)). fst n < fresh (put_front k v c))
    \<and> capacity (put_front k v c) = capacity c"
proof (cases "map_of (index c) k")
  case None
  note lk = wf_cache_linked [OF assms]
  have nk: "k \<notin> (fst \<circ> snd) ` set (order c)" using None linked_lookup_None [OF lk] by simp
  moreover have "k \<notin> fst ` set (entries c)" using nk by (simp add: entries_def image_image comp_def)
  then have "touch k v (entries c) = (k, v) # entries c" by (rule length_touch_absent)
  moreover have "k \<notin> fst ` set (index c)" using None by (simp add: map_of_eq_None_iff)
  moreover have "fresh c \<notin> fst ` set (order c)" using assms(1) by (auto simp: wf_cache_def)
  ultimately show ?thesis
    using assms None lk by (auto simp: put_front_def entries_def wf_cache_def linked_def)
next
  case (Some it)
  note lk = wf_cache_linked [OF assms]
  from Some obtain w where "(it, k, w) \<in> set (order c)" by (auto simp: linked_lookup [OF lk])
  from linked_split [OF lk this] obtain ys zs
    where xs: "order c = ys @ (it, k, w) # zs"
      and it: "it \<notin> fst ` set (ys @ zs)" and k: "k \<notin> (fst \<circ> snd) ` set (ys @ zs)" .
  have "splice_front it (assign_value it v (order c)) = (it, k, v) # ys @ zs"
    by (rule splice_front_split(1) [OF _ it]) (simp add: xs assign_value_split [OF it])
  moreover have "touch k v (entries c) = (k, v) # map snd (ys @ zs)"
    unfolding entries_def xs by (rule touch_split(1) [OF k])
  moreover have "linked ((it, k, v) # ys @ zs) (index c)"
    using lk linked_rotate by (fastforce simp: xs)
  ultimately show ?thesis
    using assms by (auto simp: put_front_def Some entries_def wf_cache_def xs)
qed

lemma Put_refines:
  assumes "wf_cache c"
  shows "entries (Put k v c) = trim (capacity c) (touch k v (entries c)) \<and> wf_cache (Put k v c)
    \<and> capacity (Put k v c) = capacity c"
proof -
  let ?c = "put_front k v c"
  note c' = put_front_props [OF assms, of k v]
  have "linked (order ?c) (index ?c)" using c' by simp
  note ev = EvictToCapacity_props [OF this]
  have "length (index (EvictToCapacity ?c)) = length (entries (EvictToCapacity ?c))"
    using ev linked_length by (metis entries_def length_map)
  moreover have "capacity c \<noteq> 0 \<Longrightarrow> length (entries (EvictToCapacity ?c)) \<le> capacity c"
    using ev c' by (simp add: trim_def)
  ultimately have "wf_cache (EvictToCapacity ?c)"
    using ev c' by (auto simp: wf_cache_def)
  then show ?thesis using ev c' by (simp add: Put_def)
qed

lemma Erase_refines:
  assumes "wf_cache c"
  shows "entries (Erase k c) = filter (\<lambda>e. fst e \<noteq> k) (entries c) \<and> wf_cache (Erase k c)"
proof (cases "map_of (index c) k")
  case None
  with lookup_entries [OF wf_cache_linked [OF assms], of k]
  have "k \<notin> fst ` set (entries c)" by (simp add: map_of_eq_None_iff)
  then have "filter (\<lambda>e. fst e \<noteq> k) (entries c) = entries c" by (force intro!: filter_all_id)
  with None assms show ?thesis by (simp add: Erase_def)
next
  case (Some it)
  note lk = wf_cache_linked [OF assms]
  from Some obtain v where "(it, k, v) \<in> set (order c)" by (auto simp: linked_lookup [OF lk])
  from linked_split [OF lk this] obtain ys zs
    where xs: "order c = ys @ (it, k, v) # zs"
      and it: "it \<notin> fst ` set (ys @ zs)" and k: "k \<notin> (fst \<circ> snd) ` set (ys @ zs)" .
  have er: "Erase k c = c\<lparr>order := ys @ zs, index := AList.delete k (index c)\<rparr>"
    by (simp add: Erase_def Some splice_front_split(2) [OF xs it])
  have "filter (\<lambda>e. fst e \<noteq> k) (entries c) = map snd (ys @ zs)"
    unfolding entries_def xs by (rule touch_split(2) [OF k])
  moreover have "linked (ys @ zs) (AList.delete k (index c))"
    using lk linked_remove by (fastforce simp: xs)
  moreover have "length (AList.delete k (index c)) \<le> length (index c)"
    by (simp add: AList.length_delete_le)
  ultimately show ?thesis
    using assms by (auto simp: er entries_def wf_cache_def xs)
qed

lemma capacity_Get [simp]: "capacity (snd (Get k c)) = capacity c"
  by (simp add: Get_def Let_def split: option.split)

lemma capacity_Erase [simp]: "capacity (Erase k c) = capacity c"
  by (simp add: Erase_def split: option.split)

interpretation sticky: lru entries capacity wf_cache Get Put Erase
proof
  fix c :: "('k, 'v) LruCache" and k :: 'k and v :: 'v
  show "capacity (snd (Get k c)) = capacity c" "capacity (Erase k c) = capacity c" by simp_all
  assume c: "wf_cache c"
  show "distinct (map fst (entries c))" using c by (rule wf_cache_distinct)
  show "length (entries c) \<le> capacity c" if "capacity c \<noteq> 0"
    using c that linked_length [OF wf_cache_linked [OF c]] by (simp add: wf_cache_def entries_def)
  show "(fst (Get k c), entries (snd (Get k c))) = spec_get k (entries c)" "wf_cache (snd (Get k c))"
    using Get_refines [OF c] by simp_all
  show "entries (Put k v c) = trim (capacity c) (touch k v (entries c))" "wf_cache (Put k v c)"
    "capacity (Put k v c) = capacity c"
    using Put_refines [OF c] by simp_all
  show "entries (Erase k c) = filter (\<lambda>e. fst e \<noteq> k) (entries c)" "wf_cache (Erase k c)"
    using Erase_refines [OF c] by simp_all
qed

lemma Contains_entries:
  assumes "wf_cache c"
  shows "Contains k c \<longleftrightarrow> k \<in> fst ` set (entries c)"
  using lookup_entries [OF wf_cache_linked [OF assms], of k]
  by (auto simp: Contains_def map_of_eq_None_iff)

lemma cache_size_entries: "wf_cache c \<Longrightarrow> cache_size c = length (entries c)"
  using linked_length [OF wf_cache_linked] by (simp add: cache_size_def entries_def)

section \<open>The cache as its contract\<close>

fun spec_step :: "nat \<Rightarrow> ('k, 'v) cache_op \<Rightarrow> ('k \<times> 'v) list \<Rightarrow> ('k \<times> 'v) list" where
  "spec_step cap (OpGet k) es = snd (spec_get k es)"
| "spec_step cap (OpPut k v) es = trim cap (touch k v es)"
| "spec_step cap (OpErase k) es = filter (\<lambda>e. fst e \<noteq> k) es"

lemma client_step_refines:
  "wf_cache c \<Longrightarrow> entries (sticky.client_step op c) = spec_step (capacity c) op (entries c)"
proof (cases op)
  case (OpGet k)
  assume "wf_cache c"
  from sticky.view_get [OF this, of k] OpGet show ?thesis by (auto dest: arg_cong [where f = snd])
qed (simp_all add: sticky.view_put sticky.view_erase)

lemma client_steps_refine:
  "wf_cache c \<Longrightarrow> entries (fold sticky.client_step ops c) = fold (spec_step (capacity c)) ops (entries c)
     \<and> wf_cache (fold sticky.client_step ops c) \<and> capacity (fold sticky.client_step ops c) = capacity c"
  by (induction ops arbitrary: c)
    (auto simp: client_step_refines sticky.invar_client_step sticky.cap_client_step)

text \<open>
  C18. The hash index over the linked list implements a recency list: after any sequence of
  operations on a new cache, the entries are those of the list specification, a lookup answers what
  the list holds, and a bounded cache never exceeds its capacity.
\<close>

theorem cache_refines_recency_list:
  "entries (fold sticky.client_step ops (new_cache cap)) = fold (spec_step cap) ops []
   \<and> fst (Get k (fold sticky.client_step ops (new_cache cap))) = map_of (fold (spec_step cap) ops []) k
   \<and> (cap = 0 \<or> cache_size (fold sticky.client_step ops (new_cache cap)) \<le> cap)"
proof -
  let ?c = "fold sticky.client_step ops (new_cache cap)"
  have "entries ?c = fold (spec_step cap) ops []" and wf: "wf_cache ?c" and "capacity ?c = cap"
    using client_steps_refine [OF wf_new_cache, of ops cap] by (simp_all add: new_cache_def entries_def)
  moreover have "cap = 0 \<or> cache_size ?c \<le> cap"
    using cache_size_entries [OF wf] sticky.view_bound [OF wf] \<open>capacity ?c = cap\<close> by auto
  ultimately show ?thesis by (simp add: sticky.get_value [OF wf])
qed

text \<open>
  Eviction is by recency: a run put into the sticky cache is still there, with its value, after
  any sequence of operations on fewer than capacity other runs.
\<close>

theorem recently_used_survives:
  assumes "wf_cache c" and "k \<notin> op_key ` set ops"
    and "capacity c = 0 \<or> card (op_key ` set ops) < capacity c"
  shows "fst (Get k (fold sticky.client_step ops (Put k v c))) = Some v"
  using assms by (rule sticky.recently_put_is_resident)

theorem recently_used_survives_witness:
  "fst (Get (1 :: nat) (fold sticky.client_step [OpPut 2 ''b'', OpGet 2, OpPut 2 ''c''] (Put 1 ''a'' (new_cache 2)))) = Some ''a''"
  by (rule recently_used_survives) (simp_all add: wf_new_cache, simp add: new_cache_def)

end
