(* ===== verification/Task_Handler.thy ===== *)
theory Task_Handler
  imports Runner_Exec Lru_Cache Grpc
begin

text \<open>
  The workflow task handler (\<^verbatim>\<open>WorkflowTaskHandler\<close>, \<^verbatim>\<open>src/internal/workflow_task_handler.cpp\<close>): it
  assembles the history of a task, continues the cached runner or replays from scratch, checks
  determinism, answers queries and updates and responds to the server.

  A cached \<^verbatim>\<open>shared_ptr\<close> and the handler's local \<^verbatim>\<open>runner\<close> are one object in the code. The model
  keeps the runner's value in the cache slot, so what a task does to a resident runner is written
  back to its slot (\<open>write_back\<close>). The history RPC is a parameter; its answers go through
  \<open>UnaryCall\<close> as a long poll, as in the code. Responses are the list of RPCs sent.
\<close>

section \<open>Tasks and responses\<close>

record update_message =
  um_id :: string
  um_protocol_instance_id :: string
  um_event_id :: int
  um_request :: "(string \<times> proto_payload list) option"

record workflow_task =
  task_token :: string
  tk_workflow_id :: string
  tk_run_id :: string
  tk_workflow_type :: string
  tk_history :: "HistoryEvent list"
  next_page_token :: string
  tk_query :: "(string \<times> proto_payload list) option"
  tk_queries :: "(string \<times> string \<times> proto_payload list) list"
  tk_messages :: "update_message list"
  previous_started_event_id :: int

datatype update_outcome = Success "proto_payload list" | UpdateFailure Failure

datatype message_body =
    Acceptance string int "string \<times> proto_payload list"
  | Rejection string int "string \<times> proto_payload list" Failure
  | Response string string update_outcome

record out_message =
  om_id :: string
  om_protocol_instance_id :: string
  om_body :: message_body

datatype query_result = Answered "proto_payload list option" | QueryFailed string

record sticky_attributes =
  sticky_name :: string
  sticky_normal_name :: string
  sticky_timeout :: proto_duration

datatype failed_cause = Unspecified | ResetStickyTaskQueue | NonDeterministicError

datatype response =
    RespondWorkflowTaskFailed string string failed_cause "Failure option"
  | RespondWorkflowTaskCompleted string string "sticky_attributes option" "Command list" "out_message list"
      "(string \<times> query_result) list"
  | RespondQueryTaskCompleted string query_result

section \<open>The handler\<close>

datatype WorkflowPanicPolicy = BlockWorkflow | FailWorkflowPolicy

type_synonym history_page = "HistoryEvent list \<times> string"

text \<open>The client: namespace, identity, and what the stub answers to a history request and to a response.\<close>

record gateway =
  gw_ns :: string
  gw_identity :: string
  get_history :: "string \<Rightarrow> string \<Rightarrow> string \<Rightarrow> history_page rpc"
  respond_rpc :: "response \<Rightarrow> unit rpc"

record 's task_handler =
  h_task_queue :: string
  sticky_queue :: string
  panic_policy :: WorkflowPanicPolicy
  h_deadlock_timeout :: int
  workflows :: "string \<rightharpoonup> ('s \<times> (Payloads \<Rightarrow> 's body))"
  cache :: "(string, 's WorkflowRunner) LruCache"
  cache_hits :: nat
  replays :: nat
  deadlock_reports :: nat
  leaked :: "'s WorkflowRunner list"
  responses :: "response list"

definition new_task_handler ::
  "string \<Rightarrow> string \<Rightarrow> WorkflowPanicPolicy \<Rightarrow> int \<Rightarrow> int \<Rightarrow> 's task_handler" where
  "new_task_handler tq sq policy max_cached deadlock =
     \<lparr>h_task_queue = tq, sticky_queue = sq, panic_policy = policy, h_deadlock_timeout = deadlock,
      workflows = Map.empty, cache = new_cache (if max_cached > 0 then nat max_cached else 0),
      cache_hits = 0, replays = 0, deadlock_reports = 0, leaked = [], responses = []\<rparr>"

definition Register_workflow ::
  "string \<Rightarrow> 's \<times> (Payloads \<Rightarrow> 's body) \<Rightarrow> 's task_handler \<Rightarrow> 's task_handler" where
  "Register_workflow name fn h = h\<lparr>workflows := (workflows h)(name \<mapsto> fn)\<rparr>"

definition write_back :: "string \<Rightarrow> 's WorkflowRunner \<Rightarrow> 's task_handler \<Rightarrow> 's task_handler" where
  "write_back run_id r h =
     (case map_of (index (cache h)) run_id of
        None \<Rightarrow> h
      | Some it \<Rightarrow> h\<lparr>cache := (cache h)\<lparr>order := assign_value it r (order (cache h))\<rparr>\<rparr>)"

section \<open>History\<close>

text \<open>\<^verbatim>\<open>GetWorkflowExecutionHistory\<close> is issued with \<^verbatim>\<open>poll = true\<close>.\<close>

definition GetWorkflowExecutionHistory ::
  "gateway \<Rightarrow> string \<Rightarrow> string \<Rightarrow> string \<Rightarrow> rpc_error + history_page" where
  "GetWorkflowExecutionHistory gw wid rid token =
     UnaryCall ''GetWorkflowExecutionHistory'' True ([], []) (get_history gw wid rid token)"

text \<open>
  The two paging loops. \<open>n\<close> bounds the pages: a server that never ends the list keeps the loop
  running (\<open>Hangs\<close>). The handler's loop tests the token first, the query's after a first request.
\<close>

primrec page_in ::
  "(string \<Rightarrow> rpc_error + history_page) \<Rightarrow> nat \<Rightarrow> string \<Rightarrow> HistoryEvent list \<Rightarrow> HistoryEvent list flow" where
  "page_in fetch 0 token acc = (if token = [] then Ok acc else Hangs)"
| "page_in fetch (Suc n) token acc =
     (if token = [] then Ok acc
      else (case fetch token of
              Inl e \<Rightarrow> Escapes
            | Inr (evs, token') \<Rightarrow> page_in fetch n token' (acc @ evs)))"

lemma page_in_done [simp]: "page_in fetch n [] acc = Ok acc"
  by (cases n) simp_all

definition assemble_history :: "gateway \<Rightarrow> nat \<Rightarrow> workflow_task \<Rightarrow> HistoryEvent list flow" where
  "assemble_history gw n task =
     page_in (GetWorkflowExecutionHistory gw (tk_workflow_id task) (tk_run_id task)) n
       (next_page_token task) (tk_history task)"

definition full_history ::
  "gateway \<Rightarrow> nat \<Rightarrow> string \<Rightarrow> string \<Rightarrow> HistoryEvent list flow" where
  "full_history gw n wid rid =
     (case GetWorkflowExecutionHistory gw wid rid [] of
        Inl e \<Rightarrow> Escapes
      | Inr (evs, token) \<Rightarrow> page_in (GetWorkflowExecutionHistory gw wid rid) n token evs)"

text \<open>
  \<^verbatim>\<open>BuildRunnerForQuery\<close> catches the RPC error and returns null (\<open>Ok None\<close>); its runner has no
  local-activity resolver and no interceptors.
\<close>

definition BuildRunnerForQuery ::
  "env \<Rightarrow> gateway \<Rightarrow> nat \<Rightarrow> WorkflowInfo \<Rightarrow> 's \<times> (Payloads \<Rightarrow> 's body) \<Rightarrow> 's WorkflowRunner option flow" where
  "BuildRunnerForQuery E gw n wi fn =
     (case full_history gw n (wi_workflow_id wi) (wi_run_id wi) of
        Escapes \<Rightarrow> Ok None
      | Hangs \<Rightarrow> Hangs
      | Ok full \<Rightarrow>
          (let E' = E\<lparr>local_activity_resolver := None, interceptor_chain := None\<rparr>;
               ps = ScanHistory full
           in bind_flow (Run E' n (new_runner E' wi True ps (snd fn) (ps_input ps) (fst fn)))
                (\<lambda>r. Ok (Some r))))"

fun is_started :: "event_attrs \<Rightarrow> bool" where
  "is_started (WorkflowExecutionStarted t i h) = True"
| "is_started _ = False"

definition is_full_history :: "HistoryEvent list \<Rightarrow> bool" where
  "is_full_history evs = (case evs of [] \<Rightarrow> False | e # _ \<Rightarrow> is_started (attrs e))"

definition first_event_id :: "HistoryEvent list \<Rightarrow> int" where
  "first_event_id evs = (case evs of [] \<Rightarrow> 0 | e # _ \<Rightarrow> event_id e)"

section \<open>Offline replay\<close>

fun started_type :: "HistoryEvent list \<Rightarrow> string" where
  "started_type [] = []"
| "started_type (ev # h) =
     (case attrs ev of WorkflowExecutionStarted t i hs \<Rightarrow> t | _ \<Rightarrow> started_type h)"

definition ReplayHistory ::
  "env \<Rightarrow> gateway \<Rightarrow> nat \<Rightarrow> HistoryEvent list \<Rightarrow> 's task_handler \<Rightarrow> (wf_error + string option) flow" where
  "ReplayHistory E gw n h th =
     (let type = started_type h
      in if type = []
         then Ok (Inl (ApplicationError ''history has no WorkflowExecutionStarted event'' ''ReplayError'' False))
         else (case workflows th type of
                 None \<Rightarrow> Ok (Inl (ApplicationError (''no workflow registered for type: '' @ type)
                                    ''ReplayError'' False))
               | Some fn \<Rightarrow>
                   (let wi = \<lparr>wi_workflow_id = ''replay'', wi_run_id = [], wi_workflow_type = type,
                              wi_task_queue = h_task_queue th, wi_ns = gw_ns gw, wi_headers = Map.empty\<rparr>;
                        ps = ScanHistory h
                    in bind_flow (Run E n (new_runner E wi True ps (snd fn) (ps_input ps) (fst fn)))
                         (\<lambda>r. Ok (Inr (CheckDeterminism r))))))"

section \<open>Updates and queries\<close>

text \<open>
  One message of the task. The validator runs first; a throw rejects. Otherwise the update is
  accepted, its handler runs, and its outcome completes it.
\<close>

definition accept_update ::
  "env \<Rightarrow> nat \<Rightarrow> string \<Rightarrow> update_message \<Rightarrow> string \<times> proto_payload list \<Rightarrow> 's WorkflowRunner
   \<Rightarrow> (out_message list \<times> 's WorkflowRunner) flow" where
  "accept_update E n identity msg req r =
     (let inst = um_protocol_instance_id msg;
          accept = \<lparr>om_id = inst @ ''/accept'', om_protocol_instance_id = inst,
                    om_body = Acceptance (um_id msg) (um_event_id msg) req\<rparr>
      in bind_flow (RunUpdate E n (fst req) (FromProtoPayloads (snd req)) r)
           (\<lambda>(res, r'). case res of
              Inl OtherThrow \<Rightarrow> Escapes
            | Inl e \<Rightarrow> Ok ([accept, \<lparr>om_id = inst @ ''/complete'', om_protocol_instance_id = inst,
                 om_body = Response inst identity (UpdateFailure (MakeApplicationFailure (what e) ''UpdateFailed'' False))\<rparr>], r')
            | Inr p \<Rightarrow> Ok ([accept, \<lparr>om_id = inst @ ''/complete'', om_protocol_instance_id = inst,
                 om_body = Response inst identity (Success (ToProtoPayloads p))\<rparr>], r')))"

definition process_update ::
  "env \<Rightarrow> nat \<Rightarrow> string \<Rightarrow> update_message \<Rightarrow> 's WorkflowRunner \<Rightarrow> (out_message list \<times> 's WorkflowRunner) flow" where
  "process_update E n identity msg r =
     (case um_request msg of
        None \<Rightarrow> Ok ([], r)
      | Some req \<Rightarrow>
          bind_flow (ValidateUpdate E n (fst req) (FromProtoPayloads (snd req)) r)
            (\<lambda>(verdict, r'). case verdict of
               None \<Rightarrow> accept_update E n identity msg req r'
             | Some OtherThrow \<Rightarrow> Escapes
             | Some e \<Rightarrow>
                 (let inst = um_protocol_instance_id msg
                  in Ok ([\<lparr>om_id = inst @ ''/reject'', om_protocol_instance_id = inst,
                          om_body = Rejection (um_id msg) (um_event_id msg) req
                            (MakeApplicationFailure (what e) ''UpdateValidationRejected'' False)\<rparr>], r'))))"

fun process_updates ::
  "env \<Rightarrow> nat \<Rightarrow> string \<Rightarrow> update_message list \<Rightarrow> 's WorkflowRunner
   \<Rightarrow> (out_message list \<times> 's WorkflowRunner) flow" where
  "process_updates E n identity [] r = Ok ([], r)"
| "process_updates E n identity (msg # msgs) r =
     bind_flow (process_update E n identity msg r)
       (\<lambda>(out, r'). bind_flow (process_updates E n identity msgs r')
          (\<lambda>(out', r''). Ok (out @ out', r'')))"

definition answer_query ::
  "env \<Rightarrow> nat \<Rightarrow> string \<times> proto_payload list \<Rightarrow> 's WorkflowRunner \<Rightarrow> (query_result \<times> 's WorkflowRunner) flow" where
  "answer_query E n q r =
     (if IsDone r then Ok (QueryFailed ''cannot query a completed workflow'', r)
      else bind_flow (RunQuery E n (fst q) (FromProtoPayloads (snd q)) r)
             (\<lambda>(res, r'). case res of
                Inl OtherThrow \<Rightarrow> Escapes
              | Inl e \<Rightarrow> Ok (QueryFailed (what e), r')
              | Inr p \<Rightarrow> Ok (Answered (payloads_or_unset p), r')))"

fun answer_queries ::
  "env \<Rightarrow> nat \<Rightarrow> (string \<times> string \<times> proto_payload list) list \<Rightarrow> 's WorkflowRunner
   \<Rightarrow> ((string \<times> query_result) list \<times> 's WorkflowRunner) flow" where
  "answer_queries E n [] r = Ok ([], r)"
| "answer_queries E n ((key, q) # qs) r =
     bind_flow (answer_query E n q r)
       (\<lambda>(res, r'). bind_flow (answer_queries E n qs r')
          (\<lambda>(out, r''). Ok ((key, res) # out, r'')))"

section \<open>Handle\<close>

text \<open>
  How a call of \<^verbatim>\<open>Handle\<close> ends: it returns, an exception leaves it, or it does not return. After the
  last two the handler's fields are those before the step that did not finish; what that step had
  done to a resident runner by then is not tracked.
\<close>

datatype exit = Done | Exception | NoReturn

fun respond_name :: "response \<Rightarrow> string" where
  "respond_name (RespondWorkflowTaskFailed t i c f) = ''RespondWorkflowTaskFailed''"
| "respond_name (RespondWorkflowTaskCompleted t i s c m q) = ''RespondWorkflowTaskCompleted''"
| "respond_name (RespondQueryTaskCompleted t q) = ''RespondQueryTaskCompleted''"

text \<open>A response is sent; it returns, or its RPC error leaves the handler.\<close>

definition accepted :: "gateway \<Rightarrow> response \<Rightarrow> bool" where
  "accepted gw resp \<longleftrightarrow> (case UnaryCall (respond_name resp) False () (respond_rpc gw resp) of Inl e \<Rightarrow> False | Inr u \<Rightarrow> True)"

definition respond :: "gateway \<Rightarrow> response \<Rightarrow> 's task_handler \<Rightarrow> 's task_handler \<times> exit" where
  "respond gw resp h = (h\<lparr>responses := responses h @ [resp]\<rparr>, if accepted gw resp then Done else Exception)"

definition sticky_of :: "'s task_handler \<Rightarrow> sticky_attributes option" where
  "sticky_of h =
     (if sticky_queue h = [] then None
      else Some \<lparr>sticky_name = sticky_queue h, sticky_normal_name = h_task_queue h,
                 sticky_timeout = ToProtoDuration (10 * ns_per_s)\<rparr>)"

text \<open>The response to a task that ran: lines 1870 to 1986.\<close>

definition complete_task ::
  "env \<Rightarrow> gateway \<Rightarrow> nat \<Rightarrow> workflow_task \<Rightarrow> 's WorkflowRunner \<Rightarrow> 's task_handler \<Rightarrow> 's task_handler \<times> exit" where
  "complete_task E gw n task r h =
     (let cmds = commands r
      in case process_updates E n (gw_identity gw) (tk_messages task) r of
           Escapes \<Rightarrow> (h, Exception)
         | Hangs \<Rightarrow> (h, NoReturn)
         | Ok (msgs, r1) \<Rightarrow>
             (case answer_queries E n (tk_queries task) r1 of
                Escapes \<Rightarrow> (h, Exception)
              | Hangs \<Rightarrow> (h, NoReturn)
              | Ok (answers, r2) \<Rightarrow>
                  (case respond gw (RespondWorkflowTaskCompleted (task_token task) (gw_identity gw) (sticky_of h)
                          (cmds @ terminal_commands r1) msgs answers)
                          (write_back (tk_run_id task) r2 h) of
                     (h1, Done) \<Rightarrow> (if IsDone r2 then h1\<lparr>cache := Erase (tk_run_id task) (cache h1)\<rparr> else h1, Done)
                   | thrown \<Rightarrow> thrown)))"

definition answer_legacy_query ::
  "env \<Rightarrow> gateway \<Rightarrow> nat \<Rightarrow> workflow_task \<Rightarrow> string \<times> proto_payload list \<Rightarrow> 's WorkflowRunner option \<Rightarrow> bool
   \<Rightarrow> 's task_handler \<Rightarrow> 's task_handler \<times> exit" where
  "answer_legacy_query E gw n task q runner resident h =
     (case runner of
        None \<Rightarrow> respond gw (RespondQueryTaskCompleted (task_token task)
                  (QueryFailed ''could not load workflow state to answer query'')) h
      | Some r \<Rightarrow>
          (case answer_query E n q r of
             Escapes \<Rightarrow> (h, Exception)
           | Hangs \<Rightarrow> (h, NoReturn)
           | Ok (res, r') \<Rightarrow>
               respond gw (RespondQueryTaskCompleted (task_token task) res)
                 (if resident then write_back (tk_run_id task) r' h else h)))"

definition abort_deadlock ::
  "gateway \<Rightarrow> workflow_task \<Rightarrow> 's WorkflowRunner \<Rightarrow> 's task_handler \<Rightarrow> 's task_handler \<times> exit" where
  "abort_deadlock gw task r h =
     respond gw (RespondWorkflowTaskFailed (task_token task) (gw_identity gw) Unspecified
                (Some (MakeApplicationFailure
                   ''workflow task deadlocked (exceeded deadlock_detection_timeout)'' ''WorkflowDeadlock'' False)))
       (h\<lparr>deadlock_reports := Suc (deadlock_reports h), cache := Erase (tk_run_id task) (cache h),
          leaked := leaked h @ [r]\<rparr>)"

definition respond_mismatch ::
  "gateway \<Rightarrow> workflow_task \<Rightarrow> string \<Rightarrow> 's task_handler \<Rightarrow> 's task_handler \<times> exit" where
  "respond_mismatch gw task mismatch h =
     (let fl = MakeApplicationFailure mismatch ''NonDeterministicError'' False
      in respond gw
           (case panic_policy h of
              FailWorkflowPolicy \<Rightarrow>
                RespondWorkflowTaskCompleted (task_token task) (gw_identity gw) None [CmdFailWorkflowExecution fl] [] []
            | BlockWorkflow \<Rightarrow>
                RespondWorkflowTaskFailed (task_token task) (gw_identity gw) NonDeterministicError (Some fl)) h)"

text \<open>The sticky cache: the resident runner, if this task continues it, and the cache after the lookup.\<close>

definition lookup_cached ::
  "workflow_task \<Rightarrow> HistoryEvent list \<Rightarrow> 's task_handler \<Rightarrow> 's WorkflowRunner option \<times> 's task_handler" where
  "lookup_cached task evs h =
     (if is_full_history evs then (None, h)
      else (let (slot, c) = Get (tk_run_id task) (cache h); h' = h\<lparr>cache := c\<rparr>
            in case slot of
                 None \<Rightarrow> (None, h')
               | Some cached \<Rightarrow>
                   (if tk_query task \<noteq> None \<or> first_event_id evs = last_event_id (scan cached) + 1
                    then (Some cached, h') else (None, h'))))"

definition finish_task ::
  "env \<Rightarrow> gateway \<Rightarrow> nat \<Rightarrow> workflow_task \<Rightarrow> 's WorkflowRunner option \<Rightarrow> bool \<Rightarrow> 's task_handler
   \<Rightarrow> 's task_handler \<times> exit" where
  "finish_task E gw n task runner resident h =
     (case tk_query task of
        Some q \<Rightarrow> answer_legacy_query E gw n task q runner resident h
      | None \<Rightarrow> (case runner of
                   None \<Rightarrow> (h, NoReturn)
                 | Some r \<Rightarrow> complete_task E gw n task r h))"

definition continue_cached ::
  "env \<Rightarrow> gateway \<Rightarrow> nat \<Rightarrow> workflow_task \<Rightarrow> HistoryEvent list \<Rightarrow> 's WorkflowRunner \<Rightarrow> 's task_handler
   \<Rightarrow> 's task_handler \<times> exit" where
  "continue_cached E gw n task evs r h0 =
     (let h = h0\<lparr>cache_hits := Suc (cache_hits h0)\<rparr>
      in if tk_query task \<noteq> None then finish_task E gw n task (Some r) True h
         else (case ApplyAndResume E n evs (SetDeadlockTimeout (h_deadlock_timeout h) r) of
                 Escapes \<Rightarrow> (h, Exception)
               | Hangs \<Rightarrow> (h, NoReturn)
               | Ok r' \<Rightarrow>
                   (if deadlocked r' then abort_deadlock gw task r' h
                    else finish_task E gw n task (Some r') True (write_back (tk_run_id task) r' h))))"

definition replay_task ::
  "env \<Rightarrow> gateway \<Rightarrow> nat \<Rightarrow> workflow_task \<Rightarrow> WorkflowInfo \<Rightarrow> 's \<times> (Payloads \<Rightarrow> 's body)
   \<Rightarrow> HistoryEvent list \<Rightarrow> 's task_handler \<Rightarrow> 's task_handler \<times> exit" where
  "replay_task E gw n task wi fn evs h0 =
     (let h = h0\<lparr>replays := Suc (replays h0)\<rparr>;
          ps = ScanHistory evs;
          replaying = (previous_started_event_id task > 0);
          r0 = SetDeadlockTimeout (h_deadlock_timeout h)
                 (new_runner E wi replaying ps (snd fn) (ps_input ps) (fst fn))
      in case Run E n r0 of
           Escapes \<Rightarrow> (h, Exception)
         | Hangs \<Rightarrow> (h, NoReturn)
         | Ok r \<Rightarrow>
             (if deadlocked r then abort_deadlock gw task r h
              else if tk_query task \<noteq> None then finish_task E gw n task (Some r) False h
              else (case CheckDeterminism r of
                      Some mismatch \<Rightarrow> respond_mismatch gw task mismatch h
                    | None \<Rightarrow>
                        finish_task E gw n task (Some r) True (h\<lparr>cache := Put (tk_run_id task) r (cache h)\<rparr>))))"

definition task_info :: "gateway \<Rightarrow> workflow_task \<Rightarrow> 's task_handler \<Rightarrow> WorkflowInfo" where
  "task_info gw task h =
     \<lparr>wi_workflow_id = tk_workflow_id task, wi_run_id = tk_run_id task,
      wi_workflow_type = tk_workflow_type task, wi_task_queue = h_task_queue h, wi_ns = gw_ns gw,
      wi_headers = Map.empty\<rparr>"

definition dispatch ::
  "env \<Rightarrow> gateway \<Rightarrow> nat \<Rightarrow> workflow_task \<Rightarrow> 's \<times> (Payloads \<Rightarrow> 's body) \<Rightarrow> HistoryEvent list
   \<Rightarrow> 's task_handler \<Rightarrow> 's task_handler \<times> exit" where
  "dispatch E gw n task fn evs h0 =
     (case lookup_cached task evs h0 of
        (Some r, h) \<Rightarrow> continue_cached E gw n task evs r h
      | (None, h) \<Rightarrow>
          (if tk_query task \<noteq> None
           then (case BuildRunnerForQuery E gw n (task_info gw task h) fn of
                   Escapes \<Rightarrow> (h, Exception)
                 | Hangs \<Rightarrow> (h, NoReturn)
                 | Ok runner \<Rightarrow> finish_task E gw n task runner False h)
           else if \<not> is_full_history evs
           then respond gw (RespondWorkflowTaskFailed (task_token task) (gw_identity gw) ResetStickyTaskQueue None) h
           else replay_task E gw n task (task_info gw task h) fn evs h))"

definition Handle ::
  "env \<Rightarrow> gateway \<Rightarrow> nat \<Rightarrow> workflow_task \<Rightarrow> 's task_handler \<Rightarrow> 's task_handler \<times> exit" where
  "Handle E gw n task h =
     (case workflows h (tk_workflow_type task) of
        None \<Rightarrow>
          respond gw (RespondWorkflowTaskFailed (task_token task) (gw_identity gw) Unspecified
             (Some (MakeApplicationFailure (''no workflow registered for type: '' @ tk_workflow_type task)
                ''NotRegisteredError'' False))) h
      | Some fn \<Rightarrow>
          (case assemble_history gw n task of
             Escapes \<Rightarrow> (h, Exception)
           | Hangs \<Rightarrow> (h, NoReturn)
           | Ok evs \<Rightarrow> dispatch E gw n task fn evs h))"

section \<open>One task, one answer\<close>

lemma respond_frame [simp]:
  "responses (fst (respond gw x h)) = responses h @ [x]" "cache (fst (respond gw x h)) = cache h"
  by (simp_all add: respond_def)

lemma write_back_frame [simp]:
  "responses (write_back k r h) = responses h" "workflows (write_back k r h) = workflows h"
  "sticky_queue (write_back k r h) = sticky_queue h" "h_task_queue (write_back k r h) = h_task_queue h"
  "leaked (write_back k r h) = leaked h" "deadlock_reports (write_back k r h) = deadlock_reports h"
  by (simp_all add: write_back_def split: option.split)

text \<open>The task token a response carries.\<close>

fun response_token :: "response \<Rightarrow> string" where
  "response_token (RespondWorkflowTaskFailed t i c f) = t"
| "response_token (RespondWorkflowTaskCompleted t i s c m q) = t"
| "response_token (RespondQueryTaskCompleted t q) = t"

definition answered_once ::
  "gateway \<Rightarrow> workflow_task \<Rightarrow> response list \<Rightarrow> 's task_handler \<times> exit \<Rightarrow> bool" where
  "answered_once gw task before res \<longleftrightarrow>
     (\<exists>x. responses (fst res) = before @ [x] \<and> response_token x = task_token task
        \<and> snd res = (if accepted gw x then Done else Exception))
     \<or> responses (fst res) = before \<and> snd res \<noteq> Done"

lemma not_answered:
  "responses h = before \<Longrightarrow> answered_once gw task before (h, Exception)"
  "responses h = before \<Longrightarrow> answered_once gw task before (h, NoReturn)"
  by (simp_all add: answered_once_def)

lemma respond_answers:
  "responses h = before \<Longrightarrow> response_token x = task_token task \<Longrightarrow> answered_once gw task before (respond gw x h)"
  by (simp add: answered_once_def respond_def)

lemma complete_task_answers:
  "responses h = before \<Longrightarrow> answered_once gw task before (complete_task E gw n task r h)"
  by (auto simp: not_answered complete_task_def respond_def Let_def split: flow.split)
    (auto simp: answered_once_def)

lemma finish_task_answers:
  "responses h = before \<Longrightarrow> answered_once gw task before (finish_task E gw n task runner resident h)"
  by (auto simp: finish_task_def complete_task_answers answer_legacy_query_def not_answered
      intro!: respond_answers split: option.split flow.split)

lemma abort_deadlock_answers:
  "responses h = before \<Longrightarrow> answered_once gw task before (abort_deadlock gw task r h)"
  by (simp add: abort_deadlock_def respond_answers)

lemma continue_cached_answers:
  "responses h = before \<Longrightarrow> answered_once gw task before (continue_cached E gw n task evs r h)"
  by (auto simp: continue_cached_def Let_def not_answered finish_task_answers abort_deadlock_answers
      split: flow.split)

lemma respond_mismatch_answers:
  "responses h = before \<Longrightarrow> answered_once gw task before (respond_mismatch gw task m h)"
  by (simp add: respond_mismatch_def Let_def respond_answers split: WorkflowPanicPolicy.split)

lemma replay_task_answers:
  "responses h = before \<Longrightarrow> answered_once gw task before (replay_task E gw n task wi fn evs h)"
  by (auto simp: replay_task_def Let_def not_answered finish_task_answers abort_deadlock_answers
      respond_mismatch_answers split: flow.split option.split)

lemma lookup_cached_frame: "lookup_cached task evs h = (slot, h') \<Longrightarrow> responses h' = responses h"
  by (auto simp: lookup_cached_def Let_def split: if_splits prod.splits option.splits)

lemma dispatch_answers:
  assumes "responses h = before"
  shows "answered_once gw task before (dispatch E gw n task fn evs h)"
proof (cases "lookup_cached task evs h")
  case (Pair slot h')
  with assms have h': "responses h' = before" by (simp add: lookup_cached_frame)
  with Pair show ?thesis
    by (auto simp: dispatch_def continue_cached_answers finish_task_answers replay_task_answers not_answered
        intro!: respond_answers split: option.split flow.split)
qed

lemma Handle_answers: "answered_once gw task (responses h) (Handle E gw n task h)"
  by (auto simp: Handle_def dispatch_answers not_answered intro!: respond_answers split: option.split flow.split)

section \<open>The cache between tasks\<close>

lemma assign_value_props:
  "map fst (assign_value it v xs) = map fst xs"
  "map (fst \<circ> snd) (assign_value it v xs) = map (fst \<circ> snd) xs"
  "(\<lambda>n. (fst (snd n), fst n)) ` set (assign_value it v xs) = (\<lambda>n. (fst (snd n), fst n)) ` set xs"
proof -
  show "map fst (assign_value it v xs) = map fst xs"
    "map (fst \<circ> snd) (assign_value it v xs) = map (fst \<circ> snd) xs"
    by (auto simp: assign_value_def)
  show "(\<lambda>n. (fst (snd n), fst n)) ` set (assign_value it v xs) = (\<lambda>n. (fst (snd n), fst n)) ` set xs"
    unfolding assign_value_def set_map image_image by (rule image_cong) auto
qed

lemma wf_write_back: "wf_cache (cache h) \<Longrightarrow> wf_cache (cache (write_back k r h))"
  by (auto simp: write_back_def wf_cache_def linked_def assign_value_props split: option.split)
    (auto simp: assign_value_def)

lemma entries_write_back:
  "set (entries (cache (write_back k r h))) \<subseteq> set (entries (cache h)) \<union> UNIV \<times> {r}"
  by (auto simp: write_back_def entries_def assign_value_def split: option.split)

text \<open>
  A resident runner has a coroutine, it has not overrun the deadlock timeout, and its workflow has a terminal status
  only when its coroutine is done.
\<close>

definition runner_live :: "'s WorkflowRunner \<Rightarrow> bool" where
  "runner_live r \<longleftrightarrow> \<not> deadlocked r \<and> (case coroutine r of Parked b \<Rightarrow> True | CoDone \<Rightarrow> True | _ \<Rightarrow> False)
     \<and> (status r \<noteq> Blocked \<longrightarrow> coroutine r = CoDone)"

definition cache_ok :: "'s task_handler \<Rightarrow> bool" where
  "cache_ok h \<longleftrightarrow> wf_cache (cache h) \<and> (\<forall>e \<in> set (entries (cache h)). runner_live (snd e))"

lemma cache_ok_write_back: "cache_ok h \<Longrightarrow> runner_live r \<Longrightarrow> cache_ok (write_back k r h)"
  using entries_write_back [of k r h] wf_write_back [of h k r] unfolding cache_ok_def by fastforce

lemma cache_ok_Erase: "cache_ok h \<Longrightarrow> cache_ok (h\<lparr>cache := Erase k (cache h)\<rparr>)"
  using Erase_refines [of "cache h" k] by (auto simp: cache_ok_def)

lemma set_trim: "set (trim n es) \<subseteq> set es"
  by (auto simp: trim_def dest: in_set_takeD)

lemma cache_ok_Put: "cache_ok h \<Longrightarrow> runner_live r \<Longrightarrow> cache_ok (h\<lparr>cache := Put k r (cache h)\<rparr>)"
  using Put_refines [of "cache h" k r] set_trim [of "capacity (cache h)" "touch k r (entries (cache h))"]
  by (auto simp: cache_ok_def touch_def)

lemma handler_control:
  "RunQuery E n name args r = Ok (res, r') \<Longrightarrow> control_of r' = control_of r"
  "RunUpdate E n name args r = Ok (res, r') \<Longrightarrow> control_of r' = control_of r"
  by (auto simp: RunQuery_def RunUpdate_def dest: run_handler_control split: option.splits)

lemma ValidateUpdate_control: "ValidateUpdate E n name args r = Ok (v, r') \<Longrightarrow> control_of r' = control_of r"
  by (auto simp: ValidateUpdate_def bind_flow_Ok dest!: run_handler_control split: option.splits)

lemma accept_update_control:
  assumes "accept_update E n idn msg req r = Ok (out, r')"
  shows "control_of r' = control_of r"
proof -
  from assms obtain res r1
    where ru: "RunUpdate E n (fst req) (FromProtoPayloads (snd req)) r = Ok (res, r1)"
    by (auto simp: accept_update_def Let_def bind_flow_Ok)
  moreover have "r1 = r'"
    using assms ru by (auto simp: accept_update_def Let_def split: sum.splits wf_error.splits)
  ultimately show ?thesis using handler_control(2) by blast
qed

lemma process_update_control:
  assumes "process_update E n idn msg r = Ok (out, r')"
  shows "control_of r' = control_of r"
proof (cases "um_request msg")
  case (Some req)
  with assms obtain v r1 where vu: "ValidateUpdate E n (fst req) (FromProtoPayloads (snd req)) r = Ok (v, r1)"
    by (auto simp: process_update_def bind_flow_Ok)
  have "control_of r' = control_of r1"
  proof (cases v)
    case None
    with assms Some vu show ?thesis by (auto simp: process_update_def dest: accept_update_control)
  next
    case (Some e)
    with assms \<open>um_request msg = Some req\<close> vu show ?thesis by (cases e) (auto simp: process_update_def Let_def)
  qed
  with ValidateUpdate_control [OF vu] show ?thesis by simp
qed (use assms in \<open>simp add: process_update_def\<close>)

lemma process_updates_control:
  "process_updates E n idn msgs r = Ok (out, r') \<Longrightarrow> control_of r' = control_of r"
  by (induction msgs arbitrary: r out) (auto simp: bind_flow_Ok dest!: process_update_control)

lemma answer_query_control:
  assumes "answer_query E n q r = Ok (res, r')"
  shows "control_of r' = control_of r"
proof (cases "IsDone r")
  case False
  with assms obtain v r1
    where rq: "RunQuery E n (fst q) (FromProtoPayloads (snd q)) r = Ok (v, r1)"
    by (auto simp: answer_query_def bind_flow_Ok)
  moreover have "r1 = r'"
    using assms rq False by (auto simp: answer_query_def split: sum.splits wf_error.splits)
  ultimately show ?thesis using handler_control(1) by blast
qed (use assms in \<open>simp add: answer_query_def\<close>)

lemma answer_queries_control:
  "answer_queries E n qs r = Ok (out, r') \<Longrightarrow> control_of r' = control_of r"
proof (induction qs arbitrary: r out)
  case (Cons q qs)
  then show ?case by (cases q) (auto simp: bind_flow_Ok dest!: answer_query_control)
qed simp

lemma runner_live_control: "control_of r' = control_of r \<Longrightarrow> runner_live r' = runner_live r"
  by (simp add: runner_live_def control_of_def)

lemma RunBody_end_control:
  "coroutine (RunBody_end E out r) = coroutine r" "deadlocked (RunBody_end E out r) = deadlocked r"
  by (cases out; simp add: push_produced_def)+

lemma resume_live:
  assumes "ResumeCoroutine E n r = Ok r'" and "runner_live r" and "\<not> deadlocked r'"
  shows "runner_live r'"
  using assms
  by (auto simp: ResumeCoroutine_def runner_live_def RunBody_end_control dest: exec_control_fields(2,5)
      split: coroutine.splits prod.splits stop.splits if_splits)

lemma set_future_fields [simp]:
  "coroutine (set_future a f r) = coroutine r" "deadlocked (set_future a f r) = deadlocked r"
  "status (set_future a f r) = status r"
  by (simp_all add: set_future_def)

lemma fold_set_future:
  "coroutine (fold (\<lambda>a. set_future a f) as r) = coroutine r
   \<and> deadlocked (fold (\<lambda>a. set_future a f) as r) = deadlocked r
   \<and> status (fold (\<lambda>a. set_future a f) as r) = status r"
  by (induction as arbitrary: r) auto

lemma apply_switch_live:
  "coroutine (apply_switch eid a r) = coroutine r \<and> deadlocked (apply_switch eid a r) = deadlocked r
   \<and> status (apply_switch eid a r) = status r"
proof (cases a)
  case (ActivityEv e)
  then show ?thesis by (cases e) (auto simp: ResolveActivity_def resolve_at_def split: option.split)
next
  case (TimerEv e)
  then show ?thesis by (cases e) (auto split: option.split)
next
  case (ChildEv e)
  then show ?thesis by (cases e) (auto simp: at_child_future_def split: option.split)
next
  case (NexusEv e)
  then show ?thesis by (cases e) (auto simp: ResolveNexusOperation_def resolve_at_def split: option.split)
qed (simp_all add: fold_set_future)

lemma ApplyEvents_live:
  "coroutine (ApplyEvents evs r) = coroutine r \<and> deadlocked (ApplyEvents evs r) = deadlocked r
   \<and> status (ApplyEvents evs r) = status r"
  by (induction evs arbitrary: r) (auto simp: ApplyEventToState_def apply_switch_live Let_def)

lemma swallow_Ok: "swallow p = Ok r \<Longrightarrow> r = snd p"
  by (cases p rule: swallow.cases) auto

lemma reapply_step_live:
  assumes "reapply_step E n step r = Ok r'" and "runner_live r"
  shows "runner_live r'"
proof (cases step)
  case (ReplayUpdate name args)
  show ?thesis
  proof (cases "update_handlers r name")
    case None
    with ReplayUpdate assms show ?thesis by (simp add: reapply_step_def)
  next
    case (Some h)
    with ReplayUpdate assms(1) obtain res r1
      where p: "run_handler E n h args r = Ok (res, r1)" "swallow (res, r1) = Ok r'"
      by (auto simp: reapply_step_def bind_flow_Ok)
    have "control_of r' = control_of r"
      using run_handler_control [OF p(1)] swallow_Ok [OF p(2)] by simp
    from runner_live_control [OF this] assms(2) show ?thesis by simp
  qed
next
  case (ReplayEvent ev)
  with assms show ?thesis
    by (auto simp: reapply_step_def ApplyEventToState_def runner_live_def apply_switch_live)
qed

lemma reapply_live:
  assumes "\<not> deadlocked r \<longrightarrow> runner_live r" and "reapply E n steps r = Ok r'" and "\<not> deadlocked r'"
  shows "runner_live r'"
  using assms
proof (induction steps arbitrary: r)
  case (Cons step steps)
  show ?case
  proof (cases "\<not> has_coroutine r \<or> IsDone r \<or> deadlocked r")
    case False
    with Cons.prems have live: "runner_live r" by simp
    from False Cons.prems(2) obtain r1 r2
      where "reapply_step E n step r = Ok r1" and r2: "ResumeCoroutine E n r1 = Ok r2"
        and re: "reapply E n steps r2 = Ok r'"
      by (auto simp: bind_flow_Ok)
    then have r1: "runner_live r1" using reapply_step_live live by blast
    have "\<not> deadlocked r2 \<longrightarrow> runner_live r2" using resume_live [OF r2 r1] by blast
    from Cons.IH [OF this re Cons.prems(3)] show ?thesis .
  qed (use Cons.prems in auto)
qed auto

lemma Run_live:
  assumes "Run E n r = Ok r'" and "coroutine r = NoCoroutine" and "\<not> deadlocked r" and "status r = Blocked"
    and "\<not> deadlocked r'"
  shows "runner_live r'"
proof -
  let ?s = "start_coroutine (r\<lparr>commands := [], produced_commands := []\<rparr>)"
  have "runner_live ?s"
    using assms(2-4) by (simp add: start_coroutine_def has_coroutine_def runner_live_def)
  moreover from assms(1) obtain r1 where "ResumeCoroutine E n ?s = Ok r1"
    and re: "reapply E n (post_update_timeline (scan r1)) r1 = Ok r'"
    by (auto simp: Run_def bind_flow_Ok ReapplyHistoricalUpdates_def)
  ultimately have "\<not> deadlocked r1 \<longrightarrow> runner_live r1" using resume_live by blast
  from reapply_live [OF this re assms(5)] show ?thesis .
qed

section \<open>The cache invariant over tasks\<close>

lemma cache_ok_cong: "cache h' = cache h \<Longrightarrow> cache_ok h' = cache_ok h"
  by (simp add: cache_ok_def)

lemma cache_ok_respond [simp]: "cache_ok (fst (respond gw x h)) = cache_ok h"
  by (simp add: cache_ok_def)

lemma complete_task_cache:
  assumes "cache_ok h" and "runner_live r"
  shows "cache_ok (fst (complete_task E gw n task r h))"
proof (cases "process_updates E n (gw_identity gw) (tk_messages task) r")
  case (Ok p)
  then obtain msgs r1 where p: "process_updates E n (gw_identity gw) (tk_messages task) r = Ok (msgs, r1)"
    by (cases p) auto
  show ?thesis
  proof (cases "answer_queries E n (tk_queries task) r1")
    case (Ok q)
    then obtain answers r2 where q: "answer_queries E n (tk_queries task) r1 = Ok (answers, r2)"
      by (cases q) auto
    have "runner_live r2"
      using assms(2) process_updates_control [OF p] answer_queries_control [OF q] runner_live_control by metis
    then have w: "cache_ok (write_back (tk_run_id task) r2 h)" using assms(1) by (simp add: cache_ok_write_back)
    have "cache_ok (fst (case respond gw x (write_back (tk_run_id task) r2 h) of
        (h1, Done) \<Rightarrow> (if IsDone r2 then h1\<lparr>cache := Erase (tk_run_id task) (cache h1)\<rparr> else h1, Done)
      | thrown \<Rightarrow> thrown))" for x
      using w cache_ok_Erase [OF w, of "tk_run_id task"] by (simp add: respond_def cache_ok_def)
    with p q show ?thesis by (simp add: complete_task_def Let_def)
  qed (use p assms in \<open>simp_all add: complete_task_def Let_def\<close>)
qed (use assms in \<open>simp_all add: complete_task_def Let_def\<close>)

lemma finish_task_cache:
  assumes "cache_ok h" and "resident \<or> tk_query task = None \<Longrightarrow> case runner of None \<Rightarrow> True | Some r \<Rightarrow> runner_live r"
  shows "cache_ok (fst (finish_task E gw n task runner resident h))"
proof (cases "tk_query task")
  case None
  with assms show ?thesis by (auto simp: finish_task_def complete_task_cache split: option.splits)
next
  case (Some q)
  show ?thesis
  proof (cases runner)
    case None
    with Some assms(1) show ?thesis by (simp add: finish_task_def answer_legacy_query_def)
  next
    case (Some r)
    show ?thesis
    proof (cases "answer_query E n q r")
      case (Ok p)
      then obtain res r' where p: "answer_query E n q r = Ok (res, r')" by (cases p) auto
      have "resident \<Longrightarrow> runner_live r'"
        using assms(2) Some answer_query_control [OF p] runner_live_control by fastforce
      with Some \<open>tk_query task = Some q\<close> p assms(1) show ?thesis
        by (auto simp: finish_task_def answer_legacy_query_def cache_ok_write_back)
    qed (use Some \<open>tk_query task = Some q\<close> assms(1) in \<open>simp_all add: finish_task_def answer_legacy_query_def\<close>)
  qed
qed

lemma abort_deadlock_cache: "cache_ok h \<Longrightarrow> cache_ok (fst (abort_deadlock gw task r h))"
  using cache_ok_Erase [of h "tk_run_id task"] by (simp add: abort_deadlock_def cache_ok_def)

lemma ApplyAndResume_live:
  assumes "ApplyAndResume E n evs r = Ok r'" and "runner_live r" and "\<not> deadlocked r'"
  shows "runner_live r'"
proof -
  let ?r = "ApplyEvents evs (r\<lparr>commands := [], produced_commands := []\<rparr>)"
  have "runner_live ?r" using assms(2) by (simp add: runner_live_def ApplyEvents_live)
  with assms show ?thesis by (auto simp: ApplyAndResume_def Let_def split: if_splits intro: resume_live)
qed

lemma continue_cached_cache:
  assumes "cache_ok h" and "runner_live r"
  shows "cache_ok (fst (continue_cached E gw n task evs r h))"
proof -
  let ?h = "h\<lparr>cache_hits := Suc (cache_hits h)\<rparr>"
  have h: "cache_ok ?h" using assms(1) by (simp add: cache_ok_def)
  have r: "runner_live (SetDeadlockTimeout t r)" for t
    using assms(2) by (simp add: runner_live_def SetDeadlockTimeout_def)
  show ?thesis
    using h assms(2) ApplyAndResume_live [OF _ r]
    by (auto simp: continue_cached_def Let_def finish_task_cache abort_deadlock_cache cache_ok_write_back
        split: flow.split)
qed

lemma replay_task_cache:
  assumes "cache_ok h"
  shows "cache_ok (fst (replay_task E gw n task wi fn evs h))"
proof -
  let ?h = "h\<lparr>replays := Suc (replays h)\<rparr>"
  have h: "cache_ok ?h" using assms(1) by (simp add: cache_ok_def)
  have live: "runner_live r"
    if "Run E n (SetDeadlockTimeout t (new_runner E wi rp ps f i s)) = Ok r" "\<not> deadlocked r" for t rp ps f i s r
    using that by (intro Run_live [OF that(1)]) (simp_all add: SetDeadlockTimeout_def new_runner_def)
  have put: "cache_ok (?h\<lparr>cache := Put k r (cache ?h)\<rparr>)"
    if "Run E n (SetDeadlockTimeout t (new_runner E wi rp ps f i s)) = Ok r" "\<not> deadlocked r" for t rp ps f i s r k
    using cache_ok_Put [OF h live [OF that]] .
  show ?thesis
    using h live put
    by (auto simp: replay_task_def Let_def abort_deadlock_cache respond_mismatch_def
        intro!: finish_task_cache split: flow.split option.split)
qed

lemma lookup_cached_cache:
  assumes "cache_ok h" and "lookup_cached task evs h = (slot, h')"
  shows "cache_ok h'" and "slot = Some r \<Longrightarrow> runner_live r"
proof -
  obtain v c where g: "Get (tk_run_id task) (cache h) = (v, c)" by fastforce
  note ref = Get_refines [of "cache h" "tk_run_id task", unfolded g]
  from assms(1) have wf: "wf_cache (cache h)" by (simp add: cache_ok_def)
  have ent: "set (entries c) \<subseteq> set (entries (cache h))"
    using ref wf by (auto simp: spec_get_def touch_def split: option.splits dest: map_of_SomeD)
  have val: "v = Some r \<Longrightarrow> (tk_run_id task, r) \<in> set (entries (cache h))"
    using ref wf by (auto simp: spec_get_def split: option.splits dest: map_of_SomeD)
  show "cache_ok h'"
    using assms g ref wf ent
    by (auto simp: lookup_cached_def cache_ok_def Let_def split: if_splits option.splits)
  show "runner_live r" if "slot = Some r"
    using that assms g val
    by (force simp: lookup_cached_def cache_ok_def Let_def split: if_splits option.splits)
qed

lemma dispatch_cache:
  assumes "cache_ok h"
  shows "cache_ok (fst (dispatch E gw n task fn evs h))"
proof (cases "lookup_cached task evs h")
  case (Pair slot h')
  note lc = lookup_cached_cache [OF assms Pair]
  show ?thesis
  proof (cases slot)
    case (Some r)
    with Pair lc show ?thesis by (simp add: dispatch_def continue_cached_cache)
  next
    case None
    with Pair lc show ?thesis
      by (auto simp: dispatch_def replay_task_cache intro!: finish_task_cache split: flow.split)
  qed
qed

lemma Handle_cache: "cache_ok h \<Longrightarrow> cache_ok (fst (Handle E gw n task h))"
  by (simp add: Handle_def dispatch_cache split: option.split flow.split)

lemma reached_cache_ok:
  "cache_ok (fold (\<lambda>task h. fst (Handle E gw n task h)) tasks
     (fold (\<lambda>(name, fn). Register_workflow name fn) regs (new_task_handler tq sq policy cap dl)))"
proof -
  have "cache_ok (fold (\<lambda>task h. fst (Handle E gw n task h)) tasks h)" if "cache_ok h" for h
    using that by (induction tasks arbitrary: h) (simp_all add: Handle_cache)
  moreover have "cache_ok (fold (\<lambda>(name, fn). Register_workflow name fn) regs h)" if "cache_ok h" for h
    using that
  proof (induction regs arbitrary: h)
    case (Cons reg regs)
    have "cache_ok (Register_workflow (fst reg) (snd reg) h)"
      using Cons.prems by (simp add: Register_workflow_def cache_ok_def)
    with Cons.IH show ?case by (simp add: split_beta)
  qed simp
  moreover have "cache_ok (new_task_handler tq sq policy cap dl)"
    by (simp add: cache_ok_def new_task_handler_def wf_new_cache) (simp add: new_cache_def entries_def)
  ultimately show ?thesis by blast
qed

section \<open>Commands that end the run\<close>

fun ends_workflow :: "Command \<Rightarrow> bool" where
  "ends_workflow (CmdCompleteWorkflowExecution p) = True"
| "ends_workflow (CmdFailWorkflowExecution f) = True"
| "ends_workflow (CmdContinueAsNew t p) = True"
| "ends_workflow _ = False"

text \<open>A response that ends the run: it carries such a command.\<close>

fun ends_run :: "response \<Rightarrow> bool" where
  "ends_run (RespondWorkflowTaskCompleted t i s cmds m q) \<longleftrightarrow> list_ex ends_workflow cmds"
| "ends_run _ \<longleftrightarrow> False"

text \<open>No call of the workflow context sends such a command.\<close>

definition ending_commands :: "'s WorkflowRunner \<Rightarrow> Command list" where
  "ending_commands r = filter ends_workflow (commands r)"

lemma schedule_ending [simp]:
  "ending_commands (snd (ScheduleActivity E t i op r)) = ending_commands r"
  "ending_commands (snd (StartTimer d r)) = ending_commands r"
  "ending_commands (snd (StartChildWorkflow t i cop r)) = ending_commands r"
  "ending_commands (snd (ScheduleNexusOperation ep sv opn p nd r)) = ending_commands r"
proof -
  show "ending_commands (snd (ScheduleActivity E t i op r)) = ending_commands r"
    by (cases "activity_known (scan r) (nat_to_string (activity_seq r))")
      (simp_all add: ScheduleActivity_recorded ScheduleActivity_sent ending_commands_def)
  show "ending_commands (snd (StartTimer d r)) = ending_commands r"
    by (cases "timer_known (scan r) (timer_id r)") (simp_all add: StartTimer_recorded StartTimer_sent ending_commands_def)
  show "ending_commands (snd (StartChildWorkflow t i cop r)) = ending_commands r"
    by (cases "child_known (scan r) (child_id cop r)")
      (simp_all add: StartChildWorkflow_recorded StartChildWorkflow_sent ending_commands_def)
  show "ending_commands (snd (ScheduleNexusOperation ep sv opn p nd r)) = ending_commands r"
    by (cases "nexus_known (scan r) (nat_to_string (nexus_seq r))")
      (simp_all add: ScheduleNexusOperation_recorded ScheduleNexusOperation_sent ending_commands_def)
qed

lemma external_ending [simp]:
  "ending_commands (Cancel st r) = ending_commands r"
  "ending_commands (CancelExternalWorkflow wid r) = ending_commands r"
  "ending_commands (SignalExternalWorkflow_op wid name inp r) = ending_commands r"
  "ending_commands (UpsertSearchAttributes_op as r) = ending_commands r"
  by (simp_all add: Cancel_def cancel_timer_def cancel_activity_def CancelExternalWorkflow_def request_cancel_external_def
      SignalExternalWorkflow_op_def UpsertSearchAttributes_op_def effect_defs ending_commands_def Let_def
      split: option.split op.split)

lemma marker_ending [simp]:
  "ending_commands (snd (SideEffect E fn r)) = ending_commands r"
  "ending_commands (snd (GetVersion E cid lo hi r)) = ending_commands r"
  "ending_commands (snd (MutableSideEffect E i fn eq r)) = ending_commands r"
  "ending_commands (snd (ExecuteLocalActivity E t inp opts r)) = ending_commands r"
  by (auto simp: SideEffect_def ReplaySideEffect_def RecordSideEffect_def GetVersion_def MutableSideEffect_def
      BeginMutableSideEffect_def RecordMutableSideEffect_def ExecuteLocalActivity_def run_local_activity_def
      EmitRecordMarker_def push_cmd_def push_produced_def ending_commands_def Let_def
      split: option.split sum.split prod.split)

lemma quiet_ending [simp]:
  "ending_commands (snd (TryConsumeSignal name r)) = ending_commands r"
  "ending_commands (snd (AwaitCancellation r)) = ending_commands r"
  "ending_commands (RegisterHandler kind name h r) = ending_commands r"
  by (auto simp: TryConsumeSignal_def AwaitCancellation_def alloc_def ending_commands_def Let_def
      split: option.split) (cases kind; simp)+

lemma perform_ending: "perform E c r = (rep, r') \<Longrightarrow> ending_commands r' = ending_commands r"
  by (cases c) (auto simp: map_prod_id_eq split: if_splits; metis snd_conv schedule_ending marker_ending quiet_ending)+

interpretation unending: call_relation "\<lambda>r r'. ending_commands r' = ending_commands r"
  by unfold_locales (simp_all add: perform_ending, simp add: ending_commands_def)

lemma ending_frame [simp]:
  "ending_commands (r\<lparr>coroutine := c\<rparr>) = ending_commands r"
  "ending_commands (r\<lparr>deadlocked := d, coroutine := c\<rparr>) = ending_commands r"
  "ending_commands (r\<lparr>deadlocked := d\<rparr>) = ending_commands r"
  "ending_commands (RunBody_end E out r) = ending_commands r"
  by (simp_all add: ending_commands_def) (cases out; simp add: push_produced_def)

lemma resume_ending: "ResumeCoroutine E n r = Ok r' \<Longrightarrow> ending_commands r' = ending_commands r"
  by (auto simp: ResumeCoroutine_def dest!: unending.rel_exec
      split: coroutine.splits prod.splits stop.splits if_splits)

lemma fold_set_future_commands [simp]: "commands (fold (\<lambda>a. set_future a f) as r) = commands r"
  by (induction as arbitrary: r) (auto simp: set_future_def)

lemma apply_switch_commands [simp]: "commands (apply_switch eid a r) = commands r"
proof (cases a)
  case (ActivityEv e)
  then show ?thesis by (cases e) (auto simp: ResolveActivity_def resolve_at_def set_future_def split: option.split)
next
  case (TimerEv e)
  then show ?thesis by (cases e) (auto simp: set_future_def split: option.split)
next
  case (ChildEv e)
  then show ?thesis by (cases e) (auto simp: at_child_future_def set_future_def split: option.split)
next
  case (NexusEv e)
  then show ?thesis by (cases e) (auto simp: ResolveNexusOperation_def resolve_at_def set_future_def split: option.split)
qed simp_all

lemma ApplyEvents_commands [simp]: "commands (ApplyEvents evs r) = commands r"
  by (induction evs arbitrary: r) (auto simp: ApplyEventToState_def Let_def)

lemma ApplyEventToState_ending [simp]: "ending_commands (ApplyEventToState ev r) = ending_commands r"
  by (simp add: ApplyEventToState_def ending_commands_def Let_def)

lemma reapply_step_ending: "reapply_step E n step r = Ok r' \<Longrightarrow> ending_commands r' = ending_commands r"
  by (cases step)
    (auto simp: reapply_step_def bind_flow_Ok dest!: swallow_Ok unending.rel_run_handler split: option.splits)

lemma reapply_ending: "reapply E n steps r = Ok r' \<Longrightarrow> ending_commands r' = ending_commands r"
proof (induction steps arbitrary: r)
  case (Cons step steps)
  then show ?case
    by (auto simp: bind_flow_Ok split: if_splits dest!: reapply_step_ending resume_ending)
qed simp

lemma task_ending:
  "Run E n r = Ok r' \<Longrightarrow> ending_commands r' = []"
  "ApplyAndResume E n evs r = Ok r' \<Longrightarrow> ending_commands r' = []"
proof -
  have "ending_commands (start_coroutine (r\<lparr>commands := [], produced_commands := []\<rparr>)) = []"
    by (simp add: ending_commands_def start_coroutine_def)
  then show "ending_commands r' = []" if "Run E n r = Ok r'"
    using that by (auto simp: Run_def bind_flow_Ok ReapplyHistoricalUpdates_def dest!: reapply_ending resume_ending)
  have "ending_commands (ApplyEvents evs (r\<lparr>commands := [], produced_commands := []\<rparr>)) = []"
    by (simp add: ending_commands_def)
  then show "ending_commands r' = []" if "ApplyAndResume E n evs r = Ok r'"
    using that by (auto simp: ApplyAndResume_def Let_def dest: resume_ending split: if_splits)
qed

section \<open>What stays out of the cache\<close>

definition resident :: "string \<Rightarrow> 's task_handler \<Rightarrow> bool" where
  "resident run_id h \<longleftrightarrow> run_id \<in> fst ` set (entries (cache h))"

lemma erased_not_resident:
  "wf_cache (cache h) \<Longrightarrow> \<not> resident k (h\<lparr>cache := Erase k (cache h)\<rparr>)"
  using Erase_refines [of "cache h" k] by (auto simp: resident_def)

lemma abort_deadlock_not_resident:
  "wf_cache (cache h) \<Longrightarrow> \<not> resident (tk_run_id task) (fst (abort_deadlock gw task r h))"
  using erased_not_resident [of h "tk_run_id task"] by (simp add: abort_deadlock_def resident_def)

lemma complete_task_not_resident:
  assumes "wf_cache (cache h)" and "IsDone r" and "snd (complete_task E gw n task r h) = Done"
  shows "\<not> resident (tk_run_id task) (fst (complete_task E gw n task r h))"
proof -
  from assms(3) obtain msgs r1 answers r2
    where p: "process_updates E n (gw_identity gw) (tk_messages task) r = Ok (msgs, r1)"
      and q: "answer_queries E n (tk_queries task) r1 = Ok (answers, r2)"
    by (auto simp: complete_task_def Let_def split: flow.splits)
  have "control_of r2 = control_of r"
    using process_updates_control [OF p] answer_queries_control [OF q] by simp
  then have "IsDone r2" using assms(2) by (simp add: IsDone_def control_of_def)
  moreover have "wf_cache (cache (write_back (tk_run_id task) r2 h))"
    using assms(1) by (simp add: wf_write_back)
  ultimately show ?thesis
    using assms(3) p q erased_not_resident [of "write_back (tk_run_id task) r2 h" "tk_run_id task"]
    by (auto simp: complete_task_def respond_def resident_def Let_def split: if_splits)
qed

text \<open>The task replays a full history that does not match what the workflow did.\<close>

definition replay_mismatch :: "env \<Rightarrow> gateway \<Rightarrow> nat \<Rightarrow> workflow_task \<Rightarrow> 's task_handler \<Rightarrow> bool" where
  "replay_mismatch E gw n task h \<longleftrightarrow>
     (case (workflows h (tk_workflow_type task), assemble_history gw n task) of
        (Some fn, Ok evs) \<Rightarrow>
          (is_full_history evs \<and>
           (case Run E n (SetDeadlockTimeout (h_deadlock_timeout h)
                (new_runner E (task_info gw task h) (previous_started_event_id task > 0) (ScanHistory evs) (snd fn)
                   (ps_input (ScanHistory evs)) (fst fn))) of
              Ok r \<Rightarrow> CheckDeterminism r \<noteq> None
            | _ \<Rightarrow> False))
      | _ \<Rightarrow> False)"

text \<open>What a step of the handler that started from \<open>h\<close> leaves, \<open>strayed\<close> telling whether the replay mismatched.\<close>

definition gone_after :: "bool \<Rightarrow> workflow_task \<Rightarrow> 's task_handler \<Rightarrow> 's task_handler \<times> exit \<Rightarrow> bool" where
  "gone_after strayed task h res \<longleftrightarrow>
     (snd res = Done \<and> ends_run (last (responses (fst res))) \<longrightarrow>
        (if strayed then panic_policy h = FailWorkflowPolicy \<and> cache (fst res) = cache h
         else \<not> resident (tk_run_id task) (fst res)))
     \<and> (deadlock_reports (fst res) \<noteq> deadlock_reports h \<longrightarrow> \<not> resident (tk_run_id task) (fst res))"

lemma gone_not_done: "deadlock_reports h' = deadlock_reports h \<Longrightarrow> e \<noteq> Done \<Longrightarrow> gone_after strayed task h (h', e)"
  by (simp add: gone_after_def)

lemma gone_respond:
  "deadlock_reports h' = deadlock_reports h \<Longrightarrow> \<not> ends_run x \<Longrightarrow> gone_after strayed task h (respond gw x h')"
  by (simp add: gone_after_def respond_def)

lemma complete_task_gone:
  assumes "wf_cache (cache h')" and "runner_live r" and "ending_commands r = []"
    and "deadlock_reports h' = deadlock_reports h"
  shows "gone_after False task h (complete_task E gw n task r h')"
proof (cases "process_updates E n (gw_identity gw) (tk_messages task) r")
  case (Ok p)
  then obtain msgs r1 where p: "process_updates E n (gw_identity gw) (tk_messages task) r = Ok (msgs, r1)"
    by (cases p) auto
  show ?thesis
  proof (cases "answer_queries E n (tk_queries task) r1")
    case (Ok q)
    then obtain answers r2 where q: "answer_queries E n (tk_queries task) r1 = Ok (answers, r2)"
      by (cases q) auto
    have "IsDone r" if "list_ex ends_workflow (commands r @ terminal_commands r1)"
    proof -
      have "\<not> list_ex ends_workflow (commands r)" using assms(3)
        by (auto simp: ending_commands_def filter_empty_conv list_ex_iff)
      with that have "status r1 \<noteq> Blocked" by (auto simp: terminal_commands_def)
      then show ?thesis using process_updates_control [OF p] assms(2)
        by (simp add: control_of_def runner_live_def IsDone_def)
    qed
    with complete_task_not_resident [OF assms(1), of r E gw n task] p q assms(4) show ?thesis
      by (auto simp: gone_after_def complete_task_def respond_def Let_def split: if_splits)
  qed (use p assms(4) in \<open>simp_all add: complete_task_def Let_def gone_not_done\<close>)
qed (use assms(4) in \<open>simp_all add: complete_task_def Let_def gone_not_done\<close>)

lemma legacy_query_gone:
  "deadlock_reports h' = deadlock_reports h \<Longrightarrow> gone_after strayed task h (answer_legacy_query E gw n task q runner res h')"
  by (auto simp: answer_legacy_query_def gone_not_done intro!: gone_respond split: option.split flow.split)

lemma abort_deadlock_gone:
  "wf_cache (cache h') \<Longrightarrow> gone_after strayed task h (abort_deadlock gw task r h')"
  using abort_deadlock_not_resident [of h' task gw r] by (auto simp: gone_after_def abort_deadlock_def respond_def)

lemma respond_mismatch_gone:
  assumes "deadlock_reports h' = deadlock_reports h" and "panic_policy h' = panic_policy h" and "cache h' = cache h"
  shows "gone_after True task h (respond_mismatch gw task m h')"
  using assms by (cases "panic_policy h") (simp_all add: gone_after_def respond_mismatch_def respond_def Let_def)

lemma continue_cached_gone:
  assumes "cache_ok h'" and "runner_live r" and "deadlock_reports h' = deadlock_reports h"
  shows "gone_after False task h (continue_cached E gw n task evs r h')"
proof -
  have r: "runner_live (SetDeadlockTimeout t r)" for t
    using assms(2) by (simp add: runner_live_def SetDeadlockTimeout_def)
  from assms(1) have wf: "wf_cache (cache h')" by (simp add: cache_ok_def)
  show ?thesis
    using assms(3) wf ApplyAndResume_live [OF _ r]
    by (cases "tk_query task") (auto simp: continue_cached_def Let_def finish_task_def legacy_query_gone gone_not_done abort_deadlock_gone
        task_ending(2) wf_write_back intro!: complete_task_gone split: flow.split)
qed

lemma replay_task_gone:
  assumes "cache_ok h'" and "deadlock_reports h' = deadlock_reports h" and "panic_policy h' = panic_policy h"
    and "cache h' = cache h" and "strayed = (case Run E n (SetDeadlockTimeout (h_deadlock_timeout h')
        (new_runner E wi (previous_started_event_id task > 0) (ScanHistory evs) (snd fn) (ps_input (ScanHistory evs)) (fst fn))) of
      Ok r \<Rightarrow> CheckDeterminism r \<noteq> None | _ \<Rightarrow> False)"
  shows "gone_after strayed task h (replay_task E gw n task wi fn evs h')"
proof -
  let ?run = "Run E n (SetDeadlockTimeout (h_deadlock_timeout h')
        (new_runner E wi (previous_started_event_id task > 0) (ScanHistory evs) (snd fn) (ps_input (ScanHistory evs)) (fst fn)))"
  from assms(1) have wf: "wf_cache (cache h')" by (simp add: cache_ok_def)
  show ?thesis
  proof (cases ?run)
    case (Ok r)
    have live: "runner_live r" if "\<not> deadlocked r"
      using that by (intro Run_live [OF Ok]) (simp_all add: SetDeadlockTimeout_def new_runner_def)
    have put: "wf_cache (Put (tk_run_id task) r (cache h'))" using Put_refines [OF wf] by simp
    show ?thesis
      using Ok assms(2-5) wf live put task_ending(1) [OF Ok]
      by (cases "tk_query task") (auto simp: replay_task_def Let_def abort_deadlock_gone finish_task_def legacy_query_gone
          intro!: complete_task_gone respond_mismatch_gone split: option.split)
  qed (use assms(2) in \<open>simp_all add: replay_task_def Let_def gone_not_done\<close>)
qed

lemma lookup_cached_reports:
  "lookup_cached task evs h = (slot, h') \<Longrightarrow> deadlock_reports h' = deadlock_reports h
     \<and> panic_policy h' = panic_policy h \<and> h_deadlock_timeout h' = h_deadlock_timeout h \<and> h_task_queue h' = h_task_queue h
     \<and> (is_full_history evs \<longrightarrow> slot = None \<and> h' = h)"
  by (auto simp: lookup_cached_def Let_def split: if_splits prod.splits option.splits)

lemma Handle_gone:
  assumes "cache_ok h"
  shows "gone_after (replay_mismatch E gw n task h) task h (Handle E gw n task h)"
proof (cases "workflows h (tk_workflow_type task)")
  case None
  then show ?thesis by (auto simp: Handle_def intro: gone_respond)
next
  case (Some fn)
  show ?thesis
  proof (cases "assemble_history gw n task")
    case (Ok evs)
    obtain slot h' where l: "lookup_cached task evs h = (slot, h')" by fastforce
    note f = lookup_cached_reports [OF l] and c = lookup_cached_cache [OF assms l]
    show ?thesis
    proof (cases "is_full_history evs")
      case True
      with f have "slot = None" "h' = h" by auto
      with True Some Ok l assms show ?thesis
        by (auto simp: Handle_def dispatch_def replay_mismatch_def finish_task_def legacy_query_gone gone_not_done
            intro!: replay_task_gone split: flow.splits)
    next
      case False
      with Ok have "\<not> replay_mismatch E gw n task h" by (auto simp: replay_mismatch_def split: option.splits)
      with False Some Ok l f c show ?thesis
        by (auto simp: Handle_def dispatch_def finish_task_def legacy_query_gone gone_not_done
            intro!: continue_cached_gone gone_respond split: flow.splits option.splits)
    qed
  qed (use Some in \<open>simp_all add: Handle_def gone_not_done\<close>)
qed

section \<open>Paging\<close>

text \<open>\<open>pages\<close> is what the server returns, starting from a page token, until a token is empty.\<close>

fun page_chain ::
  "(string \<Rightarrow> rpc_error + history_page) \<Rightarrow> string \<Rightarrow> HistoryEvent list list \<Rightarrow> bool" where
  "page_chain fetch token [] \<longleftrightarrow> token = []"
| "page_chain fetch token (p # ps) \<longleftrightarrow>
     token \<noteq> [] \<and> (case fetch token of Inl e \<Rightarrow> False | Inr (evs, token') \<Rightarrow> evs = p \<and> page_chain fetch token' ps)"

lemma page_in_complete:
  "page_chain fetch token pages \<Longrightarrow> length pages \<le> n \<Longrightarrow>
   page_in fetch n token acc = Ok (acc @ concat pages)"
proof (induction pages arbitrary: token acc n)
  case Nil
  then show ?case by (cases n) simp_all
next
  case (Cons p ps)
  then obtain m where "n = Suc m" "length ps \<le> m" by (cases n) auto
  with Cons show ?case by (auto split: sum.splits)
qed

lemma page_in_deadline:
  assumes "get_history gw wid rid token = RpcFail DEADLINE_EXCEEDED msg" and "token \<noteq> []"
  shows "page_in (GetWorkflowExecutionHistory gw wid rid) (Suc n) token acc = Ok acc"
  using assms by (cases n) (simp_all add: GetWorkflowExecutionHistory_def)

section \<open>Properties of the handler\<close>

text \<open>A task and a service for the witnesses.\<close>

definition plain_task :: workflow_task where
  "plain_task = \<lparr>task_token = ''token'', tk_workflow_id = ''w'', tk_run_id = ''r'', tk_workflow_type = ''greet'',
     tk_history = [], next_page_token = [], tk_query = None, tk_queries = [], tk_messages = [],
     previous_started_event_id = 0\<rparr>"

definition paging_gateway :: gateway where
  "paging_gateway = \<lparr>gw_ns = ''default'', gw_identity = ''me'',
     get_history = (\<lambda>w r t. RpcOk ([\<lparr>event_id = 2, attrs = OtherEvent\<rparr>], if t = ''p1'' then ''p2'' else [])),
     respond_rpc = (\<lambda>x. RpcOk ())\<rparr>"

lemma paging_gateway_fields [simp]:
  "gw_ns paging_gateway = ''default''" "gw_identity paging_gateway = ''me''" "accepted paging_gateway x"
  by (simp_all add: paging_gateway_def accepted_def)

text \<open>
  C7. A workflow task is answered at most once: if handling it returns, exactly one response has been
  sent, it carries the task's token and its RPC succeeded, whatever path was taken (unknown type,
  cache hit, query, replay, non-determinism, deadlock, reset). If an exception leaves the handler,
  nothing was sent or one response was and its RPC failed. If it does not return, nothing was sent.
\<close>

theorem task_answered_once:
  "case Handle E gw n task h of
     (h', Done) \<Rightarrow> \<exists>x. responses h' = responses h @ [x] \<and> response_token x = task_token task \<and> accepted gw x
   | (h', Exception) \<Rightarrow> responses h' = responses h
       \<or> (\<exists>x. responses h' = responses h @ [x] \<and> response_token x = task_token task \<and> \<not> accepted gw x)
   | (h', NoReturn) \<Rightarrow> responses h' = responses h"
  using Handle_answers [of gw task h E n]
  by (cases "Handle E gw n task h") (auto simp: answered_once_def split: exit.split if_splits)

text \<open>
  C9. The sticky cache stays sound over any sequence of tasks on a worker with any registrations: the
  index and the recency list agree, a bounded cache stays within its capacity, and every resident
  runner has a coroutine to resume that has not overrun the deadlock timeout, with a terminal status only if that
  coroutine is done.
\<close>

theorem tasks_keep_cache:
  "cache_ok (fold (\<lambda>task h. fst (Handle E gw n task h)) tasks
     (fold (\<lambda>(name, fn). Register_workflow name fn) regs (new_task_handler tq sq policy cap dl)))"
  by (rule reached_cache_ok)

text \<open>
  C10. A run that is over leaves the cache. Take a worker with any registrations after any tasks, and one more
  task. If that task is handled and its accepted response ends the run (it completes, fails or continues it), the
  run is not resident afterwards, so the next task for it starts from history; with one exception, which
  the code has under the policy \<^verbatim>\<open>FailWorkflow\<close>: when a replay from full history does not match that history,
  the response that fails the run leaves the cache as it was, so an entry the run had before stays. After a task that
  overran the deadlock timeout, accepted or not, the run is not resident either.
\<close>

theorem finished_run_not_resident:
  assumes "h = fold (\<lambda>task h. fst (Handle E gw n task h)) tasks
      (fold (\<lambda>(name, fn). Register_workflow name fn) regs (new_task_handler tq sq policy cap dl))"
    and "Handle E gw n task h = (h', out)"
  shows "(out = Done \<and> ends_run (last (responses h')) \<longrightarrow>
      (if replay_mismatch E gw n task h then panic_policy h = FailWorkflowPolicy \<and> cache h' = cache h
       else \<not> resident (tk_run_id task) h'))
    \<and> (deadlock_reports h' \<noteq> deadlock_reports h \<longrightarrow> \<not> resident (tk_run_id task) h')"
proof -
  have "cache_ok h" unfolding assms(1) by (rule reached_cache_ok)
  from Handle_gone [OF this, of E gw n task] show ?thesis
    unfolding gone_after_def assms(2) fst_conv snd_conv .
qed

text \<open>A workflow that yields once and then returns, with the tasks that start and continue it.\<close>

definition yields_once :: "unit \<times> (Payloads \<Rightarrow> unit body)" where
  "yields_once = ((), \<lambda>ps. Invoke DoPark (\<lambda>v. Finish (Returned ps)))"

definition first_task :: workflow_task where
  "first_task = plain_task\<lparr>tk_history := [\<lparr>event_id = 1, attrs = WorkflowExecutionStarted ''greet'' [] Map.empty\<rparr>]\<rparr>"

definition second_task :: workflow_task where
  "second_task = plain_task\<lparr>tk_history := [\<lparr>event_id = 2, attrs = OtherEvent\<rparr>]\<rparr>"

definition greeting_worker :: "env \<Rightarrow> unit task_handler" where
  "greeting_worker E = fold (\<lambda>task h. fst (Handle E paging_gateway 5 task h)) [first_task]
     (fold (\<lambda>(name, fn). Register_workflow name fn) [(''greet'', yields_once)] (new_task_handler ''q'' ''s'' BlockWorkflow 2 0))"

lemmas task_evaluation = Handle_def assemble_history_def dispatch_def lookup_cached_def finish_task_def complete_task_def respond_def
  plain_task_def is_full_history_def first_event_id_def new_task_handler_def Register_workflow_def new_cache_def Let_def

theorem finished_run_not_resident_witness:
  "\<forall>E. let h' = fst (Handle E paging_gateway 5 second_task (greeting_worker E))
     in resident ''r'' (greeting_worker E) \<and> ends_run (last (responses h')) \<and> \<not> resident ''r'' h'"
proof (intro allI)
  fix E
  let ?wi = "\<lparr>wi_workflow_id = ''w'', wi_run_id = ''r'', wi_workflow_type = ''greet'', wi_task_queue = ''q'', wi_ns = ''default'',
      wi_headers = Map.empty\<rparr>"
  let ?ps = "ScanHistory [\<lparr>event_id = 1, attrs = WorkflowExecutionStarted ''greet'' [] Map.empty\<rparr>]"
  let ?r = "(SetDeadlockTimeout 0 (new_runner E ?wi False ?ps (snd yields_once) [] ()))
      \<lparr>coroutine := Parked (Finish (Returned [])), outbound_active := True\<rparr>"
  have scanned: "post_update_timeline ?ps = []" "last_event_id ?ps = 1" "ps_commands ?ps = []" "ps_input ?ps = []"
    by (simp_all add: ScanHistory_def scan_step_def empty_prescan_def FromProtoPayloads_def)
  have "Run E 5 (SetDeadlockTimeout 0 (new_runner E ?wi False ?ps (snd yields_once) [] ())) = Ok ?r"
    by (simp add: Run_def start_coroutine_def has_coroutine_def SetDeadlockTimeout_def new_runner_def ResumeCoroutine_def
        yields_once_def ReapplyHistoricalUpdates_def scanned eval_nat_numeral)
  moreover have "commands ?r = []" "\<not> deadlocked ?r" "\<not> IsDone ?r" "status ?r = Blocked" "last_event_id (scan ?r) = 1"
      "coroutine ?r = Parked (Finish (Returned []))" "CheckDeterminism ?r = None"
    by (simp_all add: SetDeadlockTimeout_def new_runner_def IsDone_def scanned CheckDeterminism_def MatchReplayCommands_def)
  ultimately obtain r where run: "Run E 5 (SetDeadlockTimeout 0 (new_runner E ?wi False ?ps (snd yields_once) [] ())) = Ok r"
    and r: "commands r = []" "\<not> deadlocked r" "\<not> IsDone r" "status r = Blocked" "last_event_id (scan r) = 1"
      "coroutine r = Parked (Finish (Returned []))" "CheckDeterminism r = None" by blast
  have h: "greeting_worker E = (new_task_handler ''q'' ''s'' BlockWorkflow 2 0)
      \<lparr>workflows := [''greet'' \<mapsto> yields_once], replays := 1, cache := \<lparr>capacity = 2, order = [(0, ''r'', r)], index = [(''r'', 0)], fresh = 1\<rparr>,
       responses := [RespondWorkflowTaskCompleted ''token'' ''me''
         (Some \<lparr>sticky_name = ''s'', sticky_normal_name = ''q'', sticky_timeout = ToProtoDuration (10 * ns_per_s)\<rparr>) [] [] []]\<rparr>"
    using run by (simp add: greeting_worker_def first_task_def task_info_def task_evaluation replay_task_def r scanned write_back_def
        Put_def put_front_def EvictToCapacity.simps assign_value_def sticky_of_def terminal_commands_def)
  obtain r2 where resumed: "ApplyAndResume E 5 [\<lparr>event_id = 2, attrs = OtherEvent\<rparr>] (SetDeadlockTimeout 0 r) = Ok r2"
    and r2: "\<not> deadlocked r2" "IsDone r2" "status r2 = Completed"
    using r by (simp add: ApplyAndResume_def SetDeadlockTimeout_def ApplyEventToState_def has_coroutine_def ResumeCoroutine_def
        IsDone_def push_produced_def eval_nat_numeral)
  have out: "snd (Handle E paging_gateway 5 second_task (greeting_worker E)) = Done
      \<and> ends_run (last (responses (fst (Handle E paging_gateway 5 second_task (greeting_worker E)))))"
    using resumed r2 r by (simp add: h second_task_def task_evaluation continue_cached_def Get_def splice_front_def deref_def
        write_back_def terminal_commands_def)
  have "\<not> replay_mismatch E paging_gateway 5 second_task (greeting_worker E)"
    by (simp add: replay_mismatch_def second_task_def task_evaluation split: option.split)
  moreover have "tk_run_id second_task = ''r''" by (simp add: second_task_def plain_task_def)
  moreover have "resident ''r'' (greeting_worker E)" by (simp add: h resident_def entries_def)
  ultimately show "let h' = fst (Handle E paging_gateway 5 second_task (greeting_worker E))
     in resident ''r'' (greeting_worker E) \<and> ends_run (last (responses h')) \<and> \<not> resident ''r'' h'"
    using finished_run_not_resident [OF greeting_worker_def [of E], of second_task] out by (metis prod.collapse)
qed

text \<open>
  History paging is complete: when the server's pages chain to an empty token, the handler ends
  with the events of the task followed by those of every page, in order, given a bound on the pages
  that the chain does not exceed.
\<close>

theorem history_paging_complete:
  assumes "page_chain (GetWorkflowExecutionHistory gw (tk_workflow_id task) (tk_run_id task)) (next_page_token task) pages"
    and "length pages \<le> n"
  shows "assemble_history gw n task = Ok (tk_history task @ concat pages)"
  using page_in_complete [OF assms] by (simp add: assemble_history_def)

theorem history_paging_complete_witness:
  "assemble_history paging_gateway 3 (plain_task\<lparr>next_page_token := ''p1''\<rparr>)
     = Ok ([] @ concat [[\<lparr>event_id = 2, attrs = OtherEvent\<rparr>], [\<lparr>event_id = 2, attrs = OtherEvent\<rparr>]])"
proof -
  let ?task = "plain_task\<lparr>next_page_token := ''p1''\<rparr>"
  have chain: "page_chain (GetWorkflowExecutionHistory paging_gateway (tk_workflow_id ?task) (tk_run_id ?task))
      (next_page_token ?task) [[\<lparr>event_id = 2, attrs = OtherEvent\<rparr>], [\<lparr>event_id = 2, attrs = OtherEvent\<rparr>]]"
    by (simp add: GetWorkflowExecutionHistory_def paging_gateway_def)
  from history_paging_complete [OF chain, of 3] show ?thesis by (simp add: plain_task_def)
qed

end
