(* ===== verification/Nexus_Handler.thy ===== *)
theory Nexus_Handler
  imports Activity_Handler
begin

text \<open>
  The handler of Nexus tasks (\<^verbatim>\<open>src/internal/nexus_task_handler.cpp\<close>, \<^verbatim>\<open>nexus_task_handler.h\<close>): the
  registry keyed by service and operation, and the decode, invoke, respond path. An operation is a
  function of its input payload; what the response RPCs answer is a parameter.
\<close>

definition NUL :: char where
  "NUL = CHR 0x00"

definition Key :: "string \<Rightarrow> string \<Rightarrow> string" where
  "Key service operation = service @ [NUL] @ operation"

type_synonym nexus_fn = "Payload \<Rightarrow> wf_error + Payload"

datatype nexus_request = StartOperation string string proto_payload | OtherRequest

record nexus_task =
  nx_token :: string
  nx_request :: nexus_request

record NexusTaskHandler =
  nh_ns :: string
  nh_identity :: string
  nh_operations :: "string \<rightharpoonup> nexus_fn"

record nexus_failed =
  nf_ns :: string
  nf_identity :: string
  nf_token :: string
  nf_error_type :: string
  nf_message :: string

record nexus_completed =
  nc_ns :: string
  nc_identity :: string
  nc_token :: string
  nc_sync_success :: proto_payload

datatype nexus_response = RespondNexusTaskFailed nexus_failed | RespondNexusTaskCompleted nexus_completed

definition Register_operation :: "string \<Rightarrow> string \<Rightarrow> nexus_fn \<Rightarrow> NexusTaskHandler \<Rightarrow> NexusTaskHandler" where
  "Register_operation service operation fn h =
     h\<lparr>nh_operations := (nh_operations h)(Key service operation \<mapsto> fn)\<rparr>"

definition has_operations :: "NexusTaskHandler \<Rightarrow> bool" where
  "has_operations h \<longleftrightarrow> dom (nh_operations h) \<noteq> {}"

definition nexus_fail ::
  "NexusTaskHandler \<Rightarrow> respond_rpcs \<Rightarrow> string \<Rightarrow> string \<Rightarrow> string \<Rightarrow> nexus_response list \<times> wf_error option" where
  "nexus_fail h R token error_type message =
     ([RespondNexusTaskFailed \<lparr>nf_ns = nh_ns h, nf_identity = nh_identity h, nf_token = token,
         nf_error_type = error_type, nf_message = message\<rparr>],
      map_option rpc_exception (failed_rpc R))"

definition nexus_catch ::
  "NexusTaskHandler \<Rightarrow> respond_rpcs \<Rightarrow> string \<Rightarrow> wf_error \<Rightarrow> nexus_response list \<times> wf_error option" where
  "nexus_catch h R token e =
     (case e of
        ApplicationError msg type nr \<Rightarrow> nexus_fail h R token ''INTERNAL'' msg
      | StdError msg \<Rightarrow> nexus_fail h R token ''INTERNAL'' msg
      | OtherThrow \<Rightarrow> ([], Some OtherThrow))"

definition Handle_nexus ::
  "respond_rpcs \<Rightarrow> NexusTaskHandler \<Rightarrow> nexus_task \<Rightarrow> nexus_response list \<times> wf_error option" where
  "Handle_nexus R h t =
     (case nx_request t of
        OtherRequest \<Rightarrow>
          nexus_fail h R (nx_token t) ''NOT_IMPLEMENTED'' ''only start-operation Nexus requests are supported''
      | StartOperation service operation payload \<Rightarrow>
          (case nh_operations h (Key service operation) of
             None \<Rightarrow>
               nexus_fail h R (nx_token t) ''NOT_FOUND''
                 (''no Nexus operation registered for service '' @ [CHR 0x27] @ service
                  @ [CHR 0x27] @ '' operation '' @ [CHR 0x27] @ operation @ [CHR 0x27])
           | Some fn \<Rightarrow>
               (case fn (FromProtoPayload payload) of
                  Inl e \<Rightarrow> nexus_catch h R (nx_token t) e
                | Inr res \<Rightarrow>
                    (let req = RespondNexusTaskCompleted \<lparr>nc_ns = nh_ns h, nc_identity = nh_identity h,
                                 nc_token = nx_token t, nc_sync_success = ToProtoPayload res\<rparr>
                     in case completed_rpc R of
                          None \<Rightarrow> ([req], None)
                        | Some e \<Rightarrow>
                            (let (rs, esc) = nexus_catch h R (nx_token t) (rpc_exception e)
                             in (req # rs, esc))))))"

section \<open>The registry\<close>

lemma Key_inject:
  assumes "NUL \<notin> set s" and "NUL \<notin> set s'"
  shows "Key s p = Key s' p' \<longleftrightarrow> s = s' \<and> p = p'"
proof
  assume k: "Key s p = Key s' p'"
  have "takeWhile (\<lambda>c. c \<noteq> NUL) (Key s p) = s" "takeWhile (\<lambda>c. c \<noteq> NUL) (Key s' p') = s'"
    using assms by (auto simp: Key_def takeWhile_append)
  with k have "s = s'" by metis
  with k show "s = s' \<and> p = p'" by (simp add: Key_def)
qed simp

lemma Key_collides: "Key (a @ [NUL] @ b) c = Key a (b @ [NUL] @ c)"
  by (simp add: Key_def)

section \<open>Routing\<close>

text \<open>
  Nexus operations are routed by service and operation: after any registrations under services
  without a NUL, the handler found for a pair is the last one registered for exactly that pair,
  although the registry is keyed by one concatenated string.
\<close>

theorem nexus_registry_routes:
  assumes "list_all (\<lambda>(s', p', f). NUL \<notin> set s') regs" and "NUL \<notin> set s"
    and "nh_operations h = Map.empty"
  shows "nh_operations (fold (\<lambda>(s', p', f). Register_operation s' p' f) regs h) (Key s p)
    = map_of (rev (map (\<lambda>(s', p', f). ((s', p'), f)) regs)) (s, p)"
  using assms(1)
proof (induction regs rule: rev_induct)
  case Nil
  with assms(3) show ?case by simp
next
  case (snoc reg regs)
  obtain s' p' f where reg: "reg = (s', p', f)" by (cases reg)
  with snoc.prems have "Key s p = Key s' p' \<longleftrightarrow> s = s' \<and> p = p'"
    using Key_inject [OF assms(2)] by simp
  with snoc reg show ?case by (auto simp: Register_operation_def)
qed

theorem nexus_registry_routes_witness:
  "nh_operations (fold (\<lambda>(s', p', f). Register_operation s' p' f)
       [(''a'', ''x'', \<lambda>p. Inr p), (''a'', ''y'', \<lambda>p. Inl OtherThrow)]
       \<lparr>nh_ns = ''d'', nh_identity = ''me'', nh_operations = Map.empty\<rparr>) (Key ''a'' ''x'') = Some (\<lambda>p. Inr p)"
  by (subst nexus_registry_routes) (simp_all add: NUL_def)

end
