(* ===== verification/Base64.thy ===== *)
theory Base64
  imports Prelude
begin

unbundle bit_operations_syntax

text \<open>
  Base64 (\<^verbatim>\<open>Base64Encode\<close> and \<^verbatim>\<open>Base64Decode\<close> in \<^verbatim>\<open>src/converter/data_converter.cpp\<close>). The
  accumulator \<^verbatim>\<open>int val\<close> is a 32-bit word: it is shifted left for every byte and never reset, so it
  overflows from the fifth byte on; right shifts are arithmetic. The lemmas show that only its low
  bits are ever read, that the encoder is the block encoding of RFC 4648, and that the decoder
  inverts it.
\<close>

section \<open>The code\<close>

definition kB64 :: string where
  "kB64 = ''ABCDEFGHIJKLMNOPQRSTUVWXYZabcdefghijklmnopqrstuvwxyz0123456789+/''"

definition b64_symbol :: "32 word \<Rightarrow> char" where
  "b64_symbol w = kB64 ! unat w"

text \<open>The inner \<^verbatim>\<open>while (bits >= 0)\<close>: the symbols pushed, and \<^verbatim>\<open>bits\<close> after the loop.\<close>

function encode_flush :: "32 word \<Rightarrow> int \<Rightarrow> string \<times> int" where
  "encode_flush val bits =
     (if bits \<ge> 0
      then (case encode_flush val (bits - 6) of
              (out, b) \<Rightarrow> (b64_symbol (signed_drop_bit (nat bits) val AND 0x3F) # out, b))
      else ([], bits))"
  by pat_completeness auto
termination
  by (relation "measure (\<lambda>(v, b). nat (b + 6))") auto

declare encode_flush.simps [simp del]

fun encode_loop :: "string \<Rightarrow> 32 word \<Rightarrow> int \<Rightarrow> string \<Rightarrow> string \<times> 32 word \<times> int" where
  "encode_loop [] val bits out = (out, val, bits)"
| "encode_loop (c # cs) val bits out =
     (let val' = push_bit 8 val + of_nat (of_char c);
          (syms, bits') = encode_flush val' (bits + 8)
      in encode_loop cs val' bits' (out @ syms))"

definition encode_tail :: "string \<times> 32 word \<times> int \<Rightarrow> string" where
  "encode_tail st =
     (case st of (out, val, bits) \<Rightarrow>
        if bits > -6
        then out @ [b64_symbol (signed_drop_bit (nat (bits + 8)) (push_bit 8 val) AND 0x3F)]
        else out)"

text \<open>\<^verbatim>\<open>while (out.size() % 4 != 0)\<close> pushes the padding.\<close>

function pad4 :: "string \<Rightarrow> string" where
  "pad4 out = (if length out mod 4 \<noteq> 0 then pad4 (out @ ''='') else out)"
  by pat_completeness auto
termination
proof (relation "measure (\<lambda>out. (4 - length out mod 4) mod 4)")
  fix out :: string
  assume "length out mod 4 \<noteq> 0"
  moreover have "length out mod 4 < 4" by simp
  ultimately have "length out mod 4 = 1 \<or> length out mod 4 = 2 \<or> length out mod 4 = 3" by arith
  then show "(out @ ''='', out) \<in> measure (\<lambda>out. (4 - length out mod 4) mod 4)"
    by (auto simp: mod_Suc)
qed simp

declare pad4.simps [simp del]

definition Base64Encode :: "string \<Rightarrow> string" where
  "Base64Encode s = pad4 (encode_tail (encode_loop s 0 (-6) []))"

definition rev_table :: "int list" where
  "rev_table = fold (\<lambda>i t. t[of_char (kB64 ! i) := int i]) [0..<64] (replicate 256 (-1))"

fun decode_loop :: "string \<Rightarrow> 32 word \<Rightarrow> int \<Rightarrow> string \<Rightarrow> string" where
  "decode_loop [] val bits out = out"
| "decode_loop (c # cs) val bits out =
     (let d = rev_table ! of_char c
      in if d = -1 then out
         else (let val' = push_bit 6 val + word_of_int d; bits' = bits + 6
               in if bits' \<ge> 0
                  then decode_loop cs val' (bits' - 8)
                         (out @ [char_of (unat (signed_drop_bit (nat bits') val' AND 0xFF))])
                  else decode_loop cs val' bits' out))"

definition Base64Decode :: "string \<Rightarrow> string" where
  "Base64Decode s = decode_loop s 0 (-8) []"

section \<open>RFC 4648\<close>

definition sym :: "nat \<Rightarrow> char" where
  "sym n = kB64 ! n"

abbreviation byte :: "char \<Rightarrow> nat" where
  "byte c \<equiv> of_char c"

fun rfc_encode :: "string \<Rightarrow> string" where
  "rfc_encode [] = []"
| "rfc_encode [a] = [sym (byte a div 4), sym (byte a mod 4 * 16), CHR ''='', CHR ''='']"
| "rfc_encode [a, b] =
     [sym (byte a div 4), sym (byte a mod 4 * 16 + byte b div 16), sym (byte b mod 16 * 4), CHR ''='']"
| "rfc_encode (a # b # c # bs) =
     [sym (byte a div 4), sym (byte a mod 4 * 16 + byte b div 16),
      sym (byte b mod 16 * 4 + byte c div 64), sym (byte c mod 64)] @ rfc_encode bs"

section \<open>Only the low bits are read\<close>

lemma signed_field:
  fixes x :: "32 word"
  assumes "k + w < 32"
  shows "unat (signed_drop_bit k x AND mask w) = unat x div 2 ^ k mod 2 ^ w"
proof -
  have "signed_drop_bit k x AND mask w = take_bit w (drop_bit k x)"
    by (rule bit_word_eqI) (use assms in \<open>auto simp: bit_simps\<close>)
  moreover have "unat (take_bit w (drop_bit k x)) = take_bit w (drop_bit k (unat x))"
    by (simp only: unsigned_take_bit_eq unat_drop_bit_eq)
  ultimately show ?thesis by (simp only: take_bit_eq_mod drop_bit_eq_div)
qed

lemma mask_literals: "(0x3F :: 32 word) = mask 6" "(0xFF :: 32 word) = mask 8"
  by (simp_all add: mask_eq_exp_minus_1)

lemma low_field:
  assumes "k + w \<le> 32"
  shows "(m mod 2 ^ 32) div 2 ^ k mod 2 ^ w = (m :: nat) div 2 ^ k mod 2 ^ w"
proof -
  have "min w (32 - k) = w" using assms by simp
  then show ?thesis
    unfolding take_bit_eq_mod [symmetric] drop_bit_eq_div [symmetric] by (simp add: drop_bit_take_bit)
qed

lemma unat_shift8: "unat (push_bit 8 v + of_nat n :: 32 word) = (unat v * 256 + n) mod 2 ^ 32"
proof -
  have "push_bit 8 v + of_nat n = (of_nat (unat v * 256 + n) :: 32 word)"
    by (simp add: push_bit_eq_mult)
  then show ?thesis by (simp only: unat_of_nat) simp
qed

lemma unat_shift6: "unat (push_bit 6 v + of_nat n :: 32 word) = (unat v * 64 + n) mod 2 ^ 32"
proof -
  have "push_bit 6 v + of_nat n = (of_nat (unat v * 64 + n) :: 32 word)"
    by (simp add: push_bit_eq_mult)
  then show ?thesis by (simp only: unat_of_nat) simp
qed

lemma symbol_field:
  fixes v :: "32 word"
  assumes "k \<le> 20" and "unat v = m mod 2 ^ 32"
  shows "b64_symbol (signed_drop_bit k v AND 0x3F) = sym (m div 2 ^ k mod 64)"
  using signed_field [of k 6 v] low_field [of k 6 m] assms
  by (simp add: b64_symbol_def sym_def mask_literals)

lemma byte_field:
  fixes v :: "32 word"
  assumes "k \<le> 20" and "unat v = m mod 2 ^ 32"
  shows "unat (signed_drop_bit k v AND 0xFF) = m div 2 ^ k mod 256"
  using signed_field [of k 8 v] low_field [of k 8 m] assms by (simp add: mask_literals)

section \<open>The encoder, block by block\<close>

lemma flush_once:
  assumes "0 \<le> bits" and "bits < 6"
  shows "encode_flush v bits = ([b64_symbol (signed_drop_bit (nat bits) v AND 0x3F)], bits - 6)"
  using assms by (simp add: encode_flush.simps [of v bits] encode_flush.simps [of v "bits - 6"])

lemma flush_twice:
  "encode_flush v 6 = ([b64_symbol (signed_drop_bit 6 v AND 0x3F), b64_symbol (signed_drop_bit 0 v AND 0x3F)], -6)"
  by (simp add: encode_flush.simps [of v 6] encode_flush.simps [of v 0] encode_flush.simps [of v "-6"])

text \<open>The accumulator is the number read so far, modulo \<open>2 ^ 32\<close>.\<close>

definition holds :: "32 word \<Rightarrow> nat \<Rightarrow> bool" where
  "holds v m \<longleftrightarrow> unat v = m mod 2 ^ 32"

lemma holds_unat: "holds v (unat v)"
proof -
  have "unat v < 2 ^ LENGTH(32)" by (rule unsigned_less)
  then show ?thesis by (simp add: holds_def)
qed

lemma holds_shift8: "holds v m \<Longrightarrow> holds (push_bit 8 v + of_nat n) (m * 256 + n)"
  by (simp only: holds_def unat_shift8) (metis mod_add_left_eq mod_mult_left_eq)

lemma holds_shift6: "holds v m \<Longrightarrow> holds (push_bit 6 v + of_nat n) (m * 64 + n)"
  by (simp only: holds_def unat_shift6) (metis mod_add_left_eq mod_mult_left_eq)

lemma holds_zero8: "holds v m \<Longrightarrow> holds (push_bit 8 v) (m * 256)"
  using holds_shift8 [of v m 0] by simp

lemmas symbol_of = symbol_field [folded holds_def]
lemmas byte_of = byte_field [folded holds_def]

lemma encode_byte:
  assumes "holds v m" and "b \<in> {-6, -4}"
  shows "encode_loop (a # cs) v b out
    = encode_loop cs (push_bit 8 v + of_nat (byte a)) (b + 2) (out @ [sym ((m * 256 + byte a) div 2 ^ nat (b + 8) mod 64)])"
  using assms(2) symbol_of [OF _ holds_shift8 [OF assms(1), of "byte a"], of "nat (b + 8)"]
  by (auto simp: flush_once)

lemma encode_third:
  assumes "holds v m"
  shows "encode_loop (a # cs) v (-2) out
    = encode_loop cs (push_bit 8 v + of_nat (byte a)) (-6) (out @ [sym ((m * 256 + byte a) div 64 mod 64), sym ((m * 256 + byte a) mod 64)])"
  using symbol_of [OF _ holds_shift8 [OF assms(1), of "byte a"], of 6]
    symbol_of [OF _ holds_shift8 [OF assms(1), of "byte a"], of 0]
  by (simp add: flush_twice)

lemma field_split:
  fixes x y p q :: nat
  assumes "0 < q" and "y < p * q"
  shows "(x * (p * q) + y) div q mod (p * r) = x mod r * p + y div q"
proof -
  have "(x * (p * q) + y) div q = (q * (x * p) + y) div q" by (simp add: ac_simps)
  also have "\<dots> = x * p + y div q" using assms(1) by simp
  also have "\<dots> = (p * r) * (x div r) + (x mod r * p + y div q)"
    by (metis (no_types, lifting) add.assoc distrib_right div_mult_mod_eq mult.assoc mult.commute)
  finally have "(x * (p * q) + y) div q mod (p * r) = (x mod r * p + y div q) mod (p * r)" by simp
  moreover have "x mod r * p + y div q < p * r" if "0 < r"
  proof -
    have "y div q < p" using assms by (simp add: less_mult_imp_div_less mult.commute)
    moreover have "x mod r * p + p \<le> p * r"
      using that by (metis Suc_leI add.commute mod_less_divisor mult.commute mult_Suc mult_le_mono2)
    ultimately show ?thesis by simp
  qed
  ultimately show ?thesis
    using assms by (cases "r = 0") (simp_all add: \<open>(x * (p * q) + y) div q = (q * (x * p) + y) div q\<close>)
qed

lemma sextets:
  fixes a b c m :: nat
  assumes "a < 256" and "b < 256" and "c < 256"
  shows "(m * 256 + a) div 4 mod 64 = a div 4"
    and "((m * 256 + a) * 256 + b) div 16 mod 64 = a mod 4 * 16 + b div 16"
    and "(((m * 256 + a) * 256 + b) * 256 + c) div 64 mod 64 = b mod 16 * 4 + c div 64"
    and "(((m * 256 + a) * 256 + b) * 256 + c) mod 64 = c mod 64"
    and "((m * 256 + a) * 256) div 16 mod 64 = a mod 4 * 16"
    and "(((m * 256 + a) * 256 + b) * 256) div 64 mod 64 = b mod 16 * 4"
proof -
  have skip: "(x * (k * n) + y) mod n = y mod n" for x k n y :: nat by (metis mod_mult_self3 mult.assoc)
  have m4: "(m * 256 + a) mod 4 = a mod 4" using skip [of m 64 4 a] by simp
  have m16: "((m * 256 + a) * 256 + b) mod 16 = b mod 16" using skip [of "m * 256 + a" 16 16 b] by simp
  show "(m * 256 + a) div 4 mod 64 = a div 4"
    using field_split [of 4 a 64 m 1] assms by simp
  show "((m * 256 + a) * 256 + b) div 16 mod 64 = a mod 4 * 16 + b div 16"
    using field_split [of 16 b 16 "m * 256 + a" 4] assms m4 by simp
  show "(((m * 256 + a) * 256 + b) * 256 + c) div 64 mod 64 = b mod 16 * 4 + c div 64"
    using field_split [of 64 c 4 "(m * 256 + a) * 256 + b" 16] assms m16 by simp
  show "(((m * 256 + a) * 256 + b) * 256 + c) mod 64 = c mod 64"
    using skip [of "(m * 256 + a) * 256 + b" 4 64 c] by simp
  show "((m * 256 + a) * 256) div 16 mod 64 = a mod 4 * 16"
    using field_split [of 16 0 16 "m * 256 + a" 4] m4 by simp
  show "(((m * 256 + a) * 256 + b) * 256) div 64 mod 64 = b mod 16 * 4"
    using field_split [of 64 0 4 "(m * 256 + a) * 256 + b" 16] m16 by simp
qed

lemma pad4_blocks:
  assumes "length out mod 4 = 0"
  shows "pad4 out = out" "pad4 (out @ [x, y]) = out @ [x, y, CHR ''='', CHR ''='']"
    "pad4 (out @ [x, y, z]) = out @ [x, y, z, CHR ''='']"
proof -
  have len: "Suc (Suc (length out)) mod 4 = 2" "Suc (Suc (Suc (length out))) mod 4 = 3"
    "Suc (Suc (Suc (Suc (length out)))) mod 4 = 0"
    using assms by (simp_all add: mod_Suc)
  show "pad4 out = out" using assms by (simp add: pad4.simps)
  show "pad4 (out @ [x, y, z]) = out @ [x, y, z, CHR ''='']"
    using len by (simp add: pad4.simps [of "out @ [x, y, z]"] pad4.simps [of "out @ [x, y, z, CHR ''='']"])
  show "pad4 (out @ [x, y]) = out @ [x, y, CHR ''='', CHR ''='']"
    using len by (simp add: pad4.simps [of "out @ [x, y]"] pad4.simps [of "out @ [x, y, CHR ''='']"]
        pad4.simps [of "out @ [x, y, CHR ''='', CHR ''='']"])
qed

lemma encode_is_rfc:
  assumes "holds v m" and "length out mod 4 = 0"
  shows "pad4 (encode_tail (encode_loop s v (-6) out)) = out @ rfc_encode s"
  using assms
proof (induction s arbitrary: v m out rule: rfc_encode.induct)
  case 1
  then show ?case by (simp add: encode_tail_def pad4_blocks)
next
  case (2 a)
  note h = holds_shift8 [OF "2.prems"(1), of "byte a"]
  have "encode_tail (encode_loop [a] v (-6) out) = out @ [sym (byte a div 4), sym (byte a mod 4 * 16)]"
    using encode_byte [OF "2.prems"(1), of "-6" a "[]" out] symbol_of [OF _ holds_zero8 [OF h], of 4]
      sextets [of "byte a" 0 0 m]
    by (simp add: encode_tail_def del: encode_loop.simps(2))
  with "2.prems" show ?case by (simp add: pad4_blocks)
next
  case (3 a b)
  note h = holds_shift8 [OF "3.prems"(1), of "byte a"]
  note h2 = holds_shift8 [OF h, of "byte b"]
  have "encode_tail (encode_loop [a, b] v (-6) out)
      = out @ [sym (byte a div 4), sym (byte a mod 4 * 16 + byte b div 16), sym (byte b mod 16 * 4)]"
    using encode_byte [OF "3.prems"(1), of "-6" a "[b]" out] encode_byte [OF h, of "-4" b "[]"]
      symbol_of [OF _ holds_zero8 [OF h2], of 6] sextets [of "byte a" "byte b" 0 m]
    by (simp add: encode_tail_def del: encode_loop.simps(2))
  with "3.prems" show ?case by (simp add: pad4_blocks)
next
  case (4 a b c bs)
  note h = holds_shift8 [OF "4.prems"(1), of "byte a"]
  note h2 = holds_shift8 [OF h, of "byte b"]
  note h3 = holds_shift8 [OF h2, of "byte c"]
  let ?o = "out @ [sym (byte a div 4), sym (byte a mod 4 * 16 + byte b div 16),
      sym (byte b mod 16 * 4 + byte c div 64), sym (byte c mod 64)]"
  have "encode_loop (a # b # c # bs) v (-6) out = encode_loop bs (push_bit 8 (push_bit 8 (push_bit 8 v
      + of_nat (byte a)) + of_nat (byte b)) + of_nat (byte c)) (-6) ?o"
    using encode_byte [OF "4.prems"(1), of "-6" a "b # c # bs" out] encode_byte [OF h, of "-4" b "c # bs"]
      encode_third [OF h2, of c bs] sextets [of "byte a" "byte b" "byte c" m]
    by (simp del: encode_loop.simps(2))
  moreover have "length ?o mod 4 = 0" using "4.prems"(2) by simp
  ultimately show ?case using "4.IH" [OF h3, of ?o] by (simp del: encode_loop.simps(2))
qed

section \<open>The decoder\<close>

lemma rev_table_symbols: "list_all (\<lambda>n. rev_table ! of_char (kB64 ! n) = int n) [0..<64]"
  by code_simp

lemma rev_table_pad: "rev_table ! of_char (CHR ''='') = -1"
  by code_simp

lemma rev_sym: "n < 64 \<Longrightarrow> rev_table ! byte (sym n) = int n"
  using rev_table_symbols by (simp add: list_all_iff sym_def)

lemma decode_first:
  "n < 64 \<Longrightarrow> decode_loop (sym n # cs) v (-8) out = decode_loop cs (push_bit 6 v + of_nat n) (-2) out"
  by (simp add: rev_sym)

lemma decode_sym:
  assumes "holds v m" and "n < 64" and "b \<in> {-2, -4, -6}"
  shows "decode_loop (sym n # cs) v b out
    = decode_loop cs (push_bit 6 v + of_nat n) (b - 2)
        (out @ [char_of ((m * 64 + n) div 2 ^ nat (b + 6) mod 256)])"
  using assms(3) byte_of [OF _ holds_shift6 [OF assms(1), of n], of "nat (b + 6)"] assms(2)
  by (auto simp: rev_sym Let_def)

lemma decode_pad: "decode_loop (CHR ''='' # cs) v b out = out"
  using rev_table_pad by (simp add: Let_def)

lemma octets:
  fixes s1 s2 s3 s4 m :: nat
  assumes "s1 < 64" and "s2 < 64" and "s3 < 64" and "s4 < 64"
  shows "((m * 64 + s1) * 64 + s2) div 16 mod 256 = s1 * 4 + s2 div 16"
    and "(((m * 64 + s1) * 64 + s2) * 64 + s3) div 4 mod 256 = s2 mod 16 * 16 + s3 div 4"
    and "((((m * 64 + s1) * 64 + s2) * 64 + s3) * 64 + s4) mod 256 = s3 mod 4 * 64 + s4"
proof -
  have skip: "(x * (k * n) + y) mod n = y mod n" for x k n y :: nat by (metis mod_mult_self3 mult.assoc)
  have "(m * 64 + s1) mod 64 = s1" using assms by simp
  then show "((m * 64 + s1) * 64 + s2) div 16 mod 256 = s1 * 4 + s2 div 16"
    using field_split [of 16 s2 4 "m * 64 + s1" 64] assms by simp
  have "((m * 64 + s1) * 64 + s2) mod 16 = s2 mod 16" using skip [of "m * 64 + s1" 4 16 s2] by simp
  then show "(((m * 64 + s1) * 64 + s2) * 64 + s3) div 4 mod 256 = s2 mod 16 * 16 + s3 div 4"
    using field_split [of 4 s3 16 "(m * 64 + s1) * 64 + s2" 16] assms by simp
  have "(((m * 64 + s1) * 64 + s2) * 64 + s3) mod 4 = s3 mod 4"
    using skip [of "(m * 64 + s1) * 64 + s2" 16 4 s3] by simp
  then show "((((m * 64 + s1) * 64 + s2) * 64 + s3) * 64 + s4) mod 256 = s3 mod 4 * 64 + s4"
    using field_split [of 1 s4 64 "((m * 64 + s1) * 64 + s2) * 64 + s3" 4] assms by simp
qed

lemma sextet_fields:
  "byte a div 4 < 64" "byte a mod 4 * 16 + byte b div 16 < 64" "byte b mod 16 * 4 + byte c div 64 < 64"
  "byte a div 4 * 4 + (byte a mod 4 * 16 + byte b div 16) div 16 = byte a"
  "(byte a mod 4 * 16 + byte b div 16) mod 16 * 16 + (byte b mod 16 * 4 + byte c div 64) div 4 = byte b"
  "(byte b mod 16 * 4 + byte c div 64) mod 4 * 64 + byte c mod 64 = byte c"
  "byte a mod 4 * 16 < 64" "byte b mod 16 * 4 < 64"
  "byte a div 4 * 4 + byte a mod 4 * 16 div 16 = byte a"
  "(byte a mod 4 * 16 + byte b div 16) mod 16 * 16 + byte b mod 16 * 4 div 4 = byte b"
proof -
  have lt: "byte a < 256" "byte b < 256" "byte c < 256" by simp_all
  then have q: "byte a div 4 < 64" "byte b div 16 < 16" "byte c div 64 < 4"
    "byte a mod 4 < 4" "byte b mod 16 < 16" by (simp_all add: less_mult_imp_div_less)
  show "byte a div 4 < 64" "byte a mod 4 * 16 + byte b div 16 < 64" "byte b mod 16 * 4 + byte c div 64 < 64"
    "byte a mod 4 * 16 < 64" "byte b mod 16 * 4 < 64"
    using q by linarith+
  show "byte a div 4 * 4 + (byte a mod 4 * 16 + byte b div 16) div 16 = byte a"
    "byte a div 4 * 4 + byte a mod 4 * 16 div 16 = byte a"
    "(byte a mod 4 * 16 + byte b div 16) mod 16 * 16 + (byte b mod 16 * 4 + byte c div 64) div 4 = byte b"
    "(byte a mod 4 * 16 + byte b div 16) mod 16 * 16 + byte b mod 16 * 4 div 4 = byte b"
    "(byte b mod 16 * 4 + byte c div 64) mod 4 * 64 + byte c mod 64 = byte c"
    using q by simp_all
qed

lemma decode_steps:
  assumes "holds v m" and "n < 64"
  shows "decode_loop (sym n # cs) v (-2) out
      = decode_loop cs (push_bit 6 v + of_nat n) (-4) (out @ [char_of ((m * 64 + n) div 16 mod 256)])"
    and "decode_loop (sym n # cs) v (-4) out
      = decode_loop cs (push_bit 6 v + of_nat n) (-6) (out @ [char_of ((m * 64 + n) div 4 mod 256)])"
    and "decode_loop (sym n # cs) v (-6) out
      = decode_loop cs (push_bit 6 v + of_nat n) (-8) (out @ [char_of ((m * 64 + n) mod 256)])"
  using decode_sym [OF assms, of "-2" cs out] decode_sym [OF assms, of "-4" cs out]
    decode_sym [OF assms, of "-6" cs out] by (simp_all del: decode_loop.simps(2))

lemma decode_block:
  assumes v: "holds v m" and s: "s1 < 64" "s2 < 64" "s3 < 64" "s4 < 64"
  shows "decode_loop (sym s1 # sym s2 # CHR ''='' # cs) v (-8) out = out @ [char_of (s1 * 4 + s2 div 16)]"
    and "decode_loop (sym s1 # sym s2 # sym s3 # CHR ''='' # cs) v (-8) out
      = out @ [char_of (s1 * 4 + s2 div 16), char_of (s2 mod 16 * 16 + s3 div 4)]"
    and "\<exists>v' m'. holds v' m' \<and> decode_loop (sym s1 # sym s2 # sym s3 # sym s4 # cs) v (-8) out
      = decode_loop cs v' (-8) (out @ [char_of (s1 * 4 + s2 div 16), char_of (s2 mod 16 * 16 + s3 div 4),
          char_of (s3 mod 4 * 64 + s4)])"
proof -
  note h = holds_shift6 [OF v, of s1]
  note h2 = holds_shift6 [OF h, of s2]
  note h3 = holds_shift6 [OF h2, of s3]
  note h4 = holds_shift6 [OF h3, of s4]
  note d = decode_first [OF s(1)] decode_steps(1) [OF h s(2)] decode_steps(2) [OF h2 s(3)]
    decode_steps(3) [OF h3 s(4)] octets [OF s, of m] decode_pad append_assoc append_Cons append_Nil
  show "decode_loop (sym s1 # sym s2 # CHR ''='' # cs) v (-8) out = out @ [char_of (s1 * 4 + s2 div 16)]"
    "decode_loop (sym s1 # sym s2 # sym s3 # CHR ''='' # cs) v (-8) out
      = out @ [char_of (s1 * 4 + s2 div 16), char_of (s2 mod 16 * 16 + s3 div 4)]"
    by (simp_all only: d)
  show "\<exists>v' m'. holds v' m' \<and> decode_loop (sym s1 # sym s2 # sym s3 # sym s4 # cs) v (-8) out
      = decode_loop cs v' (-8) (out @ [char_of (s1 * 4 + s2 div 16), char_of (s2 mod 16 * 16 + s3 div 4),
          char_of (s3 mod 4 * 64 + s4)])"
    by (intro exI conjI, rule h4) (simp only: d)
qed

lemma decode_of_rfc:
  assumes "holds v m"
  shows "decode_loop (rfc_encode s) v (-8) out = out @ s"
  using assms
proof (induction s arbitrary: v m out rule: rfc_encode.induct)
  case 1
  then show ?case by simp
next
  case (2 a)
  have z: "(0 :: nat) < 64" by simp
  show ?case
    by (simp only: rfc_encode.simps decode_block(1) [OF "2.prems" sextet_fields(1,7) z z] sextet_fields(9) char_of_char)
next
  case (3 a b)
  have z: "(0 :: nat) < 64" by simp
  show ?case
    by (simp only: rfc_encode.simps decode_block(2) [OF "3.prems" sextet_fields(1,2,8) z]
        sextet_fields(4,10) char_of_char)
next
  case (4 a b c bs)
  have c: "byte c mod 64 < 64" by simp
  obtain v' m' where h: "holds v' m'"
    and d: "decode_loop (rfc_encode (a # b # c # bs)) v (-8) out = decode_loop (rfc_encode bs) v' (-8) (out @ [a, b, c])"
    using decode_block(3) [OF "4.prems" sextet_fields(1) [of a] sextet_fields(2) [of a b]
      sextet_fields(3) [of b c] c, where cs = "rfc_encode bs" and out = out]
    by (auto simp only: rfc_encode.simps append_Cons append_Nil sextet_fields(4,5,6) char_of_char)
  show ?case using "4.IH" [OF h, of "out @ [a, b, c]"] by (simp only: d append_assoc append_Cons append_Nil)
qed

lemma Base64Encode_rfc: "Base64Encode s = rfc_encode s"
  using encode_is_rfc [of 0 0 "[]" s] by (simp add: Base64Encode_def holds_def)

lemma Base64_roundtrip: "Base64Decode (Base64Encode s) = s"
  using decode_of_rfc [of 0 0 s "[]"] by (simp add: Base64Decode_def Base64Encode_rfc holds_def)

lemma length_rfc: "length (rfc_encode s) = 4 * ((length s + 2) div 3)"
  by (induction s rule: rfc_encode.induct) (simp_all, presburger)

section \<open>The codec against its standard\<close>

text \<open>
  C25. The shift-register encoder, a 32-bit accumulator that overflows freely, computes the block
  encoding of RFC 4648: three bytes to four symbols, the tail padded, so the output length is four
  times the number of blocks.
\<close>

theorem encoder_is_rfc4648:
  "Base64Encode s = rfc_encode s \<and> length (Base64Encode s) = 4 * ((length s + 2) div 3)"
  by (simp add: Base64Encode_rfc length_rfc)

text \<open>
  C26. The decoder recovers every byte string from its encoding, so the encoder is injective.
\<close>

theorem decoder_inverts_encoder:
  "Base64Decode (Base64Encode s) = s \<and> (Base64Encode s = Base64Encode t \<longleftrightarrow> s = t)"
  using Base64_roundtrip by metis

end
