(* ===== verification/Data_Converter.thy ===== *)
theory Data_Converter
  imports Proto_Util Base64
begin

text \<open>
  The data converter (\<^verbatim>\<open>src/converter/data_converter.cpp\<close>, \<^verbatim>\<open>include/temporal/converter/data_converter.h\<close>):
  the converter stack, protobuf payloads, the base64 and gzip codecs, the codec chain, and the two
  payload stores. The JSON library, the protobuf runtime, zlib, the hash function and the file
  system are parameters; \<open>json_laws\<close> and \<open>zlib_laws\<close> name what the round trips need of the first and
  the third. An exception is the left side of a sum.
\<close>

section \<open>Errors and parameters\<close>

datatype dc_error = DataConverterError string | JsonException | LengthError

fun and_then :: "'e + 'a \<Rightarrow> ('a \<Rightarrow> 'e + 'b) \<Rightarrow> 'e + 'b" where
  "and_then (Inl e) f = Inl e"
| "and_then (Inr x) f = f x"

lemma and_then_Inr: "and_then m f = Inr y \<longleftrightarrow> (\<exists>x. m = Inr x \<and> f x = Inr y)"
  by (cases m) auto

text \<open>\<open>dump\<close>, \<open>parse\<close> and the typed reads answer \<open>None\<close> where the library throws.\<close>

record 'j json_lib =
  is_null :: "'j \<Rightarrow> bool"
  is_binary :: "'j \<Rightarrow> bool"
  get_binary :: "'j \<Rightarrow> string"
  null_json :: 'j
  binary_json :: "string \<Rightarrow> 'j"
  dump :: "'j \<Rightarrow> string option"
  parse :: "string \<Rightarrow> 'j option"
  json_of_string :: "string \<Rightarrow> 'j"
  get_string :: "'j \<Rightarrow> string option"
  json_of_int :: "int \<Rightarrow> 'j"
  get_int :: "'j \<Rightarrow> int option"

text \<open>
  \<open>plain\<close> are the values whose text form the library reads back; every 32-bit integer is one, and
  so is every string that is valid text.
\<close>

definition json_laws :: "'j json_lib \<Rightarrow> ('j \<Rightarrow> bool) \<Rightarrow> bool" where
  "json_laws J plain \<longleftrightarrow>
     is_null J (null_json J) \<and> (\<forall>j. is_null J j \<longrightarrow> j = null_json J)
     \<and> (\<forall>s. is_binary J (binary_json J s) \<and> \<not> is_null J (binary_json J s)
            \<and> get_binary J (binary_json J s) = s)
     \<and> (\<forall>j. plain j \<longrightarrow> \<not> is_null J j \<and> \<not> is_binary J j
            \<and> (\<exists>t. dump J j = Some t \<and> t \<noteq> [] \<and> parse J t = Some j))
     \<and> (\<forall>s. get_string J (json_of_string J s) = Some s) \<and> plain (json_of_string J [])
     \<and> (\<forall>n. - (2 ^ 31) \<le> n \<and> n < 2 ^ 31 \<longrightarrow>
            plain (json_of_int J n) \<and> get_int J (json_of_int J n) = Some n)"

text \<open>zlib answers its return code when it is not \<^verbatim>\<open>Z_OK\<close>; a string longer than \<open>max_size\<close> cannot be built.\<close>

record platform =
  compress2 :: "string \<Rightarrow> int + string"
  uncompress :: "nat \<Rightarrow> string \<Rightarrow> int + string"
  max_size :: nat

definition zlib_laws :: "platform \<Rightarrow> bool" where
  "zlib_laws P \<longleftrightarrow>
     (\<forall>s z. compress2 P s = Inr z \<longrightarrow> uncompress P (length s) z = Inr s)
     \<and> max_size P < 2 ^ 64"

record 'm proto_lib =
  type_name :: string
  serialize :: "'m \<Rightarrow> string"
  parse_from_string :: "string \<Rightarrow> 'm option"
  message_to_json :: "'m \<Rightarrow> string + string"
  json_to_message :: "string \<Rightarrow> string + 'm"

section \<open>Payload converters\<close>

definition kEncoding :: string where "kEncoding = ''encoding''"
definition kMessageType :: string where "kMessageType = ''messageType''"
definition kNull :: string where "kNull = ''binary/null''"
definition kRaw :: string where "kRaw = ''binary/plain''"
definition kJson :: string where "kJson = ''json/plain''"
definition kProto :: string where "kProto = ''binary/protobuf''"
definition kProtoJson :: string where "kProtoJson = ''json/protobuf''"

lemmas encoding_defs = kEncoding_def kMessageType_def kNull_def kRaw_def kJson_def kProto_def kProtoJson_def

text \<open>
  \<open>to_payload\<close> answers \<open>None\<close> when the converter does not handle the value; \<open>from_payload\<close> answers
  \<open>None\<close> when it reports failure.
\<close>

record 'j PayloadConverter =
  encoding :: string
  to_payload :: "'j \<Rightarrow> dc_error + Payload option"
  from_payload :: "Payload \<Rightarrow> dc_error + 'j option"

definition NilPayloadConverter :: "'j json_lib \<Rightarrow> 'j PayloadConverter" where
  "NilPayloadConverter J =
     \<lparr>encoding = kNull,
      to_payload = (\<lambda>v. if \<not> is_null J v then Inr None
                        else Inr (Some \<lparr>metadata = [kEncoding \<mapsto> kNull], pdata = []\<rparr>)),
      from_payload = (\<lambda>p. Inr (Some (null_json J)))\<rparr>"

definition BytesPayloadConverter :: "'j json_lib \<Rightarrow> 'j PayloadConverter" where
  "BytesPayloadConverter J =
     \<lparr>encoding = kRaw,
      to_payload = (\<lambda>v. if \<not> is_binary J v then Inr None
                        else Inr (Some \<lparr>metadata = [kEncoding \<mapsto> kRaw], pdata = get_binary J v\<rparr>)),
      from_payload = (\<lambda>p. Inr (Some (binary_json J (pdata p))))\<rparr>"

definition JsonPayloadConverter :: "'j json_lib \<Rightarrow> 'j PayloadConverter" where
  "JsonPayloadConverter J =
     \<lparr>encoding = kJson,
      to_payload = (\<lambda>v. case dump J v of
          None \<Rightarrow> Inl JsonException
        | Some t \<Rightarrow> Inr (Some \<lparr>metadata = [kEncoding \<mapsto> kJson], pdata = t\<rparr>)),
      from_payload = (\<lambda>p. case parse J (pdata p) of
          None \<Rightarrow> Inl JsonException
        | Some j \<Rightarrow> Inr (Some j))\<rparr>"

definition DefaultConverters :: "'j json_lib \<Rightarrow> 'j PayloadConverter list" where
  "DefaultConverters J = [NilPayloadConverter J, BytesPayloadConverter J, JsonPayloadConverter J]"

fun ToPayloadJson :: "'j PayloadConverter list \<Rightarrow> 'j \<Rightarrow> dc_error + Payload" where
  "ToPayloadJson [] v = Inl (DataConverterError ''no payload converter could encode the value'')"
| "ToPayloadJson (c # cs) v =
     and_then (to_payload c v) (\<lambda>r. case r of Some p \<Rightarrow> Inr p | None \<Rightarrow> ToPayloadJson cs v)"

definition payload_encoding :: "Payload \<Rightarrow> string" where
  "payload_encoding p = (case metadata p kEncoding of None \<Rightarrow> [] | Some e \<Rightarrow> e)"

fun from_payload_loop :: "'j PayloadConverter list \<Rightarrow> string \<Rightarrow> Payload \<Rightarrow> dc_error + 'j" where
  "from_payload_loop [] enc p = Inl (DataConverterError (''no payload converter for encoding: '' @ enc))"
| "from_payload_loop (c # cs) enc p =
     (if encoding c = enc
      then and_then (from_payload c p) (\<lambda>r. case r of Some j \<Rightarrow> Inr j | None \<Rightarrow> from_payload_loop cs enc p)
      else from_payload_loop cs enc p)"

definition FromPayloadJson :: "'j PayloadConverter list \<Rightarrow> Payload \<Rightarrow> dc_error + 'j" where
  "FromPayloadJson cs p = from_payload_loop cs (payload_encoding p) p"

section \<open>Protobuf payloads\<close>

definition WrapProtoPayload :: "string \<Rightarrow> string \<Rightarrow> Payload" where
  "WrapProtoPayload serialized message_type =
     \<lparr>metadata = [kEncoding \<mapsto> kProto, kMessageType \<mapsto> message_type], pdata = serialized\<rparr>"

definition ProtoBytes :: "Payload \<Rightarrow> dc_error + string" where
  "ProtoBytes p =
     (if payload_encoding p \<noteq> kProto
      then Inl (DataConverterError (''expected binary/protobuf payload, got encoding: '' @ payload_encoding p))
      else Inr (pdata p))"

definition ToProtoJsonPayload :: "'m proto_lib \<Rightarrow> 'm \<Rightarrow> string \<Rightarrow> dc_error + Payload" where
  "ToProtoJsonPayload L m message_type =
     (case message_to_json L m of
        Inl e \<Rightarrow> Inl (DataConverterError (''failed to encode protobuf payload as json/protobuf: '' @ e))
      | Inr t \<Rightarrow> Inr \<lparr>metadata = [kEncoding \<mapsto> kProtoJson, kMessageType \<mapsto> message_type], pdata = t\<rparr>)"

definition ReadProtoPayload :: "'m proto_lib \<Rightarrow> Payload \<Rightarrow> dc_error + 'm" where
  "ReadProtoPayload L p =
     (let enc = payload_encoding p in
      if enc = kProto then
        (case parse_from_string L (pdata p) of
           None \<Rightarrow> Inl (DataConverterError (''failed to parse protobuf payload as '' @ type_name L))
         | Some m \<Rightarrow> Inr m)
      else if enc = kProtoJson then
        (case json_to_message L (pdata p) of
           Inl e \<Rightarrow> Inl (DataConverterError
             (''failed to parse json/protobuf payload as '' @ type_name L @ '': '' @ e))
         | Inr m \<Rightarrow> Inr m)
      else Inl (DataConverterError (''expected a protobuf payload, got encoding: '' @ enc)))"

section \<open>Codecs\<close>

record PayloadCodec =
  Encode :: "Payload \<Rightarrow> dc_error + Payload"
  Decode :: "Payload \<Rightarrow> dc_error + Payload"

definition kCodecKey :: string where "kCodecKey = ''codec''"
definition kGzipCodecValue :: string where "kGzipCodecValue = ''gzip''"
definition kGzipLenKey :: string where "kGzipLenKey = ''codec-gzip-len''"

lemmas codec_key_defs = kCodecKey_def kGzipCodecValue_def kGzipLenKey_def

definition base64_Encode :: "Payload \<Rightarrow> dc_error + Payload" where
  "base64_Encode p =
     Inr (p\<lparr>pdata := Base64Encode (pdata p), metadata := (metadata p)(kCodecKey \<mapsto> ''base64'')\<rparr>)"

definition base64_Decode :: "Payload \<Rightarrow> dc_error + Payload" where
  "base64_Decode p =
     (if metadata p kCodecKey \<noteq> Some ''base64'' then Inr p
      else Inr (p\<lparr>pdata := Base64Decode (pdata p), metadata := (metadata p)(kCodecKey := None)\<rparr>))"

definition Base64PayloadCodec :: PayloadCodec where
  "Base64PayloadCodec = \<lparr>Encode = base64_Encode, Decode = base64_Decode\<rparr>"

definition GzipCompress :: "platform \<Rightarrow> string \<Rightarrow> dc_error + string" where
  "GzipCompress P s =
     (case compress2 P s of
        Inl rc \<Rightarrow> Inl (DataConverterError (''gzip codec: compression failed (zlib code '' @ to_string rc @ '')''))
      | Inr z \<Rightarrow> Inr z)"

definition GzipDecompress :: "platform \<Rightarrow> string \<Rightarrow> nat \<Rightarrow> dc_error + string" where
  "GzipDecompress P z original_len =
     (if max_size P < original_len then Inl LengthError
      else case uncompress P original_len z of
        Inl rc \<Rightarrow> Inl (DataConverterError (''gzip codec: decompression failed (zlib code '' @ to_string rc @ '')''))
      | Inr s \<Rightarrow> Inr s)"

text \<open>
  \<^verbatim>\<open>std::stoull\<close>: white space, an optional sign, digits; what follows is ignored. No digit is
  \<^verbatim>\<open>invalid_argument\<close>, a value of \<^verbatim>\<open>2^64\<close> or more \<^verbatim>\<open>out_of_range\<close>; a minus sign negates modulo \<^verbatim>\<open>2^64\<close>.
\<close>

definition is_space :: "char \<Rightarrow> bool" where
  "is_space c \<longleftrightarrow> c = CHR '' '' \<or> (9 :: nat) \<le> of_char c \<and> of_char c \<le> (13 :: nat)"

definition stoull_digits :: "string \<Rightarrow> nat option" where
  "stoull_digits s =
     (let ds = takeWhile is_digit s
      in if ds = [] \<or> 2 ^ 64 \<le> parse_digits ds then None else Some (parse_digits ds))"

definition stoull :: "string \<Rightarrow> nat option" where
  "stoull s =
     (case dropWhile is_space s of
        [] \<Rightarrow> None
      | c # cs \<Rightarrow>
          if c = CHR ''-'' then map_option (\<lambda>n. (2 ^ 64 - n) mod 2 ^ 64) (stoull_digits cs)
          else if c = CHR ''+'' then stoull_digits cs
          else stoull_digits (c # cs))"

definition gzip_Encode :: "platform \<Rightarrow> Payload \<Rightarrow> dc_error + Payload" where
  "gzip_Encode P p =
     and_then (GzipCompress P (pdata p)) (\<lambda>z.
       Inr (p\<lparr>pdata := z,
              metadata := (metadata p)(kGzipLenKey \<mapsto> nat_to_string (length (pdata p)),
                                       kCodecKey \<mapsto> kGzipCodecValue)\<rparr>))"

definition gzip_Decode :: "platform \<Rightarrow> Payload \<Rightarrow> dc_error + Payload" where
  "gzip_Decode P p =
     (if metadata p kCodecKey \<noteq> Some kGzipCodecValue then Inr p
      else case metadata p kGzipLenKey of
        None \<Rightarrow> Inl (DataConverterError ''gzip codec: payload missing original-length marker'')
      | Some t \<Rightarrow>
          (case stoull t of
             None \<Rightarrow> Inl (DataConverterError (''gzip codec: invalid original-length marker: '' @ t))
           | Some n \<Rightarrow>
               and_then (GzipDecompress P (pdata p) n) (\<lambda>s.
                 Inr (p\<lparr>pdata := s,
                        metadata := (metadata p)(kCodecKey := None, kGzipLenKey := None)\<rparr>))))"

definition GzipPayloadCodec :: "platform \<Rightarrow> PayloadCodec" where
  "GzipPayloadCodec P = \<lparr>Encode = gzip_Encode P, Decode = gzip_Decode P\<rparr>"

fun ApplyCodecsEncode :: "PayloadCodec list \<Rightarrow> Payload \<Rightarrow> dc_error + Payload" where
  "ApplyCodecsEncode [] p = Inr p"
| "ApplyCodecsEncode (c # cs) p = and_then (Encode c p) (ApplyCodecsEncode cs)"

fun ApplyCodecsDecode :: "PayloadCodec list \<Rightarrow> Payload \<Rightarrow> dc_error + Payload" where
  "ApplyCodecsDecode [] p = Inr p"
| "ApplyCodecsDecode (c # cs) p = and_then (ApplyCodecsDecode cs p) (Decode c)"

section \<open>The data converter\<close>

record 'j DataConverter =
  converters :: "'j PayloadConverter list"
  codecs :: "PayloadCodec list"
  proto_json :: bool

definition DefaultDataConverter :: "'j json_lib \<Rightarrow> 'j DataConverter" where
  "DefaultDataConverter J = \<lparr>converters = DefaultConverters J, codecs = [], proto_json = False\<rparr>"

definition WithCodecs :: "'j json_lib \<Rightarrow> PayloadCodec list \<Rightarrow> 'j DataConverter" where
  "WithCodecs J cs = (DefaultDataConverter J)\<lparr>codecs := cs\<rparr>"

definition SetProtoJson :: "bool \<Rightarrow> 'j DataConverter \<Rightarrow> 'j DataConverter" where
  "SetProtoJson enabled dc = dc\<lparr>proto_json := enabled\<rparr>"

definition WithProtoJson :: "'j json_lib \<Rightarrow> 'j DataConverter" where
  "WithProtoJson J = (DefaultDataConverter J)\<lparr>proto_json := True\<rparr>"

text \<open>\<^verbatim>\<open>ToPayload\<close> and \<^verbatim>\<open>FromPayload\<close> at \<^verbatim>\<open>nlohmann::json\<close> and at a protobuf message type.\<close>

definition ToPayload_value :: "'j DataConverter \<Rightarrow> 'j \<Rightarrow> dc_error + Payload" where
  "ToPayload_value dc v = and_then (ToPayloadJson (converters dc) v) (ApplyCodecsEncode (codecs dc))"

definition FromPayload_value :: "'j DataConverter \<Rightarrow> Payload \<Rightarrow> dc_error + 'j" where
  "FromPayload_value dc p = and_then (ApplyCodecsDecode (codecs dc) p) (FromPayloadJson (converters dc))"

definition ToPayload_message :: "'j DataConverter \<Rightarrow> 'm proto_lib \<Rightarrow> 'm \<Rightarrow> dc_error + Payload" where
  "ToPayload_message dc L m =
     and_then (if proto_json dc then ToProtoJsonPayload L m (type_name L)
               else Inr (WrapProtoPayload (serialize L m) (type_name L)))
       (ApplyCodecsEncode (codecs dc))"

definition FromPayload_message :: "'j DataConverter \<Rightarrow> 'm proto_lib \<Rightarrow> Payload \<Rightarrow> dc_error + 'm" where
  "FromPayload_message dc L p = and_then (ApplyCodecsDecode (codecs dc) p) (ReadProtoPayload L)"

section \<open>Payload stores\<close>

definition kRemoteRefKey :: string where "kRemoteRefKey = ''remote-codec-ref''"

text \<open>\<^verbatim>\<open>std::hash\<close> is a parameter; a blob table and a directory tree are maps from names to bytes.\<close>

definition PayloadStorageKey :: "(string \<Rightarrow> 64 word) \<Rightarrow> Payload \<Rightarrow> string" where
  "PayloadStorageKey hash p = nat_to_string (unat (hash (pdata p))) @ ''-'' @ nat_to_string (length (pdata p))"

type_synonym blobs = "string \<rightharpoonup> string"

definition make_reference :: "string \<Rightarrow> Payload \<Rightarrow> Payload" where
  "make_reference key p = p\<lparr>metadata := (metadata p)(kRemoteRefKey \<mapsto> key), pdata := key\<rparr>"

definition restore_body :: "string \<Rightarrow> Payload \<Rightarrow> Payload" where
  "restore_body body p = p\<lparr>pdata := body, metadata := (metadata p)(kRemoteRefKey := None)\<rparr>"

definition memory_Store :: "(string \<Rightarrow> 64 word) \<Rightarrow> Payload \<Rightarrow> blobs \<Rightarrow> Payload \<times> blobs" where
  "memory_Store hash p b =
     (let key = PayloadStorageKey hash p in (make_reference key p, b(key \<mapsto> pdata p)))"

definition memory_Resolve :: "blobs \<Rightarrow> Payload \<Rightarrow> dc_error + Payload" where
  "memory_Resolve b p =
     (case metadata p kRemoteRefKey of
        None \<Rightarrow> Inr p
      | Some key \<Rightarrow>
          (case b key of
             None \<Rightarrow> Inl (DataConverterError (''payload storage reference not found: '' @ key))
           | Some body \<Rightarrow> Inr (restore_body body p)))"

text \<open>\<^verbatim>\<open>std::filesystem::path::operator/\<close> on a POSIX system.\<close>

definition path_join :: "string \<Rightarrow> string \<Rightarrow> string" where
  "path_join dir name =
     (if name \<noteq> [] \<and> hd name = CHR ''/'' then name
      else if dir = [] \<or> last dir = CHR ''/'' then dir @ name
      else dir @ ''/'' @ name)"

text \<open>
  What the operating system answers to the calls of one operation: the error of
  \<^verbatim>\<open>create_directories\<close> or of \<^verbatim>\<open>exists\<close>, whether a file opens, and, when a write or a read fails, how
  much of the body reached the file.
\<close>

record io_outcome =
  directory_error :: "string option"
  open_fails :: bool
  transfer_fails :: "string option"

definition io_ok :: io_outcome where
  "io_ok = \<lparr>directory_error = None, open_fails = False, transfer_fails = None\<rparr>"

definition file_Store ::
  "(string \<Rightarrow> 64 word) \<Rightarrow> string \<Rightarrow> io_outcome \<Rightarrow> Payload \<Rightarrow> blobs \<Rightarrow> (dc_error + Payload) \<times> blobs" where
  "file_Store hash dir io p fs =
     (let key = PayloadStorageKey hash p; file = path_join dir key in
      case directory_error io of
        Some msg \<Rightarrow> (Inl (DataConverterError (''payload storage: cannot create directory '' @ dir @ '': '' @ msg)), fs)
      | None \<Rightarrow>
          if open_fails io
          then (Inl (DataConverterError (''payload storage: cannot open file for writing: '' @ file)), fs)
          else (case transfer_fails io of
                  Some part \<Rightarrow>
                    (Inl (DataConverterError (''payload storage: failed to write file: '' @ file)), fs(file \<mapsto> part))
                | None \<Rightarrow> (Inr (make_reference key p), fs(file \<mapsto> pdata p))))"

definition file_Resolve :: "string \<Rightarrow> io_outcome \<Rightarrow> blobs \<Rightarrow> Payload \<Rightarrow> dc_error + Payload" where
  "file_Resolve dir io fs p =
     (case metadata p kRemoteRefKey of
        None \<Rightarrow> Inr p
      | Some key \<Rightarrow>
          (let file = path_join dir key in
           case fs file of
             None \<Rightarrow> Inl (DataConverterError (''payload storage reference not found: '' @ file))
           | Some body \<Rightarrow>
               if directory_error io \<noteq> None
               then Inl (DataConverterError (''payload storage reference not found: '' @ file))
               else if open_fails io
               then Inl (DataConverterError (''payload storage: cannot open file for reading: '' @ file))
               else if transfer_fails io \<noteq> None
               then Inl (DataConverterError (''payload storage: failed to read file: '' @ file))
               else Inr (restore_body body p)))"

section \<open>Converters round trip\<close>

lemmas converter_defs = DefaultConverters_def NilPayloadConverter_def BytesPayloadConverter_def
  JsonPayloadConverter_def FromPayloadJson_def payload_encoding_def encoding_defs

text \<open>A payload fresh from the converter stack: it carries the mark of no codec and of no store.\<close>

definition unmarked :: "Payload \<Rightarrow> bool" where
  "unmarked p \<longleftrightarrow>
     metadata p kCodecKey = None \<and> metadata p kGzipLenKey = None \<and> metadata p kRemoteRefKey = None"

lemma unmarked_encoding: "unmarked \<lparr>metadata = [kEncoding \<mapsto> e], pdata = d\<rparr>"
  by (simp add: unmarked_def encoding_defs codec_key_defs kRemoteRefKey_def)

lemma json_lawsD:
  assumes "json_laws J plain"
  shows "is_null J (null_json J)" "is_binary J (binary_json J s)" "\<not> is_null J (binary_json J s)"
    "get_binary J (binary_json J s) = s" "get_string J (json_of_string J s) = Some s"
    "plain v \<Longrightarrow> \<not> is_null J v" "plain v \<Longrightarrow> \<not> is_binary J v"
    "plain v \<Longrightarrow> \<exists>t. dump J v = Some t \<and> t \<noteq> [] \<and> parse J t = Some v"
    "- (2 ^ 31) \<le> n \<Longrightarrow> n < 2 ^ 31 \<Longrightarrow> plain (json_of_int J n)" "plain (json_of_string J [])"
    "- (2 ^ 31) \<le> n \<Longrightarrow> n < 2 ^ 31 \<Longrightarrow> get_int J (json_of_int J n) = Some n"
  using assms by (simp_all add: json_laws_def)

lemma to_payload_stack:
  assumes "json_laws J plain"
  shows "ToPayloadJson (DefaultConverters J) (null_json J) = Inr \<lparr>metadata = [kEncoding \<mapsto> kNull], pdata = []\<rparr>"
    and "ToPayloadJson (DefaultConverters J) (binary_json J s) = Inr \<lparr>metadata = [kEncoding \<mapsto> kRaw], pdata = s\<rparr>"
    and "plain v \<Longrightarrow> dump J v = Some t \<Longrightarrow>
      ToPayloadJson (DefaultConverters J) v = Inr \<lparr>metadata = [kEncoding \<mapsto> kJson], pdata = t\<rparr>"
  using json_lawsD [OF assms]
  by (simp_all add: DefaultConverters_def NilPayloadConverter_def BytesPayloadConverter_def JsonPayloadConverter_def)

lemma from_payload_stack:
  "FromPayloadJson (DefaultConverters J) \<lparr>metadata = [kEncoding \<mapsto> kNull], pdata = d\<rparr> = Inr (null_json J)"
  "FromPayloadJson (DefaultConverters J) \<lparr>metadata = [kEncoding \<mapsto> kRaw], pdata = d\<rparr> = Inr (binary_json J d)"
  "parse J d = Some v \<Longrightarrow>
    FromPayloadJson (DefaultConverters J) \<lparr>metadata = [kEncoding \<mapsto> kJson], pdata = d\<rparr> = Inr v"
  by (simp_all add: converter_defs)

lemma DefaultConverters_roundtrip:
  assumes J: "json_laws J plain" and v: "v = null_json J \<or> v = binary_json J s \<or> plain v"
  shows "\<exists>p. ToPayloadJson (DefaultConverters J) v = Inr p \<and> unmarked p
          \<and> FromPayloadJson (DefaultConverters J) p = Inr v"
proof -
  consider "v = null_json J" | "v = binary_json J s" | t where "plain v" "dump J v = Some t" "parse J t = Some v"
    using v json_lawsD(8) [OF J] by blast
  then show ?thesis
  proof cases
    case 1
    show ?thesis
      by (intro exI conjI, subst 1, rule to_payload_stack(1) [OF J]) (simp_all only: 1 unmarked_encoding from_payload_stack)
  next
    case 2
    show ?thesis
      by (intro exI conjI, subst 2, rule to_payload_stack(2) [OF J]) (simp_all only: 2 unmarked_encoding from_payload_stack)
  next
    case 3
    show ?thesis
      by (intro exI conjI, rule to_payload_stack(3) [OF J 3(1,2)]) (simp_all only: 3(3) unmarked_encoding from_payload_stack)
  qed
qed

lemma FromPayloadJson_encodings:
  "payload_encoding p \<notin> {kNull, kRaw, kJson} \<Longrightarrow>
     FromPayloadJson (DefaultConverters J) p
       = Inl (DataConverterError (''no payload converter for encoding: '' @ payload_encoding p))"
  by (auto simp: FromPayloadJson_def DefaultConverters_def NilPayloadConverter_def BytesPayloadConverter_def
      JsonPayloadConverter_def)

section \<open>Codecs round trip\<close>

text \<open>
  What one codec of the chain promises: a payload without a codec mark comes back from encoding and
  decoding, decoding leaves a payload alone that carries no mark, and encoding marks.
\<close>

locale payload_codec =
  fixes codec :: PayloadCodec
    and fits :: "Payload \<Rightarrow> bool"
  assumes decode_encode:
      "metadata p kCodecKey = None \<Longrightarrow> fits p \<Longrightarrow> Encode codec p = Inr q \<Longrightarrow> Decode codec q = Inr p"
    and decode_unmarked: "metadata p kCodecKey = None \<Longrightarrow> Decode codec p = Inr p"
    and encode_marks: "Encode codec p = Inr q \<Longrightarrow> metadata q kCodecKey \<noteq> None"
begin

lemma chain_of_one:
  "metadata p kCodecKey = None \<Longrightarrow> fits p \<Longrightarrow> ApplyCodecsEncode [codec] p = Inr q
     \<Longrightarrow> ApplyCodecsDecode [codec] q = Inr p"
  by (auto simp: and_then_Inr decode_encode)

lemma value_roundtrip:
  assumes "json_laws J plain" and "plain v"
    and "ToPayload_value (WithCodecs J [codec]) v = Inr q"
    and "\<And>p. unmarked p \<Longrightarrow> ToPayloadJson (DefaultConverters J) v = Inr p \<Longrightarrow> fits p"
  shows "FromPayload_value (WithCodecs J [codec]) q = Inr v"
proof -
  obtain p where p: "ToPayloadJson (DefaultConverters J) v = Inr p" "unmarked p"
    and dec: "FromPayloadJson (DefaultConverters J) p = Inr v"
    using DefaultConverters_roundtrip [OF assms(1), of v] assms(2) by blast
  with assms(3) have "ApplyCodecsEncode [codec] p = Inr q"
    by (simp add: ToPayload_value_def WithCodecs_def DefaultDataConverter_def)
  with p assms(4) have "ApplyCodecsDecode [codec] q = Inr p"
    by (intro chain_of_one) (auto simp: unmarked_def)
  with dec show ?thesis
    by (simp add: FromPayload_value_def WithCodecs_def DefaultDataConverter_def)
qed

text \<open>Both codecs of a chain of two write the same slot, so only the outer one is undone.\<close>

lemma second_codec_not_undone:
  assumes other: "payload_codec c2 fits2" and "Encode codec p = Inr q" and "Encode c2 q = Inr r"
    and "Decode c2 r = Inr s" and "metadata s kCodecKey = None"
  shows "ApplyCodecsEncode [codec, c2] p = Inr r" and "ApplyCodecsDecode [codec, c2] r = Inr s"
  using assms by (simp_all add: decode_unmarked)

end

interpretation base64: payload_codec Base64PayloadCodec "\<lambda>p. True"
proof
  fix p q :: Payload
  assume m: "metadata p kCodecKey = None"
  show "Encode Base64PayloadCodec p = Inr q \<Longrightarrow> Decode Base64PayloadCodec q = Inr p"
    using m by (auto simp: Base64PayloadCodec_def base64_Encode_def base64_Decode_def Base64_roundtrip fun_upd_idem)
  show "Decode Base64PayloadCodec p = Inr p"
    using m by (simp add: Base64PayloadCodec_def base64_Decode_def)
next
  fix p q :: Payload
  show "Encode Base64PayloadCodec p = Inr q \<Longrightarrow> metadata q kCodecKey \<noteq> None"
    by (auto simp: Base64PayloadCodec_def base64_Encode_def)
qed

text \<open>The length mark of the gzip codec reads back, so it decodes what it encoded.\<close>

lemma dropWhile_digits: "dropWhile is_space (nat_to_string n) = nat_to_string n"
proof -
  have "\<not> is_space c" if "is_digit c" for c
    using that by (auto simp: is_digit_def is_space_def)
  moreover obtain c cs where "nat_to_string n = c # cs" by (cases "nat_to_string n") auto
  moreover have "is_digit c" using \<open>nat_to_string n = c # cs\<close> nat_to_string_digits [of c n] by simp
  ultimately show ?thesis by simp
qed

lemma stoull_nat_to_string: "n < 2 ^ 64 \<Longrightarrow> stoull (nat_to_string n) = Some n"
proof -
  assume "n < 2 ^ 64"
  obtain c cs where c: "nat_to_string n = c # cs" by (cases "nat_to_string n") auto
  have "takeWhile is_digit (nat_to_string n) = nat_to_string n"
    using nat_to_string_digits by (intro takeWhile_eq_all_conv [THEN iffD2]) blast
  then have "stoull_digits (nat_to_string n) = Some n"
    using \<open>n < 2 ^ 64\<close> by (simp only: stoull_digits_def Let_def) simp
  moreover have "c \<noteq> CHR ''-''" "c \<noteq> CHR ''+''"
    using c nat_to_string_digits [of c n] by (auto simp: is_digit_def)
  ultimately show ?thesis
    using dropWhile_digits [of n] by (simp add: stoull_def c)
qed

definition gzip_fits :: "platform \<Rightarrow> Payload \<Rightarrow> bool" where
  "gzip_fits P p \<longleftrightarrow> metadata p kGzipLenKey = None \<and> length (pdata p) \<le> max_size P"

lemma gzip_is_codec:
  assumes "zlib_laws P"
  shows "payload_codec (GzipPayloadCodec P) (gzip_fits P)"
proof
  fix p q :: Payload
  assume m: "metadata p kCodecKey = None" and f: "gzip_fits P p" and e: "Encode (GzipPayloadCodec P) p = Inr q"
  from e obtain z where z: "compress2 P (pdata p) = Inr z"
    and q: "q = p\<lparr>pdata := z, metadata := (metadata p)(kGzipLenKey \<mapsto> nat_to_string (length (pdata p)),
      kCodecKey \<mapsto> kGzipCodecValue)\<rparr>"
    by (auto simp: GzipPayloadCodec_def gzip_Encode_def GzipCompress_def and_then_Inr split: sum.splits)
  have "stoull (nat_to_string (length (pdata p))) = Some (length (pdata p))"
    using assms f by (intro stoull_nat_to_string) (auto simp: zlib_laws_def gzip_fits_def)
  moreover have "GzipDecompress P z (length (pdata p)) = Inr (pdata p)"
    using assms f z by (auto simp: zlib_laws_def gzip_fits_def GzipDecompress_def)
  moreover have "(metadata p)(kGzipLenKey \<mapsto> l, kCodecKey \<mapsto> g, kCodecKey := None, kGzipLenKey := None) = metadata p"
    for l g using m f by (auto simp: gzip_fits_def codec_key_defs)
  ultimately show "Decode (GzipPayloadCodec P) q = Inr p"
    by (simp add: q GzipPayloadCodec_def gzip_Decode_def codec_key_defs)
next
  fix p q :: Payload
  show "metadata p kCodecKey = None \<Longrightarrow> Decode (GzipPayloadCodec P) p = Inr p"
    by (simp add: GzipPayloadCodec_def gzip_Decode_def)
  show "Encode (GzipPayloadCodec P) p = Inr q \<Longrightarrow> metadata q kCodecKey \<noteq> None"
    by (auto simp: GzipPayloadCodec_def gzip_Encode_def and_then_Inr)
qed

section \<open>Stores round trip\<close>

text \<open>
  What a store promises: a payload that is not itself a reference resolves to itself, also after
  later stores of other bodies, as long as their keys differ.
\<close>

locale payload_storage =
  fixes store :: "Payload \<Rightarrow> blobs \<Rightarrow> Payload \<times> blobs"
    and resolve :: "blobs \<Rightarrow> Payload \<Rightarrow> dc_error + Payload"
    and key :: "Payload \<Rightarrow> string"
  assumes resolve_store: "metadata p kRemoteRefKey = None \<Longrightarrow> store p b = (q, b') \<Longrightarrow> resolve b' q = Inr p"
    and resolve_plain: "metadata p kRemoteRefKey = None \<Longrightarrow> resolve b p = Inr p"
    and store_other:
      "metadata p kRemoteRefKey = None \<Longrightarrow> key p' = key p \<longrightarrow> pdata p' = pdata p \<Longrightarrow> store p b = (q, b0) \<Longrightarrow> resolve b1 q = Inr p
         \<Longrightarrow> store p' b1 = (q', b2) \<Longrightarrow> resolve b2 q = Inr p"
begin

lemma resolve_after_stores:
  assumes "metadata p kRemoteRefKey = None" and "store p b = (q, b')"
    and "\<And>p'. p' \<in> set ps \<Longrightarrow> key p' = key p \<longrightarrow> pdata p' = pdata p"
  shows "resolve (fold (\<lambda>p b. snd (store p b)) ps b') q = Inr p"
proof -
  have "resolve b1 q = Inr p \<Longrightarrow> resolve (fold (\<lambda>p b. snd (store p b)) ps b1) q = Inr p" for b1
    using assms(3)
  proof (induction ps arbitrary: b1)
    case (Cons p' ps)
    obtain q' b2 where s: "store p' b1 = (q', b2)" by fastforce
    have "resolve b2 q = Inr p"
      using store_other [OF assms(1) _ assms(2) Cons.prems(1) s] Cons.prems(2) by simp
    with Cons.IH Cons.prems(2) s show ?case by simp
  qed simp
  then show ?thesis using resolve_store [OF assms(1,2)] by blast
qed

end

interpretation mem: payload_storage "memory_Store hash" memory_Resolve "PayloadStorageKey hash"
  for hash
proof
  fix p q p' q' :: Payload and b b' b0 b1 b2 :: blobs
  show "metadata p kRemoteRefKey = None \<Longrightarrow> memory_Store hash p b = (q, b') \<Longrightarrow> memory_Resolve b' q = Inr p"
    by (auto simp: memory_Store_def memory_Resolve_def Let_def make_reference_def restore_body_def fun_upd_idem)
  show "metadata p kRemoteRefKey = None \<Longrightarrow> memory_Resolve b p = Inr p"
    by (simp add: memory_Resolve_def)
  show "metadata p kRemoteRefKey = None \<Longrightarrow> PayloadStorageKey hash p' = PayloadStorageKey hash p \<longrightarrow> pdata p' = pdata p
      \<Longrightarrow> memory_Store hash p b = (q, b0) \<Longrightarrow> memory_Resolve b1 q = Inr p
      \<Longrightarrow> memory_Store hash p' b1 = (q', b2) \<Longrightarrow> memory_Resolve b2 q = Inr p"
    by (auto simp: memory_Store_def memory_Resolve_def Let_def make_reference_def restore_body_def
        fun_upd_idem split: option.splits if_splits)
qed

text \<open>The file store keeps the same promise in a directory the system lets it use.\<close>

lemma PayloadStorageKey_relative: "hd (PayloadStorageKey hash p) \<noteq> CHR ''/''" "PayloadStorageKey hash p \<noteq> []"
proof -
  obtain c cs where c: "nat_to_string (unat (hash (pdata p))) = c # cs"
    by (cases "nat_to_string (unat (hash (pdata p)))") auto
  then have "is_digit c" using nat_to_string_digits [of c "unat (hash (pdata p))"] by simp
  then show "hd (PayloadStorageKey hash p) \<noteq> CHR ''/''" "PayloadStorageKey hash p \<noteq> []"
    using c by (auto simp: PayloadStorageKey_def is_digit_def)
qed

lemma path_join_key:
  "path_join dir (PayloadStorageKey hash p) = path_join dir (PayloadStorageKey hash p')
     \<longleftrightarrow> PayloadStorageKey hash p = PayloadStorageKey hash p'"
  using PayloadStorageKey_relative [of hash] by (simp add: path_join_def)

definition file_Store_ok :: "(string \<Rightarrow> 64 word) \<Rightarrow> string \<Rightarrow> Payload \<Rightarrow> blobs \<Rightarrow> Payload \<times> blobs" where
  "file_Store_ok hash dir p fs = map_prod projr id (file_Store hash dir io_ok p fs)"

lemma file_Store_ok:
  "file_Store hash dir io_ok p fs = (Inr (fst (file_Store_ok hash dir p fs)), snd (file_Store_ok hash dir p fs))"
  "file_Store_ok hash dir p fs
     = (make_reference (PayloadStorageKey hash p) p, fs(path_join dir (PayloadStorageKey hash p) \<mapsto> pdata p))"
  by (simp_all add: file_Store_ok_def file_Store_def io_ok_def Let_def)

interpretation disk: payload_storage "file_Store_ok hash dir" "file_Resolve dir io_ok" "PayloadStorageKey hash"
  for hash dir
proof
  fix p q p' q' :: Payload and b b' b0 b1 b2 :: blobs
  note d = file_Store_ok(2) file_Resolve_def io_ok_def Let_def make_reference_def restore_body_def
  show "metadata p kRemoteRefKey = None \<Longrightarrow> file_Store_ok hash dir p b = (q, b') \<Longrightarrow> file_Resolve dir io_ok b' q = Inr p"
    by (auto simp: d fun_upd_idem)
  show "metadata p kRemoteRefKey = None \<Longrightarrow> file_Resolve dir io_ok b p = Inr p"
    by (simp add: d)
  show "metadata p kRemoteRefKey = None \<Longrightarrow> PayloadStorageKey hash p' = PayloadStorageKey hash p \<longrightarrow> pdata p' = pdata p
      \<Longrightarrow> file_Store_ok hash dir p b = (q, b0) \<Longrightarrow> file_Resolve dir io_ok b1 q = Inr p
      \<Longrightarrow> file_Store_ok hash dir p' b1 = (q', b2) \<Longrightarrow> file_Resolve dir io_ok b2 q = Inr p"
    by (auto simp: d path_join_key fun_upd_idem split: option.splits if_splits)
qed

section \<open>Values, codecs and stores\<close>

text \<open>
  A JSON library and a zlib that keep their laws, to apply the theorems to: texts and integers are
  tagged by a letter, and compression is the identity.
\<close>

datatype tiny_json = TNull | TBytes string | TText string | TInt int

definition parse_int :: "string \<Rightarrow> int" where
  "parse_int s = (case s of [] \<Rightarrow> 0
     | c # cs \<Rightarrow> if c = CHR ''-'' then - int (parse_digits cs) else int (parse_digits s))"

fun tiny_dump :: "tiny_json \<Rightarrow> string option" where
  "tiny_dump TNull = Some ''n''"
| "tiny_dump (TBytes s) = None"
| "tiny_dump (TText s) = Some (CHR ''t'' # s)"
| "tiny_dump (TInt n) = Some (CHR ''i'' # to_string n)"

definition tiny_parse :: "string \<Rightarrow> tiny_json option" where
  "tiny_parse s = (case s of [] \<Rightarrow> None
     | c # cs \<Rightarrow> if c = CHR ''t'' then Some (TText cs) else if c = CHR ''i'' then Some (TInt (parse_int cs)) else None)"

definition tiny_lib :: "tiny_json json_lib" where
  "tiny_lib = \<lparr>is_null = (\<lambda>j. j = TNull), is_binary = (\<lambda>j. case j of TBytes s \<Rightarrow> True | _ \<Rightarrow> False),
     get_binary = (\<lambda>j. case j of TBytes s \<Rightarrow> s | _ \<Rightarrow> []), null_json = TNull, binary_json = TBytes,
     dump = tiny_dump, parse = tiny_parse, json_of_string = TText,
     get_string = (\<lambda>j. case j of TText s \<Rightarrow> Some s | _ \<Rightarrow> None), json_of_int = TInt,
     get_int = (\<lambda>j. case j of TInt n \<Rightarrow> Some n | _ \<Rightarrow> None)\<rparr>"

definition tiny_plain :: "tiny_json \<Rightarrow> bool" where
  "tiny_plain j = (case j of TText s \<Rightarrow> True | TInt n \<Rightarrow> True | _ \<Rightarrow> False)"

lemma parse_int_to_string: "parse_int (to_string n) = n"
proof (cases "n < 0")
  case True
  then show ?thesis by (simp add: parse_int_def to_string_def)
next
  case False
  moreover obtain c cs where "nat_to_string (nat n) = c # cs" by (cases "nat_to_string (nat n)") auto
  moreover have "c \<noteq> CHR ''-''"
    using calculation(2) hd_nat_to_string_not_minus [of "nat n" cs] by metis
  ultimately show ?thesis
    using parse_nat_to_string [of "nat n"] by (simp add: parse_int_def to_string_def)
qed

lemma tiny_laws: "json_laws tiny_lib tiny_plain"
  unfolding json_laws_def
proof (intro conjI allI impI)
  fix j assume "tiny_plain j"
  then show "\<not> is_null tiny_lib j" "\<not> is_binary tiny_lib j"
    by (auto simp: tiny_plain_def tiny_lib_def split: tiny_json.splits)
  show "\<exists>t. dump tiny_lib j = Some t \<and> t \<noteq> [] \<and> parse tiny_lib t = Some j"
    using \<open>tiny_plain j\<close>
    by (cases j) (simp_all add: tiny_plain_def tiny_lib_def tiny_parse_def parse_int_to_string)
qed (simp_all add: tiny_lib_def tiny_plain_def)

definition stored_zlib :: platform where
  "stored_zlib = \<lparr>compress2 = Inr, uncompress = (\<lambda>n z. if length z \<le> n then Inr z else Inl (-5)), max_size = 1000\<rparr>"

lemma stored_zlib_laws: "zlib_laws stored_zlib"
  by (simp add: zlib_laws_def stored_zlib_def)

text \<open>
  Values round trip through the default converter: null, every byte string and every value the
  JSON library can print and read back are encoded by the first converter that takes them, and the
  encoding metadata selects the converter that decodes them.
\<close>

theorem default_values_roundtrip:
  assumes "json_laws J plain" and "v = null_json J \<or> v = binary_json J s \<or> plain v"
  shows "\<exists>p. ToPayload_value (DefaultDataConverter J) v = Inr p
    \<and> FromPayload_value (DefaultDataConverter J) p = Inr v"
  using DefaultConverters_roundtrip [OF assms]
  by (auto simp: ToPayload_value_def FromPayload_value_def DefaultDataConverter_def)

theorem default_values_roundtrip_witness:
  "\<exists>p. ToPayload_value (DefaultDataConverter tiny_lib) (TInt 42) = Inr p
    \<and> FromPayload_value (DefaultDataConverter tiny_lib) p = Inr (TInt 42)"
  by (rule default_values_roundtrip [OF tiny_laws]) (simp add: tiny_plain_def)

text \<open>
  With the base64 codec in the chain, encoding a value never fails and the decoded value is the
  one encoded.
\<close>

theorem base64_values_roundtrip:
  assumes "json_laws J plain" and "plain v"
  shows "\<exists>q. ToPayload_value (WithCodecs J [Base64PayloadCodec]) v = Inr q
    \<and> FromPayload_value (WithCodecs J [Base64PayloadCodec]) q = Inr v"
proof -
  obtain p where "ToPayloadJson (DefaultConverters J) v = Inr p"
    using DefaultConverters_roundtrip [OF assms(1), of v] assms(2) by blast
  then obtain q where "ToPayload_value (WithCodecs J [Base64PayloadCodec]) v = Inr q"
    by (simp add: ToPayload_value_def WithCodecs_def DefaultDataConverter_def Base64PayloadCodec_def base64_Encode_def)
  with base64.value_roundtrip [OF assms this] show ?thesis by blast
qed

theorem base64_values_roundtrip_witness:
  "\<exists>q. ToPayload_value (WithCodecs tiny_lib [Base64PayloadCodec]) (TText ''hello'') = Inr q
    \<and> FromPayload_value (WithCodecs tiny_lib [Base64PayloadCodec]) q = Inr (TText ''hello'')"
  by (rule base64_values_roundtrip [OF tiny_laws]) (simp add: tiny_plain_def)

text \<open>
  With the gzip codec, a value whose encoding succeeded decodes to itself: the length mark parses
  back to the length it recorded, sizes the output buffer exactly, and both marks are removed.
\<close>

theorem gzip_values_roundtrip:
  assumes "zlib_laws P" and "json_laws J plain" and "plain v"
    and "dump J v = Some t" and "length t \<le> max_size P"
    and "ToPayload_value (WithCodecs J [GzipPayloadCodec P]) v = Inr q"
  shows "FromPayload_value (WithCodecs J [GzipPayloadCodec P]) q = Inr v"
proof (rule payload_codec.value_roundtrip [OF gzip_is_codec [OF assms(1)] assms(2,3,6)])
  fix p assume "unmarked p" and "ToPayloadJson (DefaultConverters J) v = Inr p"
  with to_payload_stack(3) [OF assms(2,3,4)] assms(5) show "gzip_fits P p"
    by (auto simp: gzip_fits_def unmarked_def)
qed

theorem gzip_values_roundtrip_witness:
  "\<exists>q. ToPayload_value (WithCodecs tiny_lib [GzipPayloadCodec stored_zlib]) (TText ''hello'') = Inr q
    \<and> FromPayload_value (WithCodecs tiny_lib [GzipPayloadCodec stored_zlib]) q = Inr (TText ''hello'')"
proof -
  have d: "dump tiny_lib (TText ''hello'') = Some ''thello''" by (simp add: tiny_lib_def)
  have pl: "tiny_plain (TText ''hello'')" by (simp add: tiny_plain_def)
  obtain q where "ToPayload_value (WithCodecs tiny_lib [GzipPayloadCodec stored_zlib]) (TText ''hello'') = Inr q"
    using to_payload_stack(3) [OF tiny_laws pl d]
    by (simp add: ToPayload_value_def WithCodecs_def DefaultDataConverter_def GzipPayloadCodec_def
        gzip_Encode_def GzipCompress_def stored_zlib_def)
  with gzip_values_roundtrip [OF stored_zlib_laws tiny_laws pl d _ this] show ?thesis
    by (simp add: stored_zlib_def)
qed

lemma Base64Encode_changes:
  assumes "s \<noteq> []"
  shows "Base64Encode s \<noteq> s"
proof -
  have "n < 4 * ((n + 2) div 3)" if "0 < n" for n :: nat using that by presburger
  then have "length s < 4 * ((length s + 2) div 3)" using assms by blast
  then show ?thesis using length_rfc [of s] by (metis Base64Encode_rfc less_irrefl)
qed

text \<open>
  C27. A chain of two codecs does not round trip: both write the one \<^verbatim>\<open>codec\<close> slot, decoding the outer
  erases it, and the inner then takes the payload for one it never encoded. Gzip inside base64 comes back
  compressed, with the length mark left in its metadata; base64 inside gzip, and base64 inside
  base64, come back still encoded once. Each chain decodes without an error.
\<close>

theorem codec_chain_of_two_loses_inner:
  assumes "zlib_laws P" and "metadata p kCodecKey = None" and "metadata p kGzipLenKey = None" and "pdata p \<noteq> []"
    and "compress2 P (pdata p) = Inr z" and "compress2 P (Base64Encode (pdata p)) = Inr z'"
    and "length (Base64Encode (pdata p)) \<le> max_size P"
  shows "(\<exists>q p'. ApplyCodecsEncode [GzipPayloadCodec P, Base64PayloadCodec] p = Inr q
      \<and> ApplyCodecsDecode [GzipPayloadCodec P, Base64PayloadCodec] q = Inr p'
      \<and> pdata p' = z \<and> metadata p' kGzipLenKey = Some (nat_to_string (length (pdata p))) \<and> p' \<noteq> p)
    \<and> (\<exists>q p'. ApplyCodecsEncode [Base64PayloadCodec, GzipPayloadCodec P] p = Inr q
      \<and> ApplyCodecsDecode [Base64PayloadCodec, GzipPayloadCodec P] q = Inr p'
      \<and> pdata p' = Base64Encode (pdata p) \<and> pdata p' \<noteq> pdata p)
    \<and> (\<exists>q p'. ApplyCodecsEncode [Base64PayloadCodec, Base64PayloadCodec] p = Inr q
      \<and> ApplyCodecsDecode [Base64PayloadCodec, Base64PayloadCodec] q = Inr p'
      \<and> pdata p' = Base64Encode (pdata p) \<and> pdata p' \<noteq> pdata p)"
proof (intro conjI)
  have keys: "kGzipLenKey \<noteq> kCodecKey" "kCodecKey \<noteq> kGzipLenKey" "kGzipCodecValue \<noteq> ''base64''" by (simp_all add: codec_key_defs)
  let ?p1 = "p\<lparr>pdata := z, metadata := (metadata p)(kGzipLenKey \<mapsto> nat_to_string (length (pdata p)), kCodecKey := None)\<rparr>"
  show "\<exists>q p'. ApplyCodecsEncode [GzipPayloadCodec P, Base64PayloadCodec] p = Inr q
      \<and> ApplyCodecsDecode [GzipPayloadCodec P, Base64PayloadCodec] q = Inr p'
      \<and> pdata p' = z \<and> metadata p' kGzipLenKey = Some (nat_to_string (length (pdata p))) \<and> p' \<noteq> p"
  proof (intro exI conjI)
    show "ApplyCodecsEncode [GzipPayloadCodec P, Base64PayloadCodec] p = Inr (p\<lparr>pdata := Base64Encode z,
        metadata := (metadata p)(kGzipLenKey \<mapsto> nat_to_string (length (pdata p)), kCodecKey \<mapsto> ''base64'')\<rparr>)"
      using assms(5) by (simp add: GzipPayloadCodec_def gzip_Encode_def GzipCompress_def Base64PayloadCodec_def base64_Encode_def)
    show "ApplyCodecsDecode [GzipPayloadCodec P, Base64PayloadCodec] (p\<lparr>pdata := Base64Encode z,
        metadata := (metadata p)(kGzipLenKey \<mapsto> nat_to_string (length (pdata p)), kCodecKey \<mapsto> ''base64'')\<rparr>) = Inr ?p1"
      by (simp add: GzipPayloadCodec_def gzip_Decode_def Base64PayloadCodec_def base64_Decode_def Base64_roundtrip)
    have "metadata ?p1 kGzipLenKey \<noteq> metadata p kGzipLenKey" using keys assms(3) by simp
    then show "?p1 \<noteq> p" by metis
  qed (use keys in simp_all)
  let ?b = "Base64Encode (pdata p)"
  have "length ?b < 2 ^ 64" using assms(1,7) by (simp add: zlib_laws_def)
  then have len: "stoull (nat_to_string (length ?b)) = Some (length ?b)" by (rule stoull_nat_to_string)
  have inflate: "GzipDecompress P z' (length ?b) = Inr ?b"
    using assms(1,6,7) by (simp add: zlib_laws_def GzipDecompress_def)
  show "\<exists>q p'. ApplyCodecsEncode [Base64PayloadCodec, GzipPayloadCodec P] p = Inr q
      \<and> ApplyCodecsDecode [Base64PayloadCodec, GzipPayloadCodec P] q = Inr p' \<and> pdata p' = ?b \<and> pdata p' \<noteq> pdata p"
    using keys assms(6) len inflate Base64Encode_changes [OF assms(4)]
    by (simp add: GzipPayloadCodec_def gzip_Encode_def gzip_Decode_def GzipCompress_def Base64PayloadCodec_def base64_Encode_def base64_Decode_def)
  show "\<exists>q p'. ApplyCodecsEncode [Base64PayloadCodec, Base64PayloadCodec] p = Inr q
      \<and> ApplyCodecsDecode [Base64PayloadCodec, Base64PayloadCodec] q = Inr p' \<and> pdata p' = ?b \<and> pdata p' \<noteq> pdata p"
    using Base64Encode_changes [OF assms(4)]
    by (simp add: Base64PayloadCodec_def base64_Encode_def base64_Decode_def Base64_roundtrip)
qed

theorem codec_chain_of_two_loses_inner_witness:
  "(\<exists>q p'. ApplyCodecsEncode [GzipPayloadCodec stored_zlib, Base64PayloadCodec] \<lparr>metadata = Map.empty, pdata = ''hi''\<rparr> = Inr q
      \<and> ApplyCodecsDecode [GzipPayloadCodec stored_zlib, Base64PayloadCodec] q = Inr p'
      \<and> p' \<noteq> \<lparr>metadata = Map.empty, pdata = ''hi''\<rparr>)
    \<and> (\<exists>q p'. ApplyCodecsEncode [Base64PayloadCodec, GzipPayloadCodec stored_zlib] \<lparr>metadata = Map.empty, pdata = ''hi''\<rparr> = Inr q
      \<and> ApplyCodecsDecode [Base64PayloadCodec, GzipPayloadCodec stored_zlib] q = Inr p' \<and> pdata p' = ''aGk='')"
proof -
  let ?p = "\<lparr>metadata = Map.empty, pdata = ''hi''\<rparr> :: Payload"
  have b: "Base64Encode (pdata ?p) = ''aGk=''" by code_simp
  have l: "length (Base64Encode (pdata ?p)) \<le> max_size stored_zlib" unfolding b by (simp add: stored_zlib_def)
  have z: "compress2 stored_zlib (pdata ?p) = Inr ''hi''" "compress2 stored_zlib (Base64Encode (pdata ?p)) = Inr (Base64Encode (pdata ?p))"
    by (simp_all add: stored_zlib_def)
  from codec_chain_of_two_loses_inner [OF stored_zlib_laws _ _ _ z l] show ?thesis unfolding b by auto
qed

text \<open>
  Both payload stores give back what they stored: a payload that is no reference resolves from its
  reference to itself, with its metadata, also after any further stores, unless one of those has
  the same key (hash and length) and another body. The two stores hand out the same references.
\<close>

theorem stored_payload_resolves:
  assumes "metadata p kRemoteRefKey = None"
    and "\<And>p'. p' \<in> set ps \<Longrightarrow> PayloadStorageKey hash p' = PayloadStorageKey hash p \<longrightarrow> pdata p' = pdata p"
  shows "memory_Resolve (fold (\<lambda>p b. snd (memory_Store hash p b)) ps (snd (memory_Store hash p b)))
      (fst (memory_Store hash p b)) = Inr p
    \<and> file_Resolve dir io_ok (fold (\<lambda>p fs. snd (file_Store hash dir io_ok p fs)) ps
          (snd (file_Store hash dir io_ok p fs))) (fst (memory_Store hash p b)) = Inr p
    \<and> fst (file_Store hash dir io_ok p fs) = Inr (fst (memory_Store hash p b))"
proof -
  have f: "(\<lambda>p fs. snd (file_Store hash dir io_ok p fs)) = (\<lambda>p fs. snd (file_Store_ok hash dir p fs))"
    by (simp add: file_Store_ok)
  have r: "fst (file_Store hash dir io_ok p fs) = Inr (fst (memory_Store hash p b))"
    "fst (file_Store_ok hash dir p fs) = fst (memory_Store hash p b)"
    by (simp_all add: file_Store_ok memory_Store_def Let_def)
  have "memory_Resolve (fold (\<lambda>p b. snd (memory_Store hash p b)) ps (snd (memory_Store hash p b)))
      (fst (memory_Store hash p b)) = Inr p"
    using assms by (intro mem.resolve_after_stores) auto
  moreover have "file_Resolve dir io_ok (fold (\<lambda>p fs. snd (file_Store_ok hash dir p fs)) ps
      (snd (file_Store_ok hash dir p fs))) (fst (file_Store_ok hash dir p fs)) = Inr p"
    using assms by (intro disk.resolve_after_stores) auto
  ultimately show ?thesis using r f by (simp add: file_Store_ok(1))
qed

definition length_hash :: "string \<Rightarrow> 64 word" where
  "length_hash s = word_of_nat (length s)"

theorem stored_payload_resolves_witness:
  "memory_Resolve (fold (\<lambda>p b. snd (memory_Store length_hash p b)) [\<lparr>metadata = Map.empty, pdata = ''other''\<rparr>]
      (snd (memory_Store length_hash \<lparr>metadata = Map.empty, pdata = ''body''\<rparr> Map.empty)))
     (fst (memory_Store length_hash \<lparr>metadata = Map.empty, pdata = ''body''\<rparr> Map.empty))
   = Inr \<lparr>metadata = Map.empty, pdata = ''body''\<rparr>"
proof -
  have "PayloadStorageKey length_hash \<lparr>metadata = Map.empty, pdata = ''other''\<rparr>
      \<noteq> PayloadStorageKey length_hash \<lparr>metadata = Map.empty, pdata = ''body''\<rparr>"
    by (simp add: PayloadStorageKey_def length_hash_def digit_char_def)
  then show ?thesis
    using stored_payload_resolves [of "\<lparr>metadata = Map.empty, pdata = ''body''\<rparr>"
        "[\<lparr>metadata = Map.empty, pdata = ''other''\<rparr>]" length_hash Map.empty] by simp
qed

end
