(* ===== verification/Workflow_Api.thy ===== *)
theory Workflow_Api
  imports Runner_Exec Data_Converter
begin

text \<open>
  What a workflow function is written against: futures (\<^verbatim>\<open>workflow/future.h\<close>), signal channels
  (\<^verbatim>\<open>workflow/channel.h\<close>), the selector (\<^verbatim>\<open>workflow/selector.h\<close>), the members of
  \<^verbatim>\<open>workflow::Context\<close> that are more than one call of the runner (\<^verbatim>\<open>workflow/context.h\<close>), and the
  adapters that turn typed functions into functions on payloads (\<^verbatim>\<open>internal/callable_traits.h\<close>,
  \<^verbatim>\<open>worker/worker.h\<close>).

  Each is a \<open>body\<close> of \<open>Runner\<close> in continuation form: a member takes what the caller does with the
  value it returns and what it does with the exception it throws. A member that never returns, such as
  \<^verbatim>\<open>ContinueAsNew\<close>, uses only the second; a \<^verbatim>\<open>catch (...)\<close> is a second continuation that goes on.
\<close>

section \<open>Values and exceptions\<close>

datatype thrown =
    ActivityErr string string
  | ContinueAsNewThrown string Payloads
  | Thrown wf_error

type_synonym ('v, 's) member = "('v \<Rightarrow> 's body) \<Rightarrow> (thrown \<Rightarrow> 's body) \<Rightarrow> 's body"

text \<open>
  What the catch clauses of \<^verbatim>\<open>RunBody\<close> see of an exception nobody caught. An \<^verbatim>\<open>ActivityError\<close> is a
  \<^verbatim>\<open>std::exception\<close> whose text is its message, or its type when the message is empty.
\<close>

fun uncaught :: "thrown \<Rightarrow> 's body" where
  "uncaught (ActivityErr type msg) = Finish (Threw (StdError (if msg = [] then type else msg)))"
| "uncaught (ContinueAsNewThrown type inp) = Finish (ContinueAsNewRequested type inp)"
| "uncaught (Thrown e) = Finish (Threw e)"

text \<open>
  A C++ type as the converter sees it: \<^verbatim>\<open>ToPayload<T>\<close>, \<^verbatim>\<open>FromPayload<T>\<close> and the value \<^verbatim>\<open>T{}\<close>.
\<close>

record 'v typed =
  to_payload :: "'v \<Rightarrow> wf_error + Payload"
  from_payload :: "Payload \<Rightarrow> wf_error + 'v"
  default_value :: 'v

text \<open>
  \<^verbatim>\<open>std::vector::at\<close> beyond the end throws \<^verbatim>\<open>std::out_of_range\<close>; its text is the standard library's.
\<close>

definition out_of_range :: wf_error where
  "out_of_range = StdError ''std::out_of_range''"

definition payload_at :: "Payloads \<Rightarrow> nat \<Rightarrow> wf_error + Payload" where
  "payload_at ps i = (if i < length ps then Inr (ps ! i) else Inl out_of_range)"

definition decoded_or :: "wf_error + 'v \<Rightarrow> ('v, 's) member" where
  "decoded_or x k thr = (case x of Inl e \<Rightarrow> thr (Thrown e) | Inr v \<Rightarrow> k v)"

text \<open>\<^verbatim>\<open>ToPayloads(args...)\<close> encodes from left to right; the first argument that throws ends it.\<close>

fun ToPayloads :: "(wf_error + Payload) list \<Rightarrow> wf_error + Payloads" where
  "ToPayloads [] = Inr []"
| "ToPayloads (a # as) =
     and_then a (\<lambda>p. and_then (ToPayloads as) (\<lambda>ps. Inr (p # ps)))"

text \<open>\<^verbatim>\<open>DecodeArgs\<close>: argument \<open>i\<close> is decoded from payload \<open>i\<close>, and \<^verbatim>\<open>at\<close> throws when it is missing.\<close>

fun decode_from :: "nat \<Rightarrow> (Payload \<Rightarrow> wf_error + 'v) list \<Rightarrow> Payloads \<Rightarrow> wf_error + 'v list" where
  "decode_from i [] ps = Inr []"
| "decode_from i (d # ds) ps =
     and_then (and_then (payload_at ps i) d)
       (\<lambda>v. and_then (decode_from (Suc i) ds ps) (\<lambda>vs. Inr (v # vs)))"

definition DecodeArgs :: "(Payload \<Rightarrow> wf_error + 'v) list \<Rightarrow> Payloads \<Rightarrow> wf_error + 'v list" where
  "DecodeArgs ds ps = decode_from 0 ds ps"

section \<open>Futures\<close>

definition IsReady :: "addr \<Rightarrow> (bool \<Rightarrow> 's body) \<Rightarrow> 's body" where
  "IsReady a k = Invoke (DoReadFuture a) (\<lambda>v. k (case v of RState st \<Rightarrow> ready st | _ \<Rightarrow> False))"

definition Get_state :: "addr \<Rightarrow> (FutureState, 's) member" where
  "Get_state a k thr =
     Invoke (DoBlock a) (\<lambda>_. Invoke (DoReadFuture a)
       (\<lambda>v. case v of
          RState st \<Rightarrow> (if failed st then thr (ActivityErr (failure_type st) (failure_message st)) else k st)
        | _ \<Rightarrow> thr (Thrown OtherThrow)))"

definition Future_Get :: "'v typed \<Rightarrow> addr \<Rightarrow> ('v, 's) member" where
  "Future_Get ty a k thr =
     Get_state a (\<lambda>st. decoded_or (and_then (payload_at (result st) 0) (from_payload ty)) k thr) thr"

definition Future_Get_void :: "addr \<Rightarrow> (unit, 's) member" where
  "Future_Get_void a k thr = Get_state a (\<lambda>st. k ()) thr"

section \<open>Signal channels\<close>

definition Decode_signal :: "'v typed \<Rightarrow> Payloads \<Rightarrow> wf_error + 'v" where
  "Decode_signal ty ps = (case ps of [] \<Rightarrow> Inr (default_value ty) | p # _ \<Rightarrow> from_payload ty p)"

fun consumed :: "resp \<Rightarrow> Payloads option" where
  "consumed (RSignal s) = s"
| "consumed _ = None"

text \<open>The loop of \<^verbatim>\<open>Receive\<close>, before its test or at its \<^verbatim>\<open>Park\<close>.\<close>

primcorec receive_loop :: "bool \<Rightarrow> string \<Rightarrow> (Payloads \<Rightarrow> 's body) \<Rightarrow> 's body" where
  "receive_loop parking name k =
     (if parking then Invoke DoPark (\<lambda>_. receive_loop False name k)
      else Invoke (DoTryConsumeSignal name)
             (\<lambda>v. case consumed v of Some ps \<Rightarrow> k ps | None \<Rightarrow> receive_loop True name k))"

definition Receive :: "'v typed \<Rightarrow> string \<Rightarrow> ('v, 's) member" where
  "Receive ty name k thr = receive_loop False name (\<lambda>ps. decoded_or (Decode_signal ty ps) k thr)"

definition ReceiveAsync :: "'v typed \<Rightarrow> string \<Rightarrow> ('v option, 's) member" where
  "ReceiveAsync ty name k thr =
     Invoke (DoTryConsumeSignal name)
       (\<lambda>v. case consumed v of
          Some ps \<Rightarrow> decoded_or (Decode_signal ty ps) (\<lambda>x. k (Some x)) thr
        | None \<Rightarrow> k None)"

definition HasPending :: "string \<Rightarrow> (bool \<Rightarrow> 's body) \<Rightarrow> 's body" where
  "HasPending name k = Invoke (DoHasSignal name) (\<lambda>v. k (case v of RBool b \<Rightarrow> b | _ \<Rightarrow> False))"

section \<open>Selector\<close>

text \<open>
  A case holds what its \<^verbatim>\<open>ready\<close> closure tests and what its \<^verbatim>\<open>exec\<close> closure does.
\<close>

datatype ready_test = FutureReady addr | SignalPending string

fun test_call :: "ready_test \<Rightarrow> call" where
  "test_call (FutureReady a) = DoReadFuture a"
| "test_call (SignalPending name) = DoHasSignal name"

record 's Case =
  case_ready :: ready_test
  case_exec :: "(unit, 's) member"

record 's Selector =
  sel_cases :: "'s Case list"
  sel_default :: "(unit, 's) member option"

definition new_selector :: "'s Selector" where
  "new_selector = \<lparr>sel_cases = [], sel_default = None\<rparr>"

definition AddFuture :: "'v typed \<Rightarrow> addr \<Rightarrow> ('v \<Rightarrow> (unit, 's) member) \<Rightarrow> 's Selector \<Rightarrow> 's Selector" where
  "AddFuture ty a handler sel =
     sel\<lparr>sel_cases := sel_cases sel @
       [\<lparr>case_ready = FutureReady a,
         case_exec = (\<lambda>k thr. Future_Get ty a (\<lambda>x. handler x k thr) thr)\<rparr>]\<rparr>"

definition AddFuture_void :: "addr \<Rightarrow> (unit, 's) member \<Rightarrow> 's Selector \<Rightarrow> 's Selector" where
  "AddFuture_void a handler sel =
     sel\<lparr>sel_cases := sel_cases sel @
       [\<lparr>case_ready = FutureReady a,
         case_exec = (\<lambda>k thr. Future_Get_void a (\<lambda>_. handler k thr) thr)\<rparr>]\<rparr>"

definition AddReceive :: "'v typed \<Rightarrow> string \<Rightarrow> ('v \<Rightarrow> (unit, 's) member) \<Rightarrow> 's Selector \<Rightarrow> 's Selector" where
  "AddReceive ty name handler sel =
     sel\<lparr>sel_cases := sel_cases sel @
       [\<lparr>case_ready = SignalPending name,
         case_exec = (\<lambda>k thr. Receive ty name (\<lambda>x. handler x k thr) thr)\<rparr>]\<rparr>"

definition AddDefault :: "(unit, 's) member \<Rightarrow> 's Selector \<Rightarrow> 's Selector" where
  "AddDefault handler sel = sel\<lparr>sel_default := Some handler\<rparr>"

fun is_true :: "resp \<Rightarrow> bool" where
  "is_true (RState st) = ready st"
| "is_true (RBool b) = b"
| "is_true _ = False"

text \<open>
  The two nested loops of \<^verbatim>\<open>Select\<close>, at the cases still to be tested in this round. The default ends the
  loop, so the corecursive part is the one that tests a case or parks; \<open>select_loop_code\<close> is the loop as
  the source has it.
\<close>

primcorec select_waiting ::
  "'s Selector \<Rightarrow> (unit \<Rightarrow> 's body) \<Rightarrow> (thrown \<Rightarrow> 's body) \<Rightarrow> 's Case list \<Rightarrow> 's body" where
  "select_waiting sel k thr cs =
     (case cs of
        [] \<Rightarrow> Invoke DoPark
               (\<lambda>_. if sel_cases sel = [] \<and> sel_default sel \<noteq> None then the (sel_default sel) k thr
                    else select_waiting sel k thr (sel_cases sel))
      | c # rest \<Rightarrow>
          Invoke (test_call (case_ready c))
            (\<lambda>v. if is_true v then case_exec c k thr
                 else if rest = [] \<and> sel_default sel \<noteq> None then the (sel_default sel) k thr
                 else select_waiting sel k thr rest))"

definition select_loop ::
  "'s Selector \<Rightarrow> (unit \<Rightarrow> 's body) \<Rightarrow> (thrown \<Rightarrow> 's body) \<Rightarrow> 's Case list \<Rightarrow> 's body" where
  "select_loop sel k thr cs =
     (if cs = [] \<and> sel_default sel \<noteq> None then the (sel_default sel) k thr else select_waiting sel k thr cs)"

lemma select_loop_code:
  "select_loop sel k thr cs =
     (case cs of
        [] \<Rightarrow> (case sel_default sel of
                 Some d \<Rightarrow> d k thr
               | None \<Rightarrow> Invoke DoPark (\<lambda>_. select_loop sel k thr (sel_cases sel)))
      | c # rest \<Rightarrow>
          Invoke (test_call (case_ready c))
            (\<lambda>v. if is_true v then case_exec c k thr else select_loop sel k thr rest))"
  by (simp add: select_loop_def select_waiting.code [of sel k thr cs] cong: if_cong split: list.split option.split)

definition Select :: "'s Selector \<Rightarrow> (unit, 's) member" where
  "Select sel k thr = select_loop sel k thr (sel_cases sel)"

section \<open>The context\<close>

definition expect_future :: "(addr \<Rightarrow> 's body) \<Rightarrow> (thrown \<Rightarrow> 's body) \<Rightarrow> resp \<Rightarrow> 's body" where
  "expect_future k thr v = (case v of RFuture a \<Rightarrow> k a | RThrow e \<Rightarrow> thr (Thrown e) | _ \<Rightarrow> thr (Thrown OtherThrow))"

definition ExecuteActivity_ctx ::
  "ActivityOptions \<Rightarrow> string \<Rightarrow> (wf_error + Payload) list \<Rightarrow> (addr, 's) member" where
  "ExecuteActivity_ctx opts type args k thr =
     decoded_or (ToPayloads args)
       (\<lambda>inp. Invoke (DoScheduleActivity type inp opts) (expect_future k thr)) thr"

definition NewTimer :: "int \<Rightarrow> (addr, 's) member" where
  "NewTimer d k thr = Invoke (DoStartTimer d) (expect_future k thr)"

definition ExecuteChildWorkflow_ctx ::
  "ChildWorkflowOptions \<Rightarrow> string \<Rightarrow> (wf_error + Payload) list \<Rightarrow> (addr, 's) member" where
  "ExecuteChildWorkflow_ctx opts type args k thr =
     decoded_or (ToPayloads args)
       (\<lambda>inp. Invoke (DoStartChildWorkflow type inp opts) (expect_future k thr)) thr"

definition ExecuteNexusOperation ::
  "string \<Rightarrow> string \<Rightarrow> string \<Rightarrow> wf_error + Payload \<Rightarrow> int \<Rightarrow> (addr, 's) member" where
  "ExecuteNexusOperation endpoint service operation arg timeout k thr =
     decoded_or arg
       (\<lambda>p. Invoke (DoScheduleNexusOperation endpoint service operation p timeout) (expect_future k thr)) thr"

definition Context_Sleep :: "int \<Rightarrow> (unit, 's) member" where
  "Context_Sleep d k thr = NewTimer d (\<lambda>a. Future_Get_void a k thr) thr"

definition Context_ContinueAsNew :: "string \<Rightarrow> (wf_error + Payload) list \<Rightarrow> (unit, 's) member" where
  "Context_ContinueAsNew type args k thr =
     decoded_or (ToPayloads args) (\<lambda>inp. thr (ContinueAsNewThrown type inp)) thr"

definition Context_SignalExternalWorkflow ::
  "string \<Rightarrow> string \<Rightarrow> (wf_error + Payload) list \<Rightarrow> (unit, 's) member" where
  "Context_SignalExternalWorkflow wid name args k thr =
     decoded_or (ToPayloads args)
       (\<lambda>inp. Invoke (DoSignalExternalWorkflow wid name inp) (\<lambda>_. k ())) thr"

definition Context_ExecuteLocalActivity ::
  "'v typed \<Rightarrow> LocalActivityOptions \<Rightarrow> string \<Rightarrow> (wf_error + Payload) list \<Rightarrow> ('v, 's) member" where
  "Context_ExecuteLocalActivity ty opts type args k thr =
     decoded_or (ToPayloads args)
       (\<lambda>inp. Invoke (DoExecuteLocalActivity type inp opts)
          (\<lambda>v. case v of
             RPayloads res \<Rightarrow>
               decoded_or (from_payload ty (case res of [] \<Rightarrow> empty_payload | p # _ \<Rightarrow> p)) k thr
           | RThrow e \<Rightarrow> thr (Thrown e)
           | _ \<Rightarrow> thr (Thrown OtherThrow))) thr"

definition Context_ExecuteLocalActivity_void ::
  "LocalActivityOptions \<Rightarrow> string \<Rightarrow> (wf_error + Payload) list \<Rightarrow> (unit, 's) member" where
  "Context_ExecuteLocalActivity_void opts type args k thr =
     decoded_or (ToPayloads args)
       (\<lambda>inp. Invoke (DoExecuteLocalActivity type inp opts)
          (\<lambda>v. case v of RThrow e \<Rightarrow> thr (Thrown e) | _ \<Rightarrow> k ())) thr"

section \<open>Sessions\<close>

definition kSessionCreationActivityType :: string where
  "kSessionCreationActivityType = ''__temporal_session_creation''"

definition kSessionCompletionActivityType :: string where
  "kSessionCompletionActivityType = ''__temporal_session_completion''"

record SessionInfo =
  session_id :: string
  session_queue :: string

definition default_activity_options :: ActivityOptions where
  "default_activity_options =
     \<lparr>ao_task_queue = [], schedule_to_close_timeout = 0, schedule_to_start_timeout = 0,
      start_to_close_timeout = 0, heartbeat_timeout = 0, ao_retry_policy = None\<rparr>"

definition CreateSession :: "string typed \<Rightarrow> int \<Rightarrow> (SessionInfo, 's) member" where
  "CreateSession str creation_timeout k thr =
     (let opts = default_activity_options
            \<lparr>schedule_to_close_timeout := creation_timeout, start_to_close_timeout := creation_timeout\<rparr>
      in ExecuteActivity_ctx opts kSessionCreationActivityType []
           (\<lambda>a. Future_Get str a (\<lambda>queue. k \<lparr>session_id = queue, session_queue = queue\<rparr>) thr) thr)"

definition CompleteSession :: "SessionInfo \<Rightarrow> (unit, 's) member" where
  "CompleteSession s k thr =
     (if session_queue s = [] then k ()
      else (let opts = default_activity_options
                  \<lparr>ao_task_queue := session_queue s, start_to_close_timeout := 10000\<rparr>
            in ExecuteActivity_ctx opts kSessionCompletionActivityType []
                 (\<lambda>a. Future_Get_void a k (\<lambda>e. k ())) (\<lambda>e. k ())))"

section \<open>Adapters of typed functions\<close>

text \<open>
  The arguments are decoded first, so a handler whose arguments do not decode never runs. A \<^verbatim>\<open>void\<close>
  result is the empty payload list; \<open>ret\<close> is \<open>None\<close> for it.
\<close>

definition encode_result :: "('r \<Rightarrow> wf_error + Payload) option \<Rightarrow> 'r \<Rightarrow> 's body" where
  "encode_result ret x =
     (case ret of
        None \<Rightarrow> Finish (Returned [])
      | Some enc \<Rightarrow> (case enc x of Inl e \<Rightarrow> Finish (Threw e) | Inr p \<Rightarrow> Finish (Returned [p])))"

definition MakeQueryFn ::
  "(Payload \<Rightarrow> wf_error + 'v) list \<Rightarrow> ('r \<Rightarrow> wf_error + Payload) option \<Rightarrow> ('v list \<Rightarrow> ('r, 's) member)
   \<Rightarrow> Payloads \<Rightarrow> 's body" where
  "MakeQueryFn ds ret handler ps =
     decoded_or (DecodeArgs ds ps) (\<lambda>args. handler args (encode_result ret) uncaught) uncaught"

definition MakeValidatorFn ::
  "(Payload \<Rightarrow> wf_error + 'v) list \<Rightarrow> ('v list \<Rightarrow> ('r, 's) member) \<Rightarrow> Payloads \<Rightarrow> 's body" where
  "MakeValidatorFn ds validator ps =
     decoded_or (DecodeArgs ds ps)
       (\<lambda>args. validator args (\<lambda>_. Finish (Returned [])) uncaught) uncaught"

definition MakeWorkflowFn ::
  "(Payload \<Rightarrow> wf_error + 'v) list \<Rightarrow> ('r \<Rightarrow> wf_error + Payload) option \<Rightarrow> ('v list \<Rightarrow> ('r, 's) member)
   \<Rightarrow> Payloads \<Rightarrow> 's body" where
  "MakeWorkflowFn ds ret fn ps =
     decoded_or (DecodeArgs ds ps) (\<lambda>args. fn args (encode_result ret) uncaught) uncaught"

definition SetQueryHandler :: "string \<Rightarrow> (Payloads \<Rightarrow> 's body) \<Rightarrow> (unit \<Rightarrow> 's body) \<Rightarrow> 's body" where
  "SetQueryHandler name h k = Register QueryHandler name h (k ())"

definition SetUpdateHandler ::
  "string \<Rightarrow> (Payloads \<Rightarrow> 's body) \<Rightarrow> (Payloads \<Rightarrow> 's body) option \<Rightarrow> (unit \<Rightarrow> 's body) \<Rightarrow> 's body" where
  "SetUpdateHandler name h validator k =
     (case validator of
        None \<Rightarrow> Register UpdateHandler name h (k ())
      | Some v \<Rightarrow> Register UpdateValidator name v (Register UpdateHandler name h (k ())))"

section \<open>Receiving\<close>

text \<open>The signals a channel has not delivered yet.\<close>

definition queue_of :: "string \<Rightarrow> Prescan \<Rightarrow> Payloads list" where
  "queue_of name ps = (case signals ps name of None \<Rightarrow> [] | Some q \<Rightarrow> q)"

definition pending :: "string \<Rightarrow> 's WorkflowRunner \<Rightarrow> Payloads list" where
  "pending name r = drop (count_at (signal_cursor r) name) (queue_of name (scan r))"

definition cursor_ok :: "string \<Rightarrow> 's WorkflowRunner \<Rightarrow> bool" where
  "cursor_ok name r \<longleftrightarrow> count_at (signal_cursor r) name \<le> length (queue_of name (scan r))"

lemma TryConsumeSignal_pending:
  assumes "TryConsumeSignal name r = (x, r')" and "cursor_ok name r"
  shows "r' = r\<lparr>signal_cursor := signal_cursor r'\<rparr>" and "scan r' = scan r" and "cursor_ok name r'"
    and "(case pending name r of [] \<Rightarrow> x = None \<and> pending name r' = []
          | p # ps \<Rightarrow> x = Some p \<and> pending name r' = ps)"
  using assms
  by (auto simp: TryConsumeSignal_def pending_def cursor_ok_def queue_of_def count_at_def Let_def
      drop_eq_Nil Cons_nth_drop_Suc [symmetric] Suc_le_eq split: option.splits if_splits list.split)

lemma exec_receive_ready:
  assumes "pending name r = p # ps" and "cursor_ok name r"
  shows "\<exists>r'. r' = r\<lparr>signal_cursor := signal_cursor r'\<rparr> \<and> scan r' = scan r \<and> cursor_ok name r' \<and> pending name r' = ps
    \<and> (\<forall>m k. exec E (Suc m) (receive_loop False name k) r = exec E m (k p) r')"
proof -
  obtain x r' where t: "TryConsumeSignal name r = (x, r')" by fastforce
  from TryConsumeSignal_pending [OF t assms(2)] assms(1)
  have "r' = r\<lparr>signal_cursor := signal_cursor r'\<rparr>" "x = Some p" "scan r' = scan r" "cursor_ok name r'" "pending name r' = ps" by auto
  with t show ?thesis by (subst receive_loop.code) auto
qed

lemma exec_receive_empty:
  assumes "pending name r = []" and "cursor_ok name r"
  shows "\<exists>r'. r' = r\<lparr>signal_cursor := signal_cursor r'\<rparr> \<and> scan r' = scan r \<and> cursor_ok name r' \<and> pending name r' = []
    \<and> (\<forall>m k. exec E (m + 2) (receive_loop False name k) r = (Suspended (receive_loop False name k), r'))"
proof -
  obtain x r' where t: "TryConsumeSignal name r = (x, r')" by fastforce
  from TryConsumeSignal_pending [OF t assms(2)] assms(1)
  have r': "r' = r\<lparr>signal_cursor := signal_cursor r'\<rparr>" "x = None" "scan r' = scan r" "cursor_ok name r'" "pending name r' = []" by auto
  have "exec E (m + 2) (receive_loop False name k) r = (Suspended (receive_loop False name k), r')" for m k
    using t r'(2) by (simp add: receive_loop.code [of False] receive_loop.code [of True])
  with r' show ?thesis by blast
qed

text \<open>A workflow that receives \<open>n\<close> signals of one name, one after the other.\<close>

fun receive_n :: "'v typed \<Rightarrow> string \<Rightarrow> nat \<Rightarrow> 'v list \<Rightarrow> ('v list, 's) member" where
  "receive_n ty name 0 acc k thr = k acc"
| "receive_n ty name (Suc n) acc k thr =
     Receive ty name (\<lambda>x. receive_n ty name n (acc @ [x]) k thr) thr"

lemma exec_receive_n:
  assumes "map (Decode_signal ty) (pending name r) = map Inr vs" and "cursor_ok name r" and "n \<le> length vs"
  shows "\<exists>r'. r' = r\<lparr>signal_cursor := signal_cursor r'\<rparr> \<and> scan r' = scan r \<and> cursor_ok name r' \<and> pending name r' = drop n (pending name r)
    \<and> (\<forall>m. exec E (m + n) (receive_n ty name n acc k thr) r = exec E m (k (acc @ take n vs)) r')"
  using assms
proof (induction n arbitrary: r vs acc)
  case 0
  then show ?case by (intro exI [of _ r]) simp
next
  case (Suc n)
  then obtain p ps v ws where p: "pending name r = p # ps" "vs = v # ws" "Decode_signal ty p = Inr v"
    "map (Decode_signal ty) ps = map Inr ws" by (cases "pending name r"; cases vs) auto
  from exec_receive_ready [OF p(1) Suc.prems(2)] obtain r1 where
    r1: "r1 = r\<lparr>signal_cursor := signal_cursor r1\<rparr>" "scan r1 = scan r" "cursor_ok name r1" "pending name r1 = ps"
    and step: "\<And>m k. exec E (Suc m) (receive_loop False name k) r = exec E m (k p) r1" by blast
  from Suc.IH [of r1 ws "acc @ [v]"] r1 p Suc.prems(3) obtain r2 where
    r2: "r2 = r1\<lparr>signal_cursor := signal_cursor r2\<rparr>" "scan r2 = scan r1" "cursor_ok name r2" "pending name r2 = drop n ps"
    and rest: "\<And>m. exec E (m + n) (receive_n ty name n (acc @ [v]) k thr) r1 = exec E m (k ((acc @ [v]) @ take n ws)) r2"
    by auto
  have "exec E (m + Suc n) (receive_n ty name (Suc n) acc k thr) r = exec E m (k (acc @ take (Suc n) vs)) r2" for m
    using rest [of m] p by (simp add: Receive_def step decoded_or_def del: exec.simps)
  moreover have "r2 = r\<lparr>signal_cursor := signal_cursor r2\<rparr>" by (subst r2(1), subst r1(1)) simp
  ultimately show ?case using r1 r2 p by auto
qed

lemma exec_receive_n_parks:
  assumes "map (Decode_signal ty) (pending name r) = map Inr vs" and "cursor_ok name r" and "length vs < n"
  shows "\<exists>r'. r' = r\<lparr>signal_cursor := signal_cursor r'\<rparr> \<and> scan r' = scan r \<and> cursor_ok name r' \<and> pending name r' = []
    \<and> (\<forall>m. exec E (m + length vs + 2) (receive_n ty name n acc k thr) r
          = (Suspended (receive_n ty name (n - length vs) (acc @ vs) k thr), r'))"
  using assms
proof (induction vs arbitrary: r n acc)
  case Nil
  then obtain n' where n: "n = Suc n'" by (cases n) auto
  from Nil have "pending name r = []" "cursor_ok name r" by auto
  from exec_receive_empty [OF this, of E] show ?case
    by (simp add: n Receive_def del: exec.simps) blast
next
  case (Cons v ws)
  then obtain p ps n' where p: "pending name r = p # ps" "Decode_signal ty p = Inr v" "n = Suc n'"
    "map (Decode_signal ty) ps = map Inr ws" by (cases "pending name r"; cases n) auto
  from exec_receive_ready [OF p(1) Cons.prems(2)] obtain r1 where
    r1: "r1 = r\<lparr>signal_cursor := signal_cursor r1\<rparr>" "scan r1 = scan r" "cursor_ok name r1" "pending name r1 = ps"
    and step: "\<And>m k. exec E (Suc m) (receive_loop False name k) r = exec E m (k p) r1" by blast
  from Cons.IH [of r1 n' "acc @ [v]"] r1 p Cons.prems(3) obtain r2 where
    r2: "r2 = r1\<lparr>signal_cursor := signal_cursor r2\<rparr>" "scan r2 = scan r1" "cursor_ok name r2" "pending name r2 = []"
    and rest: "\<And>m. exec E (m + length ws + 2) (receive_n ty name n' (acc @ [v]) k thr) r1
      = (Suspended (receive_n ty name (n' - length ws) ((acc @ [v]) @ ws) k thr), r2)" by auto
  have "exec E (m + length (v # ws) + 2) (receive_n ty name n acc k thr) r
      = (Suspended (receive_n ty name (n - length (v # ws)) (acc @ v # ws) k thr), r2)" for m
    using rest [of m] step [of "m + length ws + 2"] p by (simp add: Receive_def decoded_or_def del: exec.simps)
  moreover have "r2 = r\<lparr>signal_cursor := signal_cursor r2\<rparr>" by (subst r2(1), subst r1(1)) simp
  ultimately show ?case using r1 r2 by auto
qed

text \<open>The signals a history brings for a name.\<close>

fun signal_of :: "string \<Rightarrow> event_attrs \<Rightarrow> Payloads list" where
  "signal_of name (WorkflowExecutionSignaled n inp) = (if n = name then [FromProtoPayloads inp] else [])"
| "signal_of name _ = []"

definition signals_sent :: "string \<Rightarrow> HistoryEvent list \<Rightarrow> Payloads list" where
  "signals_sent name h = concat (map (\<lambda>ev. signal_of name (attrs ev)) h)"

lemma signals_sent_simps [simp]:
  "signals_sent name [] = []"
  "signals_sent name (ev # h) = signal_of name (attrs ev) @ signals_sent name h"
  "signals_sent name (h @ g) = signals_sent name h @ signals_sent name g"
  by (simp_all add: signals_sent_def)

lemma scan_switch_queue: "queue_of name (scan_switch eid a ps) = queue_of name ps @ signal_of name a"
proof (cases a)
  case (ActivityEv e)
  then show ?thesis by (cases e) (auto simp: queue_of_def scan_defs split: option.split)
next
  case (TimerEv e)
  then show ?thesis by (cases e) (auto simp: queue_of_def scan_defs split: option.split)
next
  case (ChildEv e)
  then show ?thesis by (cases e) (auto simp: queue_of_def scan_defs split: option.split)
next
  case (ExternalEv e)
  then show ?thesis by (cases e) (auto simp: queue_of_def scan_defs split: option.split)
next
  case (NexusEv e)
  then show ?thesis by (cases e) (auto simp: queue_of_def scan_defs split: option.split)
next
  case (MarkerRecorded m d)
  then show ?thesis
    by (auto simp: queue_of_def scan_marker_def scan_side_effect_def scan_version_def scan_mutable_side_effect_def
        push_command_def Let_def split: option.split list.split)
qed (auto simp: queue_of_def push_signal_def push_command_def map_at_apply split: option.split)

lemma scan_plain_queue: "queue_of name (scan_plain h ps) = queue_of name ps @ signals_sent name h"
  by (induction h arbitrary: ps) (auto simp: scan_switch_queue)

lemma ScanHistory_queue: "queue_of name (ScanHistory h) = signals_sent name (visible False h)"
proof -
  have "queue_of name (ps\<lparr>last_event_id := l, post_update_timeline := t\<rparr>) = queue_of name ps" for ps :: Prescan and l t
    by (simp add: queue_of_def)
  then show ?thesis
    by (simp add: ScanHistory_split scan_plain_queue) (simp add: queue_of_def empty_prescan_def)
qed

lemma new_runner_pending:
  "pending name (new_runner E wi rep (ScanHistory h) fn inp s0) = signals_sent name (visible False h)"
  "cursor_ok name (new_runner E wi rep (ScanHistory h) fn inp s0)"
  by (simp_all add: pending_def cursor_ok_def new_runner_def ScanHistory_queue count_at_def)

lemma set_future_cursor [simp]: "signal_cursor (set_future a f r) = signal_cursor r"
  by (simp add: set_future_def)

lemma fold_set_future_cursor [simp]: "signal_cursor (fold (\<lambda>a. set_future a f) as r) = signal_cursor r"
  by (induction as arbitrary: r) auto

lemma apply_switch_signals:
  "queue_of name (scan (apply_switch eid a r)) = queue_of name (scan r) @ signal_of name a
   \<and> signal_cursor (apply_switch eid a r) = signal_cursor r"
proof (cases a)
  case (ActivityEv e)
  then show ?thesis
    by (cases e) (auto simp: queue_of_def ResolveActivity_def resolve_at_def scan_defs split: option.split)
next
  case (TimerEv e)
  then show ?thesis by (cases e) (auto split: option.split)
next
  case (ChildEv e)
  then show ?thesis by (cases e) (auto simp: at_child_future_def split: option.split)
next
  case (NexusEv e)
  then show ?thesis
    by (cases e) (auto simp: queue_of_def ResolveNexusOperation_def resolve_at_def scan_defs split: option.split)
qed (auto simp: queue_of_def push_signal_def map_at_apply split: option.split)

lemma applied_pending:
  assumes "cursor_ok name r"
  shows "pending name (applied ev r) = pending name r @ signal_of name (attrs ev)" and "cursor_ok name (applied ev r)"
proof -
  have "queue_of name (ps\<lparr>last_event_id := l\<rparr>) = queue_of name ps" for ps :: Prescan and l
    by (simp add: queue_of_def)
  then have "queue_of name (scan (applied ev r)) = queue_of name (scan r) @ signal_of name (attrs ev)"
    "signal_cursor (applied ev r) = signal_cursor r"
    using apply_switch_signals [of name "event_id ev" "attrs ev" r]
    by (simp_all add: applied_def ApplyEventToState_def Let_def)
  with assms show "pending name (applied ev r) = pending name r @ signal_of name (attrs ev)" "cursor_ok name (applied ev r)"
    by (auto simp: pending_def cursor_ok_def)
qed

lemma ApplyEvents_pending:
  assumes "sorted_wrt (<) (last_event_id (scan r) # map event_id h)" and "cursor_ok name r"
  shows "pending name (ApplyEvents h r) = pending name r @ signals_sent name h \<and> cursor_ok name (ApplyEvents h r)"
  using assms
proof (induction h arbitrary: r)
  case (Cons ev h)
  then have "last_event_id (scan r) < event_id ev" "sorted_wrt (<) (last_event_id (scan (applied ev r)) # map event_id h)"
    by auto
  with Cons.IH [of "applied ev r"] applied_pending [OF Cons.prems(2), of ev] show ?case
    by (simp add: ApplyEvents_new del: ApplyEvents.simps)
qed simp

definition text_type :: "string typed" where
  "text_type = \<lparr>to_payload = (\<lambda>s. Inr \<lparr>metadata = Map.empty, pdata = s\<rparr>), from_payload = (\<lambda>p. Inr (pdata p)),
     default_value = []\<rparr>"

section \<open>Selecting\<close>

fun holds :: "ready_test \<Rightarrow> 's WorkflowRunner \<Rightarrow> bool" where
  "holds (FutureReady a) r = ready (heap r ! a)"
| "holds (SignalPending name) r = HasSignal name r"

lemma perform_test: "\<exists>v. perform E (test_call t) r = (Answer v, r) \<and> is_true v = holds t r"
  by (cases t) auto

lemma exec_select_loop:
  "exec E (Suc m + length cs) (select_loop sel k thr cs) r =
     (case dropWhile (\<lambda>c. \<not> holds (case_ready c) r) cs of
        c # rest \<Rightarrow> exec E (Suc m + length rest) (case_exec c k thr) r
      | [] \<Rightarrow> (case sel_default sel of
                Some d \<Rightarrow> exec E (Suc m) (d k thr) r
              | None \<Rightarrow> (Suspended (Select sel k thr), r)))"
proof (induction cs)
  case Nil
  show ?case by (subst select_loop_code) (auto simp: Select_def split: option.split)
next
  case (Cons c cs)
  obtain v where "perform E (test_call (case_ready c)) r = (Answer v, r)" "is_true v = holds (case_ready c) r"
    using perform_test by blast
  with Cons show ?case by (subst select_loop_code) simp
qed

text \<open>
  \<^verbatim>\<open>Select\<close> runs the handler of the first case that is ready, in the order the cases were
  added, without having changed the runner; when none is ready it runs the default, and without a
  default it parks and starts over from the first case at the next resume. It makes one step per
  case it tests.
\<close>

theorem select_runs_first_ready:
  "exec E (Suc m + length (sel_cases sel)) (Select sel k thr) r =
     (case dropWhile (\<lambda>c. \<not> holds (case_ready c) r) (sel_cases sel) of
        c # rest \<Rightarrow> exec E (Suc m + length rest) (case_exec c k thr) r
      | [] \<Rightarrow> (case sel_default sel of
                Some d \<Rightarrow> exec E (Suc m) (d k thr) r
              | None \<Rightarrow> (Suspended (Select sel k thr), r)))"
  unfolding Select_def by (rule exec_select_loop [unfolded Select_def])

section \<open>Sleeping\<close>

lemma exec_Get_state_ready:
  assumes "ready (heap r ! a)"
  shows "exec E (m + 2) (Get_state a k thr) r =
    exec E m (if failed (heap r ! a) then thr (ActivityErr (failure_type (heap r ! a)) (failure_message (heap r ! a)))
              else k (heap r ! a)) r"
  using assms by (simp add: Get_state_def numeral_2_eq_2)

lemma exec_Context_Sleep:
  "StartTimer d r = (a, r1) \<Longrightarrow> exec E (Suc m) (Context_Sleep d k thr) r = exec E m (Get_state a (\<lambda>st. k ()) thr) r1"
  by (simp add: Context_Sleep_def NewTimer_def expect_future_def Future_Get_void_def)

lemma exec_Get_state_waits:
  "\<not> ready (heap r ! a) \<Longrightarrow> exec E (Suc m) (Get_state a k thr) r = (Suspended (Get_state a k thr), r)"
  by (simp add: Get_state_def)

text \<open>
  \<^verbatim>\<open>Sleep\<close> starts exactly one timer, with the next timer id and the given duration, and parks; it
  goes on in the task that delivers the firing of that timer, and stays parked under every event that
  resolves no future.
\<close>

theorem sleep_wakes_on_its_timer:
  assumes "\<not> timer_known (scan r) (timer_id r)"
  shows "\<exists>b r1. commands r1 = commands r @ [CmdStartTimer (timer_id r) (ToProtoDuration d)] \<and> (\<forall>m r2.
    exec E (m + 2) (Context_Sleep d k thr) r = (Suspended b, r1)
    \<and> (heap r2 = heap r1 \<longrightarrow> exec E (m + 2) b r2 = (Suspended b, r2))
    \<and> (let r' = ApplyEventToState \<lparr>event_id = eid, attrs = TimerEv (TimerFired (timer_id r))\<rparr> r1
       in exec E (m + 2) b r' = exec E m (k ()) r'))"
proof -
  let ?a = "length (heap r)" and ?b = "Get_state (length (heap r)) (\<lambda>st. k ()) thr"
  obtain r1 where st: "StartTimer d r = (?a, r1)" and "commands r1 = commands r @ [CmdStartTimer (timer_id r) (ToProtoDuration d)]"
    and h: "heap r1 = heap r @ [new_future OpTimer (timer_id r)]" "timer_futures r1 (timer_id r) = Some ?a"
    using StartTimer_sent [OF assms, of d] by auto
  moreover have "exec E (m + 2) (Context_Sleep d k thr) r = (Suspended ?b, r1)" for m
    using h exec_Context_Sleep [OF st, of E "Suc m"] exec_Get_state_waits [of r1 ?a E m]
    by (simp add: new_future_def del: exec.simps)
  moreover have "exec E (m + 2) ?b r2 = (Suspended ?b, r2)" if "heap r2 = heap r1" for m r2
    using that h exec_Get_state_waits [of r2 ?a E "Suc m"] by (simp add: new_future_def)
  moreover have "exec E (m + 2) ?b r' = exec E m (k ()) r'"
    if "r' = ApplyEventToState \<lparr>event_id = eid, attrs = TimerEv (TimerFired (timer_id r))\<rparr> r1" for m r'
    using that h exec_Get_state_ready [of r' ?a E m] by (simp add: ApplyEventToState_def set_future_def new_future_def)
  ultimately show ?thesis by (intro exI [of _ ?b] exI [of _ r1]) (simp add: Let_def del: exec.simps)
qed

theorem sleep_wakes_on_its_timer_witness:
  "\<forall>E wi. \<exists>b r1. commands r1 = [CmdStartTimer ''t0'' (ToProtoDuration 5)] \<and>
     exec E (1 + 2) (Context_Sleep 5 (\<lambda>_. Finish (Returned [])) uncaught)
       (new_runner E wi False empty_prescan (\<lambda>p. Finish (Returned p)) [] ()) = (Suspended b, r1)"
proof (intro allI)
  fix E wi
  let ?r = "new_runner E wi False empty_prescan (\<lambda>p. Finish (Returned p)) [] ()"
  have "\<not> timer_known (scan ?r) (timer_id ?r)" "timer_id ?r = ''t0''" "commands ?r = []"
    by (simp_all add: timer_known_def timer_id_def new_runner_def empty_prescan_def digit_char_def)
  with sleep_wakes_on_its_timer [of ?r 5 E "\<lambda>_. Finish (Returned [])" uncaught]
  show "\<exists>b r1. commands r1 = [CmdStartTimer ''t0'' (ToProtoDuration 5)] \<and>
     exec E (1 + 2) (Context_Sleep 5 (\<lambda>_. Finish (Returned [])) uncaught) ?r = (Suspended b, r1)"
    by (metis append_Nil)
qed

section \<open>Typed arguments\<close>

lemma decode_from_encoded:
  assumes "list_all2 (\<lambda>e (v, dc). and_then e dc = Inr v) es (zip vs ds)" and "length vs = length ds"
    and "ToPayloads es = Inr ps"
  shows "decode_from (length pre) ds (pre @ ps @ post) = Inr vs"
  using assms
proof (induction es arbitrary: vs ds ps pre)
  case Nil
  then show ?case by auto
next
  case (Cons e es)
  then obtain v vs' dc ds' where v: "vs = v # vs'" "ds = dc # ds'" by (cases vs; cases ds) auto
  from Cons.prems(3) obtain p qs where p: "e = Inr p" "ToPayloads es = Inr qs" "ps = p # qs"
    by (auto simp: and_then_Inr)
  with Cons.IH [of vs' ds' qs "pre @ [p]"] Cons.prems v show ?case
    by (simp add: payload_at_def nth_append)
qed

lemma decode_from_short:
  assumes "list_all2 (\<lambda>e (v, dc). and_then e dc = Inr v) es (zip vs ds)" and "length vs = length ds"
    and "ToPayloads es = Inr ps" and "i < length ds"
  shows "decode_from (length pre) ds (pre @ take i ps) = Inl out_of_range"
  using assms
proof (induction es arbitrary: vs ds ps pre i)
  case Nil
  then show ?case by auto
next
  case (Cons e es)
  then obtain v vs' dc ds' where v: "vs = v # vs'" "ds = dc # ds'" by (cases vs; cases ds) auto
  from Cons.prems(3) obtain p qs where p: "e = Inr p" "ToPayloads es = Inr qs" "ps = p # qs"
    by (auto simp: and_then_Inr)
  show ?case
  proof (cases i)
    case 0
    then show ?thesis by (simp add: v payload_at_def)
  next
    case (Suc j)
    with Cons.IH [of vs' ds' qs j "pre @ [p]"] Cons.prems v p show ?thesis
      by (simp add: payload_at_def nth_append)
  qed
qed

text \<open>
  The arguments a workflow is started with reach the registered function: when every argument
  decodes from its own encoding and all encodings succeed, the adapter calls the typed function with
  exactly those arguments, whatever further payloads follow; with fewer payloads than parameters the
  function is not called and the workflow fails.
\<close>

theorem typed_arguments_reach_workflow:
  assumes "list_all2 (\<lambda>e (v, dc). and_then e dc = Inr v) es (zip vs ds)" and "length vs = length ds"
    and "ToPayloads es = Inr ps"
  shows "MakeWorkflowFn ds ret fn (ps @ extra) = fn vs (encode_result ret) uncaught
    \<and> (\<forall>i < length ds. MakeWorkflowFn ds ret fn (take i ps) = Finish (Threw out_of_range))"
  using decode_from_encoded [OF assms, of "[]" extra] decode_from_short [OF assms, of _ "[]"]
  by (simp add: MakeWorkflowFn_def DecodeArgs_def decoded_or_def)

theorem typed_arguments_reach_workflow_witness:
  "MakeWorkflowFn [from_payload text_type] None (\<lambda>vs k thr. if vs = [''hi''] then k () else thr (Thrown OtherThrow))
     ([\<lparr>metadata = Map.empty, pdata = ''hi''\<rparr>] @ []) = (Finish (Returned []) :: unit body)"
  using typed_arguments_reach_workflow [of "[to_payload text_type ''hi'']" "[''hi'']" "[from_payload text_type]"
      "[\<lparr>metadata = Map.empty, pdata = ''hi''\<rparr>]" None
      "\<lambda>vs k thr. if vs = [''hi''] then k () else (thr (Thrown OtherThrow) :: unit body)" "[]"]
  by (simp add: text_type_def encode_result_def)

end
