(* ===== verification/Worker_Lifecycle.thy ===== *)
theory Worker_Lifecycle
  imports Task_Handler Nexus_Handler Worker Workflow_Api
begin

text \<open>
  The worker as a whole (\<^verbatim>\<open>src/internal/worker_impl.cpp\<close>): its options, its constructor, the registration
  of functions and of the built-in session activities, \<^verbatim>\<open>Start\<close> with the poll loops it creates,
  \<^verbatim>\<open>Stop\<close>, the metrics of the sticky cache and \<^verbatim>\<open>ReplayWorkflowHistory\<close>. The interleaving of the loops
  with \<^verbatim>\<open>Stop\<close> is the subject of \<open>Poller_Stop\<close>.

  The two UUIDs the constructor draws are arguments. A session activity is a closure over the worker,
  so it is a function of the worker at the time of the call: \<open>activity_handler_now\<close> is the registry
  with both closures read at that time.
\<close>

section \<open>State\<close>

record worker_config = WorkerOptions +
  wo_max_concurrent_activities :: int
  wo_max_concurrent_workflow_tasks :: int
  wo_panic_policy :: WorkflowPanicPolicy
  wo_max_cached_workflows :: int
  wo_metrics_handler :: bool
  wo_interceptors :: "(inbound \<Rightarrow> inbound option) list"
  wo_max_concurrent_activity_executions :: int
  wo_max_concurrent_workflow_task_executions :: int
  wo_deadlock_detection_timeout :: int
  wo_max_activities_per_second :: real
  wo_graceful_shutdown_timeout :: int
  wo_enable_sessions :: bool
  wo_max_concurrent_sessions :: int

datatype poll_loop = WorkflowPollLoop bool int | ActivityPollLoop bool int | NexusPollLoop

record 's WorkerImpl =
  w_task_queue :: string
  w_session_queue :: string
  w_options :: worker_config
  w_workflow_handler :: "'s task_handler"
  w_activity_handler :: ActivityTaskHandler
  w_nexus_handler :: NexusTaskHandler
  w_workflow_gate :: ConcurrencyGate
  w_activity_gate :: ConcurrencyGate
  w_session_gate :: ConcurrencyGate
  w_nexus_gate :: ConcurrencyGate
  w_activities_per_second :: real
  w_wf_scaler :: PollerScaler
  w_act_scaler :: PollerScaler
  w_active_sessions :: int
  w_started :: bool
  w_stop :: bool
  w_draining :: bool
  w_threads :: "poll_loop list"
  w_last_cache_hits :: int
  w_last_replays :: int

definition new_worker ::
  "string \<Rightarrow> string \<Rightarrow> string \<Rightarrow> string \<Rightarrow> (wf_error \<Rightarrow> Failure) option \<Rightarrow> string \<Rightarrow> worker_config \<Rightarrow> 's WorkerImpl" where
  "new_worker uuid1 uuid2 ns identity fc tq opts =
     \<lparr>w_task_queue = tq, w_session_queue = tq @ ''-session-'' @ uuid2, w_options = opts,
      w_workflow_handler = new_task_handler tq (''temporal-cpp-sdk-sticky-'' @ uuid1) (wo_panic_policy opts)
        (wo_max_cached_workflows opts) (wo_deadlock_detection_timeout opts),
      w_activity_handler = \<lparr>ah_task_queue = tq, ah_activities = Map.empty, ah_interceptors = wo_interceptors opts,
        ah_failure_converter = fc\<rparr>,
      w_nexus_handler = \<lparr>nh_ns = ns, nh_identity = identity, nh_operations = Map.empty\<rparr>,
      w_workflow_gate = new_gate (wo_max_concurrent_workflow_task_executions opts),
      w_activity_gate = new_gate (wo_max_concurrent_activity_executions opts),
      w_session_gate = new_gate (wo_max_concurrent_sessions opts),
      w_nexus_gate = new_gate (wo_max_concurrent_activity_executions opts),
      w_activities_per_second = wo_max_activities_per_second opts,
      w_wf_scaler = new_scaler, w_act_scaler = new_scaler, w_active_sessions = 0, w_started = False,
      w_stop = False, w_draining = False, w_threads = [], w_last_cache_hits = 0, w_last_replays = 0\<rparr>"

section \<open>Registration\<close>

definition RegisterWorkflow :: "string \<Rightarrow> 's \<times> (Payloads \<Rightarrow> 's body) \<Rightarrow> 's WorkerImpl \<Rightarrow> 's WorkerImpl" where
  "RegisterWorkflow name fn w = w\<lparr>w_workflow_handler := Register_workflow name fn (w_workflow_handler w)\<rparr>"

definition RegisterActivity :: "string \<Rightarrow> act_fn \<Rightarrow> 's WorkerImpl \<Rightarrow> 's WorkerImpl" where
  "RegisterActivity name fn w = w\<lparr>w_activity_handler := Register_activity name fn (w_activity_handler w)\<rparr>"

definition RegisterNexusOperation :: "string \<Rightarrow> string \<Rightarrow> nexus_fn \<Rightarrow> 's WorkerImpl \<Rightarrow> 's WorkerImpl" where
  "RegisterNexusOperation service operation fn w =
     w\<lparr>w_nexus_handler := Register_operation service operation fn (w_nexus_handler w)\<rparr>"

definition session_creation :: "string typed \<Rightarrow> 's WorkerImpl \<Rightarrow> act_fn" where
  "session_creation str w ai args =
     (case create_session (wo_max_concurrent_sessions (w_options w)) (w_active_sessions w) of
        Inl e \<Rightarrow> ActThrow e
      | Inr n \<Rightarrow> (case ToPayloads [to_payload str (w_session_queue w)] of Inl e \<Rightarrow> ActThrow e | Inr ps \<Rightarrow> ActReturn ps))"

definition session_completion :: "'s WorkerImpl \<Rightarrow> act_fn" where
  "session_completion w ai args = ActReturn []"

text \<open>
  The built-in activities are registered by the constructor, so a later registration under one of
  their names replaces them.
\<close>

definition activity_handler_now :: "string typed \<Rightarrow> 's WorkerImpl \<Rightarrow> ActivityTaskHandler" where
  "activity_handler_now str w =
     (let h = w_activity_handler w
      in if wo_enable_sessions (w_options w)
         then h\<lparr>ah_activities := [kSessionCreationActivityType \<mapsto> session_creation str w,
                                 kSessionCompletionActivityType \<mapsto> session_completion w] ++ ah_activities h\<rparr>
         else h)"

text \<open>The environment the worker gives its workflows: local activities come from its own registry.\<close>

definition SetLocalActivityResolver :: "resolver \<Rightarrow> env \<Rightarrow> env" where
  "SetLocalActivityResolver res E = E\<lparr>local_activity_resolver := Some res\<rparr>"

definition workflow_env :: "act_world \<Rightarrow> string typed \<Rightarrow> 's WorkerImpl \<Rightarrow> env \<Rightarrow> env" where
  "workflow_env W str w E = SetLocalActivityResolver (Lookup W (activity_handler_now str w)) E"

section \<open>Start and stop\<close>

definition has_workflows :: "'s task_handler \<Rightarrow> bool" where
  "has_workflows h \<longleftrightarrow> dom (workflows h) \<noteq> {}"

definition workflow_loops :: "int \<Rightarrow> poll_loop list" where
  "workflow_loops pool = concat (map (\<lambda>i. [WorkflowPollLoop False i, WorkflowPollLoop True i]) [0..pool - 1])"

definition activity_loops :: "int \<Rightarrow> poll_loop list" where
  "activity_loops pool = map (ActivityPollLoop False) [0..pool - 1]"

definition start_workflow_loops :: "'s WorkerImpl \<Rightarrow> 's WorkerImpl" where
  "start_workflow_loops w =
     (let opts = WorkerOptions.truncate (w_options w); base = base_pollers (workflow_task_pollers opts)
      in if has_workflows (w_workflow_handler w)
         then w\<lparr>w_wf_scaler := Start_scaler opts 2 base (w_wf_scaler w),
                w_threads := w_threads w @ workflow_loops (pool_size opts base)\<rparr>
         else w)"

definition start_activity_loops :: "string typed \<Rightarrow> 's WorkerImpl \<Rightarrow> 's WorkerImpl" where
  "start_activity_loops str w =
     (let opts = WorkerOptions.truncate (w_options w); base = base_pollers (activity_task_pollers opts)
      in if has_activities (activity_handler_now str w)
         then w\<lparr>w_act_scaler := Start_scaler opts 1 base (w_act_scaler w),
                w_threads := w_threads w @ activity_loops (pool_size opts base)
                  @ (if wo_enable_sessions (w_options w) then [ActivityPollLoop True 0] else [])\<rparr>
         else w)"

definition start_nexus_loop :: "'s WorkerImpl \<Rightarrow> 's WorkerImpl" where
  "start_nexus_loop w =
     (if has_operations (w_nexus_handler w) then w\<lparr>w_threads := w_threads w @ [NexusPollLoop]\<rparr> else w)"

definition Start :: "string typed \<Rightarrow> 's WorkerImpl \<Rightarrow> 's WorkerImpl" where
  "Start str w =
     (if w_started w then w
      else start_nexus_loop (start_activity_loops str (start_workflow_loops (w\<lparr>w_started := True\<rparr>))))"

text \<open>The queue a loop polls.\<close>

fun loop_queue :: "'s WorkerImpl \<Rightarrow> poll_loop \<Rightarrow> string" where
  "loop_queue w (WorkflowPollLoop sticky i) =
     (if sticky then sticky_queue (w_workflow_handler w) else w_task_queue w)"
| "loop_queue w (ActivityPollLoop session i) = (if session then w_session_queue w else w_task_queue w)"
| "loop_queue w NexusPollLoop = w_task_queue w"

text \<open>
  The state \<^verbatim>\<open>Stop\<close> leaves when all threads have been joined, and its warning: \<open>in_time\<close> says of
  each gate whether it drained before the deadline.
\<close>

definition Stop :: "(ConcurrencyGate \<Rightarrow> bool) \<Rightarrow> 's WorkerImpl \<Rightarrow> bool \<times> 's WorkerImpl" where
  "Stop in_time w =
     (let w' = w\<lparr>w_draining := True, w_stop := True,
                 w_workflow_gate := gate_ReleaseAll (w_workflow_gate w),
                 w_activity_gate := gate_ReleaseAll (w_activity_gate w),
                 w_session_gate := gate_ReleaseAll (w_session_gate w),
                 w_nexus_gate := gate_ReleaseAll (w_nexus_gate w)\<rparr>;
          warned = (wo_graceful_shutdown_timeout (w_options w) > 0
             \<and> \<not> list_all in_time [w_workflow_gate w', w_activity_gate w', w_session_gate w', w_nexus_gate w'])
      in (warned, w'\<lparr>w_threads := []\<rparr>))"

section \<open>Metrics and replay\<close>

text \<open>
  A call of a \<^verbatim>\<open>MetricsHandler\<close>. A gauge takes a \<^verbatim>\<open>double\<close>; the worker converts counts that an \<^verbatim>\<open>int\<close> or a \<^verbatim>\<open>long\<close>
  holds, which are kept as integers here. A timer takes nanoseconds.
\<close>

type_synonym Tags = "string \<rightharpoonup> string"

datatype metric = Counter string int Tags | Gauge string int Tags | Timer_metric string int Tags

definition queue_tags :: "'s WorkerImpl \<Rightarrow> Tags" where
  "queue_tags w = [''task_queue'' \<mapsto> w_task_queue w]"

text \<open>One call of \<^verbatim>\<open>EmitStickyCacheMetrics\<close> with the two readings it made before taking the mutex.\<close>

definition EmitStickyCacheMetrics :: "int \<Rightarrow> int \<Rightarrow> 's WorkerImpl \<Rightarrow> metric list \<times> 's WorkerImpl" where
  "EmitStickyCacheMetrics hits misses w =
     (let (hit_delta, hits') = emit_delta (w_last_cache_hits w) hits;
          (miss_delta, misses') = emit_delta (w_last_replays w) misses;
          tags = queue_tags w; cap = wo_max_cached_workflows (w_options w)
      in ((if hit_delta > 0 then [Counter ''temporal_sticky_cache_hit'' hit_delta tags] else [])
          @ (if miss_delta > 0 then [Counter ''temporal_sticky_cache_miss'' miss_delta tags] else [])
          @ [Gauge ''temporal_sticky_cache_total_hits'' hits tags, Gauge ''temporal_sticky_cache_total_misses'' misses tags]
          @ (if cap > 0 then [Gauge ''temporal_sticky_cache_size'' cap tags] else []),
          w\<lparr>w_last_cache_hits := hits', w_last_replays := misses'\<rparr>))"

text \<open>\<open>parse_json\<close> is the protobuf library's; its left value is the text of the status.\<close>

definition ReplayWorkflowHistory ::
  "(string \<Rightarrow> string + HistoryEvent list) \<Rightarrow> env \<Rightarrow> gateway \<Rightarrow> nat \<Rightarrow> string \<Rightarrow> 's WorkerImpl \<Rightarrow> (wf_error option) flow" where
  "ReplayWorkflowHistory parse_json E gw n text w =
     (case parse_json text of
        Inl msg \<Rightarrow> Ok (Some (ApplicationError (''failed to parse history JSON: '' @ msg) ''ReplayError'' False))
      | Inr h \<Rightarrow> bind_flow (ReplayHistory E gw n h (w_workflow_handler w))
          (\<lambda>res. Ok (case res of
             Inl e \<Rightarrow> Some e
           | Inr None \<Rightarrow> None
           | Inr (Some m) \<Rightarrow> Some (ApplicationError m ''NonDeterministicError'' False))))"

section \<open>What a started worker polls\<close>

lemmas start_defs = Start_def start_workflow_loops_def start_activity_loops_def start_nexus_loop_def Let_def

lemma Start_frame [simp]:
  "w_options (Start str w) = w_options w" "w_task_queue (Start str w) = w_task_queue w"
  "w_session_queue (Start str w) = w_session_queue w" "w_workflow_handler (Start str w) = w_workflow_handler w"
  "w_activity_handler (Start str w) = w_activity_handler w" "w_nexus_handler (Start str w) = w_nexus_handler w"
  "w_active_sessions (Start str w) = w_active_sessions w"
  by (simp_all add: start_defs)

lemma has_activities_now:
  "has_activities (activity_handler_now str w) \<longleftrightarrow> wo_enable_sessions (w_options w) \<or> has_activities (w_activity_handler w)"
  by (auto simp: activity_handler_now_def has_activities_def Let_def)

lemma base_pollers_pos: "1 \<le> pool_size opts (base_pollers n)"
  by (auto simp: pool_size_def base_pollers_def le_max_iff_disj)

lemma set_workflow_loops: "set (workflow_loops pool) = {WorkflowPollLoop b i |b i. 0 \<le> i \<and> i < pool}"
  by (auto simp: workflow_loops_def)

lemma set_activity_loops: "set (activity_loops pool) = {ActivityPollLoop False i |i. 0 \<le> i \<and> i < pool}"
  by (auto simp: activity_loops_def)

lemma distinct_loops: "distinct (workflow_loops pool)" "distinct (activity_loops pool)"
  by (auto simp: workflow_loops_def activity_loops_def distinct_map inj_on_def intro!: distinct_concat)

definition wf_pool :: "'s WorkerImpl \<Rightarrow> int" where
  "wf_pool w = pool_size (WorkerOptions.truncate (w_options w)) (base_pollers (workflow_task_pollers (w_options w)))"

definition act_pool :: "'s WorkerImpl \<Rightarrow> int" where
  "act_pool w = pool_size (WorkerOptions.truncate (w_options w)) (base_pollers (activity_task_pollers (w_options w)))"

lemma Start_threads:
  assumes "\<not> w_started w"
  shows "w_threads (Start str w) = w_threads w
    @ (if has_workflows (w_workflow_handler w) then workflow_loops (wf_pool w) else [])
    @ (if wo_enable_sessions (w_options w) \<or> has_activities (w_activity_handler w) then activity_loops (act_pool w) else [])
    @ (if wo_enable_sessions (w_options w) then [ActivityPollLoop True 0] else [])
    @ (if has_operations (w_nexus_handler w) then [NexusPollLoop] else [])"
  using assms
  by (simp add: start_defs has_activities_now wf_pool_def act_pool_def WorkerOptions.truncate_def)

lemma Start_again: "Start str (Start str w) = Start str w"
  by (simp add: start_defs)

text \<open>The loops a worker should run, by what is registered with it.\<close>

fun wanted_loop :: "'s WorkerImpl \<Rightarrow> poll_loop \<Rightarrow> bool" where
  "wanted_loop w (WorkflowPollLoop sticky i) \<longleftrightarrow> has_workflows (w_workflow_handler w) \<and> 0 \<le> i \<and> i < wf_pool w"
| "wanted_loop w (ActivityPollLoop session i) \<longleftrightarrow>
     (if session then wo_enable_sessions (w_options w) \<and> i = 0
      else (wo_enable_sessions (w_options w) \<or> has_activities (w_activity_handler w)) \<and> 0 \<le> i \<and> i < act_pool w)"
| "wanted_loop w NexusPollLoop \<longleftrightarrow> has_operations (w_nexus_handler w)"

text \<open>
  C37. A started worker polls exactly the queues it has handlers for: its threads are, each once, a
  normal and a sticky loop per index of the pool when a workflow is registered, the activity loops
  when an activity is or sessions are enabled, the session loop when they are, and the Nexus loop; each
  pool has at least the index zero, and that loop never parks. A second \<^verbatim>\<open>Start\<close> changes nothing.
\<close>

theorem started_worker_polls:
  assumes "\<not> w_started w" and "w_threads w = []"
  shows "distinct (w_threads (Start str w)) \<and> (\<forall>l. l \<in> set (w_threads (Start str w)) \<longleftrightarrow> wanted_loop w l)
    \<and> 1 \<le> wf_pool w \<and> 1 \<le> act_pool w \<and> \<not> is_scalable (WorkerOptions.truncate (w_options w)) 0
    \<and> Start str (Start str w) = Start str w"
proof -
  have "l \<in> set (w_threads (Start str w)) \<longleftrightarrow> wanted_loop w l" for l
    using assms by (cases l) (auto simp: Start_threads set_workflow_loops set_activity_loops)
  moreover have "distinct (w_threads (Start str w))"
    using assms by (auto simp: Start_threads distinct_loops set_workflow_loops set_activity_loops)
  ultimately show ?thesis
    by (simp add: Start_again is_scalable_def wf_pool_def act_pool_def base_pollers_pos)
qed

definition plain_options :: worker_config where
  "plain_options =
     \<lparr>workflow_task_pollers = 1, activity_task_pollers = 1, enable_poller_autoscaling = False,
      min_concurrent_pollers = 1, max_concurrent_pollers = 4, autoscaling_idle_polls_before_park = 5,
      wo_max_concurrent_activities = 0, wo_max_concurrent_workflow_tasks = 0, wo_panic_policy = BlockWorkflow,
      wo_max_cached_workflows = 0, wo_metrics_handler = False, wo_interceptors = [],
      wo_max_concurrent_activity_executions = 0, wo_max_concurrent_workflow_task_executions = 0,
      wo_deadlock_detection_timeout = 0, wo_max_activities_per_second = 0, wo_graceful_shutdown_timeout = 0,
      wo_enable_sessions = True, wo_max_concurrent_sessions = 0\<rparr>"

theorem started_worker_polls_witness:
  "ActivityPollLoop True 0 \<in> set (w_threads (Start text_type (new_worker ''1'' ''2'' ''ns'' ''me'' None ''q'' plain_options :: unit WorkerImpl)))"
  using started_worker_polls [of "new_worker ''1'' ''2'' ''ns'' ''me'' None ''q'' plain_options :: unit WorkerImpl" text_type]
  by (simp add: new_worker_def plain_options_def)

section \<open>Sessions from workflow to host\<close>

lemma session_task_answered:
  assumes "wo_enable_sessions (w_options w)" and "ah_activities (w_activity_handler w) kSessionCreationActivityType = None"
    and "ah_interceptors (w_activity_handler w) = []" and "at_activity_type t = kSessionCreationActivityType"
    and "to_payload str (w_session_queue w) = Inr p" and "completed_rpc R = None"
  shows "Handle_activity W R (activity_handler_now str w) t =
    (case create_session (wo_max_concurrent_sessions (w_options w)) (w_active_sessions w) of
       Inr n \<Rightarrow> ([RespondActivityTaskCompleted (at_token t) (Some (ToProtoPayloads [p]))], None)
     | Inl e \<Rightarrow> send_failed R (at_token t) (handler_failure (activity_handler_now str w) e))"
proof -
  have "kSessionCreationActivityType \<noteq> kSessionCompletionActivityType"
    by (simp add: kSessionCreationActivityType_def kSessionCompletionActivityType_def)
  with assms have fn: "ah_activities (activity_handler_now str w) (at_activity_type t) = Some (session_creation str w)"
    and ic: "ah_interceptors (activity_handler_now str w) = []"
    by (simp_all add: activity_handler_now_def map_add_Some_iff Let_def)
  have "fst (execute W (activity_handler_now str w) (session_creation str w) t) =
      (case create_session (wo_max_concurrent_sessions (w_options w)) (w_active_sessions w) of
         Inl e \<Rightarrow> Inl e | Inr n \<Rightarrow> Inr [p])"
    and "\<not> will_complete_async (snd (execute W (activity_handler_now str w) (session_creation str w) t))"
    using assms(5) ic
    by (auto simp: execute_def BuildActivityInboundChain_def RootActivityInbound_def session_creation_def
        new_context_def Let_def split: sum.split)
  with fn assms(6) show ?thesis
    by (cases "execute W (activity_handler_now str w) (session_creation str w) t")
      (auto simp: Handle_activity_def catch_clauses_def create_session_def Let_def split: if_splits)
qed

lemma exec_CreateSession:
  assumes "\<not> activity_known (scan r) (nat_to_string (activity_seq r))"
  shows "\<exists>r1. heap r1 = heap r @ [new_future OpActivity (nat_to_string (activity_seq r))]
    \<and> activity_futures r1 (nat_to_string (activity_seq r)) = Some (length (heap r))
    \<and> (\<forall>m. exec E (m + 2) (CreateSession str timeout k thr) r
        = (Suspended (Future_Get str (length (heap r)) (\<lambda>q. k \<lparr>session_id = q, session_queue = q\<rparr>) thr), r1))"
proof -
  let ?opts = "default_activity_options\<lparr>schedule_to_close_timeout := timeout, start_to_close_timeout := timeout\<rparr>"
  obtain r1 where st: "ScheduleActivity E kSessionCreationActivityType [] ?opts r = (length (heap r), r1)"
    and h: "heap r1 = heap r @ [new_future OpActivity (nat_to_string (activity_seq r))]"
      "activity_futures r1 (nat_to_string (activity_seq r)) = Some (length (heap r))"
    using ScheduleActivity_sent [OF assms, of E kSessionCreationActivityType "[]" ?opts] by auto
  have "exec E (Suc m) (CreateSession str timeout k thr) r
      = exec E m (Future_Get str (length (heap r)) (\<lambda>q. k \<lparr>session_id = q, session_queue = q\<rparr>) thr) r1" for m
    unfolding CreateSession_def ExecuteActivity_ctx_def using st
    by (simp add: Let_def decoded_or_def expect_future_def)
  then show ?thesis
    using h exec_Get_state_waits [of r1 "length (heap r)" E]
    by (intro exI [of _ r1]) (simp add: Future_Get_def new_future_def del: exec.simps)
qed

lemma activity_resolved:
  assumes "activity_futures r i = Some a" and "a < length (heap r)"
    and "r' = ApplyEventToState \<lparr>event_id = eid2, attrs = ActivityEv (ActivityTaskCompleted eid res)\<rparr>
      (ApplyEventToState \<lparr>event_id = eid, attrs = ActivityEv (ActivityTaskScheduled i type)\<rparr> r)"
  shows "ready (heap r' ! a) \<and> \<not> failed (heap r' ! a) \<and> result (heap r' ! a) = FromProtoPayloads res"
  using assms by (simp add: ApplyEventToState_def ResolveActivity_def resolve_at_def set_future_def)

text \<open>
  C36. A session is pinned to the host that accepted it. With sessions enabled and a free slot, the
  worker answers the creation activity with its own session queue; a workflow that called
  \<^verbatim>\<open>CreateSession\<close> parks, and when that answer has come back through history it goes on with a session
  whose queue is that queue; and a loop of the same worker, once started, polls it.
\<close>

theorem session_pinned_to_host:
  assumes on: "wo_enable_sessions (w_options w)" "\<not> w_started w"
    and own: "ah_activities (w_activity_handler w) kSessionCreationActivityType = None"
      "ah_interceptors (w_activity_handler w) = []"
    and task: "at_activity_type t = kSessionCreationActivityType" "completed_rpc R = None"
    and free: "wo_max_concurrent_sessions (w_options w) \<le> 0
      \<or> w_active_sessions w < wo_max_concurrent_sessions (w_options w)"
    and codec: "to_payload str (w_session_queue w) = Inr p" "from_payload str p = Inr (w_session_queue w)"
    and fresh: "\<not> activity_known (scan r) (nat_to_string (activity_seq r))"
  shows "\<exists>res b r1. Handle_activity W R (activity_handler_now str w) t
        = ([RespondActivityTaskCompleted (at_token t) (Some res)], None)
    \<and> (\<forall>m. exec E (m + 2) (CreateSession str timeout k thr) r = (Suspended b, r1))
    \<and> (\<forall>m. let r' = ApplyEventToState \<lparr>event_id = eid2, attrs = ActivityEv (ActivityTaskCompleted eid res)\<rparr>
              (ApplyEventToState \<lparr>event_id = eid, attrs = ActivityEv
                 (ActivityTaskScheduled (nat_to_string (activity_seq r)) kSessionCreationActivityType)\<rparr> r1)
           in exec E (m + 2) b r' = exec E m (k \<lparr>session_id = w_session_queue w, session_queue = w_session_queue w\<rparr>) r')
    \<and> (\<exists>l \<in> set (w_threads (Start str w)). loop_queue w l = w_session_queue w)"
proof -
  let ?a = "length (heap r)" and ?i = "nat_to_string (activity_seq r)"
  let ?b = "Future_Get str ?a (\<lambda>q. k \<lparr>session_id = q, session_queue = q\<rparr>) thr"
  have "\<exists>n. create_session (wo_max_concurrent_sessions (w_options w)) (w_active_sessions w) = Inr n"
    using free by (auto simp: create_session_def)
  with session_task_answered [OF on(1) own task(1) codec(1) task(2), of W]
  have answer: "Handle_activity W R (activity_handler_now str w) t
      = ([RespondActivityTaskCompleted (at_token t) (Some (ToProtoPayloads [p]))], None)" by auto
  obtain r1 where h: "heap r1 = heap r @ [new_future OpActivity ?i]" "activity_futures r1 ?i = Some ?a"
    and park: "\<And>m. exec E (m + 2) (CreateSession str timeout k thr) r = (Suspended ?b, r1)"
    using exec_CreateSession [OF fresh, of E str timeout k thr] by blast
  have resume: "exec E (m + 2) ?b r' = exec E m (k \<lparr>session_id = w_session_queue w, session_queue = w_session_queue w\<rparr>) r'"
    if "r' = ApplyEventToState \<lparr>event_id = eid2, attrs = ActivityEv (ActivityTaskCompleted eid (ToProtoPayloads [p]))\<rparr>
      (ApplyEventToState \<lparr>event_id = eid, attrs = ActivityEv (ActivityTaskScheduled ?i kSessionCreationActivityType)\<rparr> r1)" for m r'
    using activity_resolved [OF h(2) _ that] h(1) codec(2) exec_Get_state_ready [of r' ?a E m]
    by (simp add: Future_Get_def decoded_or_def payload_at_def wire_simps del: exec.simps)
  have "ActivityPollLoop True 0 \<in> set (w_threads (Start str w))"
    using on by (simp add: Start_threads)
  then have "\<exists>l \<in> set (w_threads (Start str w)). loop_queue w l = w_session_queue w"
    by (intro bexI) auto
  with answer park resume show ?thesis
    by (intro exI [of _ "ToProtoPayloads [p]"] exI [of _ ?b] exI [of _ r1]) (simp add: Let_def del: exec.simps)
qed

theorem session_pinned_to_host_witness:
  "\<forall>W E wi. \<exists>res b r1.
     Handle_activity W \<lparr>completed_rpc = None, failed_rpc = None\<rparr>
       (activity_handler_now text_type (new_worker ''1'' ''2'' ''ns'' ''me'' None ''q'' plain_options :: unit WorkerImpl))
       \<lparr>at_token = ''tok'', at_activity_id = ''0'', at_activity_type = kSessionCreationActivityType, at_workflow_id = ''w'',
        at_run_id = ''r'', at_attempt = 1, at_header = Map.empty, at_input = [], at_heartbeat_timeout = None\<rparr>
       = ([RespondActivityTaskCompleted ''tok'' (Some res)], None)
     \<and> (\<forall>m. exec E (m + 2) (CreateSession text_type 30000 (\<lambda>s. Finish (Returned [])) uncaught)
          (new_runner E wi False empty_prescan (\<lambda>p. Finish (Returned p)) [] ()) = (Suspended b, r1))"
proof (intro allI)
  fix W E wi
  let ?w = "new_worker ''1'' ''2'' ''ns'' ''me'' None ''q'' plain_options :: unit WorkerImpl"
    and ?r = "new_runner E wi False empty_prescan (\<lambda>p. Finish (Returned p)) [] ()"
    and ?t = "\<lparr>at_token = ''tok'', at_activity_id = ''0'', at_activity_type = kSessionCreationActivityType, at_workflow_id = ''w'',
        at_run_id = ''r'', at_attempt = 1, at_header = Map.empty, at_input = [], at_heartbeat_timeout = None\<rparr>"
  have r: "\<not> activity_known (scan ?r) (nat_to_string (activity_seq ?r))"
    by (simp add: activity_known_def new_runner_def empty_prescan_def)
  show "\<exists>res b r1. Handle_activity W \<lparr>completed_rpc = None, failed_rpc = None\<rparr> (activity_handler_now text_type ?w) ?t
       = ([RespondActivityTaskCompleted ''tok'' (Some res)], None)
     \<and> (\<forall>m. exec E (m + 2) (CreateSession text_type 30000 (\<lambda>s. Finish (Returned [])) uncaught) ?r = (Suspended b, r1))"
    using session_pinned_to_host [where w = ?w and t = ?t and R = "\<lparr>completed_rpc = None, failed_rpc = None\<rparr>"
        and str = text_type and p = "\<lparr>metadata = Map.empty, pdata = w_session_queue ?w\<rparr>" and r = ?r and W = W and E = E
        and timeout = 30000 and k = "\<lambda>s. Finish (Returned [])" and thr = uncaught, OF _ _ _ _ _ _ _ _ _ r]
    by (simp add: new_worker_def plain_options_def text_type_def del: exec.simps) blast
qed

end
