(* ===== verification/Worker_Metrics.thy ===== *)
theory Worker_Metrics
  imports Worker_Lifecycle
begin

text \<open>
  The poll loops of \<^verbatim>\<open>src/internal/worker_impl.cpp\<close> with the metrics they emit: what a poller reports when its
  thread starts, and one pass through each loop as the sequence of its actions and of its calls of
  the metrics handler, in the order of the code. Without the metrics a pass is the pass of \<open>Worker\<close>.
\<close>

section \<open>Starting a poller\<close>

fun poller_type :: "poll_loop \<Rightarrow> string" where
  "poller_type (WorkflowPollLoop sticky i) = (if sticky then ''sticky'' else ''workflow'')"
| "poller_type (ActivityPollLoop session i) = (if session then ''session'' else ''activity'')"
| "poller_type NexusPollLoop = ''nexus''"

definition poller_tags :: "'s WorkerImpl \<Rightarrow> poll_loop \<Rightarrow> Tags" where
  "poller_tags w l = (queue_tags w)(''poller_type'' \<mapsto> poller_type l)"

fun pollers_in_flight :: "'s WorkerImpl \<Rightarrow> poll_loop \<Rightarrow> metric list" where
  "pollers_in_flight w (WorkflowPollLoop sticky i) =
     [Gauge ''temporal_pollers_in_flight'' (scaler_active (w_wf_scaler w)) (queue_tags w)]"
| "pollers_in_flight w (ActivityPollLoop session i) =
     [Gauge ''temporal_pollers_in_flight''
        (scaler_active (w_act_scaler w) + (if wo_enable_sessions (w_options w) then 1 else 0)) (queue_tags w)]"
| "pollers_in_flight w NexusPollLoop = []"

definition poller_start :: "'s WorkerImpl \<Rightarrow> poll_loop \<Rightarrow> metric list" where
  "poller_start w l =
     (if wo_metrics_handler (w_options w)
      then Counter ''temporal_poller_start'' 1 (poller_tags w l) # pollers_in_flight w l else [])"

text \<open>
  What the constructor installs with \<^verbatim>\<open>SetDeadlockReporter\<close>: the task handler calls it once for each task it aborts,
  which its \<open>deadlock_reports\<close> count.
\<close>

definition deadlock_reporter :: "'s WorkerImpl \<Rightarrow> metric list" where
  "deadlock_reporter w =
     (if wo_metrics_handler (w_options w) then [Counter ''temporal_workflow_task_deadlock'' 1 Map.empty] else [])"

section \<open>One pass\<close>

text \<open>
  What a pass meets besides: the instants of receipt, of the start and of the end of the handler, the
  two readings of the gate's executions, and the readings of the handler's counters.
\<close>

record loop_inputs = poll_inputs +
  li_recv :: int
  li_start :: int
  li_now :: int
  li_in_flight :: int
  li_in_flight_again :: int
  li_hits :: int
  li_misses :: int

datatype loop_item = Ev poll_event | Emit metric

type_synonym 's pass = "(loop_item list \<times> poll_next) \<times> 's WorkerImpl"

definition metered :: "bool \<Rightarrow> metric list \<Rightarrow> loop_item list" where
  "metered metrics ms = (if metrics then map Emit ms else [])"

definition then_pass :: "loop_item list \<Rightarrow> 's pass \<Rightarrow> 's pass" where
  "then_pass es r = (after es (fst r), snd r)"

definition metered_catch :: "bool \<Rightarrow> metric \<Rightarrow> bool \<Rightarrow> bool \<Rightarrow> loop_item list \<times> poll_next" where
  "metered_catch metrics failure_metric free_slot stopped =
     ((if free_slot then [Ev SlotReleased] else [])
        @ (if stopped then [] else metered metrics [failure_metric] @ [Ev LoggedError]),
      if stopped then Break else Continue)"

text \<open>
  From the gate on: \<open>before\<close> is reported once the permit is held, \<open>failure_metric\<close> when the handler throws, and
  \<open>handled\<close> when it returns, which for the workflow loop includes \<^verbatim>\<open>EmitStickyCacheMetrics\<close>.
\<close>

definition metered_dispatch ::
  "bool \<Rightarrow> metric list \<Rightarrow> metric \<Rightarrow> ('s WorkerImpl \<Rightarrow> metric list \<times> 's WorkerImpl) \<Rightarrow> loop_inputs \<Rightarrow> string
   \<Rightarrow> 's WorkerImpl \<Rightarrow> 's pass" where
  "metered_dispatch metrics before failure_metric handled x token w =
     (if \<not> pi_permit x then (([], Break), w)
      else then_pass ([Ev PermitAcquired] @ metered metrics before @ [Ev (Dispatched token)])
        (case pi_handler x of
           None \<Rightarrow> (let (ms, w') = (if metrics then handled w else ([], w))
                    in ((metered metrics ms @ [Ev PermitReleased], Continue), w'))
         | Some OtherThrow \<Rightarrow> (([], Terminate), w)
         | Some _ \<Rightarrow> (after [Ev PermitReleased] (metered_catch metrics failure_metric False (pi_stop_caught x)), w)))"

text \<open>The gauges of the gate: the slots are reported only for a bounded kind of task.\<close>

definition gate_gauges :: "string \<Rightarrow> string \<Rightarrow> int \<Rightarrow> loop_inputs \<Rightarrow> 's WorkerImpl \<Rightarrow> metric list" where
  "gate_gauges in_flight_name worker_type cap x w =
     [Gauge in_flight_name (li_in_flight x) Map.empty]
     @ (if cap > 0
        then [Gauge ''temporal_worker_task_slots_available'' (cap - li_in_flight_again x)
                ((queue_tags w)(''worker_type'' \<mapsto> worker_type))]
        else [])"

definition workflow_handled :: "loop_inputs \<Rightarrow> 's WorkerImpl \<Rightarrow> metric list \<times> 's WorkerImpl" where
  "workflow_handled x w =
     apfst (\<lambda>ms. [Timer_metric ''temporal_workflow_task_execution_latency'' (li_now x - li_start x) Map.empty,
                   Timer_metric ''temporal_workflow_task_end_to_end_latency'' (li_now x - li_recv x) (queue_tags w),
                   Counter ''temporal_workflow_task_handled'' 1 Map.empty] @ ms)
       (EmitStickyCacheMetrics (li_hits x) (li_misses x) w)"

definition WorkflowPollLoop_pass :: "int \<Rightarrow> loop_inputs \<Rightarrow> 's WorkerImpl \<Rightarrow> 's pass" where
  "WorkflowPollLoop_pass i x w =
     (let opts = w_options w;
          metrics = wo_metrics_handler opts;
          scalable = is_scalable (WorkerOptions.truncate opts) i;
          failure_metric = Counter ''temporal_workflow_task_failed'' 1 (queue_tags w)
      in if scalable \<and> \<not> pi_slot x then (([], Break), w)
         else then_pass (if scalable then [Ev SlotAcquired] else [])
          (case pi_poll x of
             Inl e \<Rightarrow> (metered_catch metrics failure_metric scalable (pi_stop_caught x), w)
           | Inr token \<Rightarrow>
               then_pass (map Ev ((if enable_poller_autoscaling opts then [Reported (token \<noteq> [])] else [])
                                  @ (if scalable then [SlotReleased] else [])))
                 (if pi_stop_polled x then (([], Break), w)
                  else if token = [] then
                    ((metered metrics [Counter ''temporal_workflow_poll_timeout'' 1 Map.empty], Continue), w)
                  else then_pass (metered metrics [Counter ''temporal_workflow_poll_success'' 1 Map.empty])
                    (if pi_draining x then (([], Continue), w)
                     else metered_dispatch metrics
                       (gate_gauges ''temporal_workflow_tasks_in_flight'' ''workflow''
                          (wo_max_concurrent_workflow_task_executions opts) x w
                        @ [Timer_metric ''temporal_workflow_task_schedule_to_start_latency'' (li_start x - li_recv x) (queue_tags w)])
                       failure_metric (workflow_handled x) x token w))))"

definition ActivityPollLoop_pass :: "bool \<Rightarrow> int \<Rightarrow> loop_inputs \<Rightarrow> 's WorkerImpl \<Rightarrow> 's pass" where
  "ActivityPollLoop_pass session i x w =
     (let opts = w_options w;
          metrics = wo_metrics_handler opts;
          scalable = (\<not> session \<and> is_scalable (WorkerOptions.truncate opts) i);
          failure_metric = Counter ''temporal_activity_task_failed'' 1 (queue_tags w);
          kind = (if session then ''session'' else ''activity'');
          cap = (if session then wo_max_concurrent_sessions opts else wo_max_concurrent_activity_executions opts)
      in if scalable \<and> \<not> pi_slot x then (([], Break), w)
         else then_pass (if scalable then [Ev SlotAcquired] else [])
          (case pi_poll x of
             Inl e \<Rightarrow> (metered_catch metrics failure_metric scalable (pi_stop_caught x), w)
           | Inr token \<Rightarrow>
               then_pass (map Ev ((if enable_poller_autoscaling opts \<and> \<not> session then [Reported (token \<noteq> [])] else [])
                                  @ (if scalable then [SlotReleased] else [])))
                 (if pi_stop_polled x then (([], Break), w)
                  else if token = [] then
                    ((metered metrics [Counter ''temporal_activity_poll_timeout'' 1 Map.empty], Continue), w)
                  else then_pass (metered metrics [Counter ''temporal_activity_poll_success'' 1 Map.empty])
                    (if pi_draining x then (([], Continue), w)
                     else then_pass [Ev Paced]
                       (if pi_stop_paced x then (([], Break), w)
                        else metered_dispatch metrics
                          (gate_gauges ''temporal_activity_tasks_in_flight'' kind cap x w
                           @ [Timer_metric ''temporal_activity_task_schedule_to_start_latency'' (li_start x - li_recv x) (queue_tags w)])
                          failure_metric
                          (\<lambda>w. ([Timer_metric ''temporal_activity_task_execution_latency'' (li_now x - li_start x) Map.empty,
                                 Timer_metric ''temporal_activity_task_end_to_end_latency'' (li_now x - li_recv x) (queue_tags w),
                                 Counter ''temporal_activity_task_handled'' 1 Map.empty], w))
                          x token w)))))"

definition NexusPollLoop_pass :: "loop_inputs \<Rightarrow> 's WorkerImpl \<Rightarrow> 's pass" where
  "NexusPollLoop_pass x w =
     (let metrics = wo_metrics_handler (w_options w);
          failure_metric = Counter ''temporal_nexus_task_failed'' 1 (queue_tags w)
      in case pi_poll x of
           Inl e \<Rightarrow> (metered_catch metrics failure_metric False (pi_stop_caught x), w)
         | Inr token \<Rightarrow>
             (if pi_stop_polled x then (([], Break), w)
              else if token = [] then
                ((metered metrics [Counter ''temporal_nexus_poll_timeout'' 1 Map.empty], Continue), w)
              else then_pass (metered metrics [Counter ''temporal_nexus_poll_success'' 1 Map.empty])
                (if pi_draining x then (([], Continue), w)
                 else metered_dispatch metrics
                   [Timer_metric ''temporal_nexus_task_schedule_to_start_latency'' (li_start x - li_recv x) (queue_tags w)]
                   failure_metric
                   (\<lambda>w. ([Timer_metric ''temporal_nexus_task_execution_latency'' (li_now x - li_start x) Map.empty,
                          Counter ''temporal_nexus_task_handled'' 1 Map.empty], w))
                   x token w)))"

fun loop_pass :: "poll_loop \<Rightarrow> loop_inputs \<Rightarrow> 's WorkerImpl \<Rightarrow> 's pass" where
  "loop_pass (WorkflowPollLoop sticky i) = WorkflowPollLoop_pass i"
| "loop_pass (ActivityPollLoop session i) = ActivityPollLoop_pass session i"
| "loop_pass NexusPollLoop = NexusPollLoop_pass"

text \<open>
  A poller's thread: each pass begins with the stop flag; it ends at the first that leaves the loop. The
  list holds what the passes of the run meet.
\<close>

fun loop_passes :: "poll_loop \<Rightarrow> (bool \<times> loop_inputs) list \<Rightarrow> 's WorkerImpl \<Rightarrow> 's pass" where
  "loop_passes l [] w = (([], Continue), w)"
| "loop_passes l ((stopped, x) # xs) w =
     (if stopped then (([], Break), w)
      else case loop_pass l x w of
             ((es, Continue), w') \<Rightarrow> then_pass es (loop_passes l xs w')
           | r \<Rightarrow> r)"

definition poll_thread :: "poll_loop \<Rightarrow> (bool \<times> loop_inputs) list \<Rightarrow> 's WorkerImpl \<Rightarrow> 's pass" where
  "poll_thread l xs w = then_pass (map Emit (poller_start w l)) (loop_passes l xs w)"

section \<open>Reading a run\<close>

fun metric_name :: "metric \<Rightarrow> string" where
  "metric_name (Counter n v t) = n"
| "metric_name (Gauge n v t) = n"
| "metric_name (Timer_metric n v t) = n"

definition emitted :: "string \<Rightarrow> loop_item list \<Rightarrow> metric list" where
  "emitted n is = filter (\<lambda>m. metric_name m = n) (List.map_filter (\<lambda>i. case i of Ev e \<Rightarrow> None | Emit m \<Rightarrow> Some m) is)"

definition events :: "loop_item list \<Rightarrow> poll_event list" where
  "events is = List.map_filter (\<lambda>i. case i of Ev e \<Rightarrow> Some e | Emit m \<Rightarrow> None) is"

definition dispatched :: "loop_item list \<Rightarrow> string list" where
  "dispatched is = List.map_filter (\<lambda>e. case e of Dispatched t \<Rightarrow> Some t | _ \<Rightarrow> None) (events is)"

lemma read_simps [simp]:
  "emitted n [] = []" "emitted n (Ev e # is) = emitted n is"
  "emitted n (Emit m # is) = (if metric_name m = n then [m] else []) @ emitted n is"
  "emitted n (is @ js) = emitted n is @ emitted n js"
  "events [] = []" "events (Ev e # is) = e # events is" "events (Emit m # is) = events is"
  "events (is @ js) = events is @ events js"
  by (simp_all add: emitted_def events_def List.map_filter_def)

lemma read_maps [simp]:
  "emitted n (map Emit ms) = filter (\<lambda>m. metric_name m = n) ms" "emitted n (map Ev es) = []"
  "events (map Emit ms) = []" "events (map Ev es) = es"
proof -
  show "emitted n (map Emit ms) = filter (\<lambda>m. metric_name m = n) ms" "events (map Emit ms) = []"
    by (induction ms) simp_all
  show "emitted n (map Ev es) = []" "events (map Ev es) = es" by (induction es) simp_all
qed

lemma dispatched_simps [simp]:
  "dispatched [] = []" "dispatched (Emit m # is) = dispatched is"
  "dispatched (Ev e # is) = (case e of Dispatched t \<Rightarrow> [t] | _ \<Rightarrow> []) @ dispatched is"
  "dispatched (is @ js) = dispatched is @ dispatched js" "dispatched (map Emit ms) = []"
  by (simp_all add: dispatched_def List.map_filter_def split: poll_event.split)

lemma metered_simps [simp]: "metered True ms = map Emit ms" "metered False ms = []"
  by (simp_all add: metered_def)

lemma metered_reads [simp]: "events (metered metrics ms) = []" "dispatched (metered metrics ms) = []"
  by (simp_all add: metered_def)

text \<open>Without its metrics a pass is the pass of \<open>Worker\<close>, with a metrics handler or without.\<close>

fun loop_body :: "'s WorkerImpl \<Rightarrow> poll_loop \<Rightarrow> poll_inputs \<Rightarrow> poll_event list \<times> poll_next" where
  "loop_body w (WorkflowPollLoop sticky i) =
     WorkflowPollLoop_body (enable_poller_autoscaling (w_options w)) (is_scalable (WorkerOptions.truncate (w_options w)) i)"
| "loop_body w (ActivityPollLoop session i) =
     ActivityPollLoop_body session (enable_poller_autoscaling (w_options w))
       (\<not> session \<and> is_scalable (WorkerOptions.truncate (w_options w)) i)"
| "loop_body w NexusPollLoop = NexusPollLoop_body"

lemmas pass_parts = metered_dispatch_def metered_catch_def then_pass_def after_def Let_def

lemma pass_without_metrics:
  "apfst events (fst (loop_pass l x w)) = loop_body w l (poll_inputs.truncate x)"
proof (cases l)
  case (WorkflowPollLoop s i)
  then show ?thesis
    by (simp add: WorkflowPollLoop_pass_def pass_parts loop_defs poll_inputs.truncate_def
        split: sum.split option.split wf_error.split prod.split)
next
  case (ActivityPollLoop s i)
  then show ?thesis
    by (simp add: ActivityPollLoop_pass_def pass_parts loop_defs poll_inputs.truncate_def
        split: sum.split option.split wf_error.split prod.split)
next
  case NexusPollLoop
  then show ?thesis
    by (simp add: NexusPollLoop_pass_def pass_parts loop_defs poll_inputs.truncate_def
        split: sum.split option.split wf_error.split prod.split)
qed

lemma sticky_options [simp]: "w_options (snd (EmitStickyCacheMetrics h m w)) = w_options w"
  by (simp add: EmitStickyCacheMetrics_def emit_delta_def Let_def)

lemma workflow_handled_options [simp]: "w_options (snd (workflow_handled x w)) = w_options w"
  by (simp add: workflow_handled_def)

lemma dispatch_options:
  "w_options (snd (handled w)) = w_options w
   \<Longrightarrow> w_options (snd (metered_dispatch metrics before fm handled x token w)) = w_options w"
  by (auto simp: metered_dispatch_def then_pass_def split: option.split wf_error.split prod.split)

lemma then_pass_snd [simp]: "snd (then_pass es r) = snd r"
  by (simp add: then_pass_def)

lemma pass_keeps_options: "w_options (snd (loop_pass l x w)) = w_options w"
proof (cases l)
  case (WorkflowPollLoop s i)
  then show ?thesis by (simp add: WorkflowPollLoop_pass_def Let_def dispatch_options split: sum.split)
next
  case (ActivityPollLoop s i)
  then show ?thesis by (simp add: ActivityPollLoop_pass_def Let_def dispatch_options split: sum.split)
next
  case NexusPollLoop
  then show ?thesis by (simp add: NexusPollLoop_pass_def Let_def dispatch_options split: sum.split)
qed

fun task_kind :: "poll_loop \<Rightarrow> string" where
  "task_kind (WorkflowPollLoop sticky i) = ''workflow''"
| "task_kind (ActivityPollLoop session i) = ''activity''"
| "task_kind NexusPollLoop = ''nexus''"

definition counter_of :: "poll_loop \<Rightarrow> string \<Rightarrow> string" where
  "counter_of l series = ''temporal_'' @ task_kind l @ series"

text \<open>How often a metric is emitted in a list, and the account of the part behind the gate.\<close>

abbreviation times :: "string \<Rightarrow> metric list \<Rightarrow> nat" where
  "times n ms \<equiv> length (filter (\<lambda>m. metric_name m = n) ms)"

abbreviation emissions :: "string \<Rightarrow> loop_item list \<Rightarrow> nat" where
  "emissions n is \<equiv> length (emitted n is)"

lemma sticky_times:
  "times ''temporal_workflow_task_handled'' (fst (EmitStickyCacheMetrics h m w)) = 0"
  "times ''temporal_workflow_task_failed'' (fst (EmitStickyCacheMetrics h m w)) = 0"
  by (simp_all add: EmitStickyCacheMetrics_def emit_delta_def Let_def)

lemma dispatch_accounts:
  assumes "metered_dispatch True before fm handled x token w = ((es, Continue), w')"
    and "metric_name fm = f" and "h \<noteq> f" and "times h before = 0" and "times f before = 0"
    and "times h (fst (handled w)) = 1" and "times f (fst (handled w)) = 0"
  shows "emissions h es + emissions f es = length (dispatched es) \<and> length (dispatched es) = 1"
proof -
  have permit: "pi_permit x" by (rule ccontr) (use assms(1) in \<open>simp add: metered_dispatch_def\<close>)
  show ?thesis
  proof (cases "pi_handler x")
    case None
    obtain ms v where h: "handled w = (ms, v)" by fastforce
    with assms(1) None permit
    have "es = [Ev PermitAcquired] @ map Emit before @ [Ev (Dispatched token)] @ map Emit ms @ [Ev PermitReleased]"
      by (simp add: metered_dispatch_def then_pass_def after_def)
    with assms(4-7) h show ?thesis by simp
  next
    case (Some e)
    with assms(1) permit
    have "es = [Ev PermitAcquired] @ map Emit before @ [Ev (Dispatched token), Ev PermitReleased, Emit fm, Ev LoggedError]"
      by (cases e; cases "pi_stop_caught x") (simp_all add: metered_dispatch_def then_pass_def after_def metered_catch_def)
    with assms(2-5) show ?thesis by simp
  qed
qed

lemma then_pass_Continue:
  "then_pass es r = ((is, Continue), w') \<longleftrightarrow> (\<exists>js. r = ((js, Continue), w') \<and> is = es @ js)"
  by (cases r; cases "fst r") (auto simp: then_pass_def after_def)

lemma dispatch_workflow:
  "metered_dispatch True (gate_gauges ''temporal_workflow_tasks_in_flight'' kind cap x w
       @ [Timer_metric ''temporal_workflow_task_schedule_to_start_latency'' d tags])
     (Counter ''temporal_workflow_task_failed'' 1 tags') (workflow_handled x) x token w = ((es, Continue), w')
   \<Longrightarrow> emissions ''temporal_workflow_task_handled'' es + emissions ''temporal_workflow_task_failed'' es = length (dispatched es)
     \<and> length (dispatched es) = 1"
  by (erule dispatch_accounts) (simp_all add: gate_gauges_def workflow_handled_def sticky_times)

lemma dispatch_activity:
  "metered_dispatch True (gate_gauges ''temporal_activity_tasks_in_flight'' kind cap x w
       @ [Timer_metric ''temporal_activity_task_schedule_to_start_latency'' d tags])
     (Counter ''temporal_activity_task_failed'' 1 tags')
     (\<lambda>w. ([Timer_metric ''temporal_activity_task_execution_latency'' d1 t1,
            Timer_metric ''temporal_activity_task_end_to_end_latency'' d2 (queue_tags w),
            Counter ''temporal_activity_task_handled'' 1 t3], w)) x token w = ((es, Continue), w')
   \<Longrightarrow> emissions ''temporal_activity_task_handled'' es + emissions ''temporal_activity_task_failed'' es = length (dispatched es)
     \<and> length (dispatched es) = 1"
  by (erule dispatch_accounts) (simp_all add: gate_gauges_def)

lemma dispatch_nexus:
  "metered_dispatch True [Timer_metric ''temporal_nexus_task_schedule_to_start_latency'' d tags]
     (Counter ''temporal_nexus_task_failed'' 1 tags')
     (\<lambda>w. ([Timer_metric ''temporal_nexus_task_execution_latency'' d1 t1, Counter ''temporal_nexus_task_handled'' 1 t3], w))
     x token w = ((es, Continue), w')
   \<Longrightarrow> emissions ''temporal_nexus_task_handled'' es + emissions ''temporal_nexus_task_failed'' es = length (dispatched es)
     \<and> length (dispatched es) = 1"
  by (erule dispatch_accounts) simp_all

lemma pass_accounts:
  assumes m: "wo_metrics_handler (w_options w)" and p: "loop_pass l x w = ((es, Continue), w')"
  shows "emissions (counter_of l ''_task_handled'') es + emissions (counter_of l ''_task_failed'') es
      = length (dispatched es) + (if isl (pi_poll x) then 1 else 0)
    \<and> length (dispatched es) \<le> emissions (counter_of l ''_poll_success'') es"
proof (cases l)
  case (WorkflowPollLoop s i)
  then show ?thesis using assms
    by (auto simp: WorkflowPollLoop_pass_def Let_def counter_of_def then_pass_Continue metered_catch_def
        dest!: dispatch_workflow split: sum.splits if_splits)
next
  case (ActivityPollLoop s i)
  then show ?thesis using assms
    by (auto simp: ActivityPollLoop_pass_def Let_def counter_of_def then_pass_Continue metered_catch_def
        dest!: dispatch_activity split: sum.splits if_splits)
next
  case NexusPollLoop
  then show ?thesis using assms
    by (auto simp: NexusPollLoop_pass_def Let_def counter_of_def then_pass_Continue metered_catch_def
        dest!: dispatch_nexus split: sum.splits if_splits)
qed

lemma passes_account:
  assumes "wo_metrics_handler (w_options w)" and "loop_passes l xs w = ((is, Continue), w')"
  shows "emissions (counter_of l ''_task_handled'') is + emissions (counter_of l ''_task_failed'') is
      = length (dispatched is) + length (filter (\<lambda>(s, x). isl (pi_poll x)) xs)
    \<and> length (dispatched is) \<le> emissions (counter_of l ''_poll_success'') is"
  using assms
proof (induction xs arbitrary: w "is")
  case (Cons sx xs)
  obtain stopped x where sx: "sx = (stopped, x)" by fastforce
  obtain es n w1 where p: "loop_pass l x w = ((es, n), w1)" by (metis surj_pair)
  from Cons.prems(2) sx p have n: "n = Continue" and rest: "\<exists>js. loop_passes l xs w1 = ((js, Continue), w') \<and> is = es @ js"
    by (auto simp: then_pass_Continue split: poll_next.splits if_splits)
  then obtain js where js: "loop_passes l xs w1 = ((js, Continue), w')" "is = es @ js" by blast
  have "wo_metrics_handler (w_options w1)" using pass_keeps_options [of l x w] p Cons.prems(1) by simp
  from Cons.IH [OF this js(1)] pass_accounts [OF Cons.prems(1) p [unfolded n]] show ?case by (auto simp: sx js(2))
qed simp

section \<open>The gauge of the pollers\<close>

lemma dispatch_silent:
  assumes "times n before = 0" and "metric_name fm \<noteq> n" and "times n (fst (handled w)) = 0"
  shows "emitted n (fst (fst (metered_dispatch metrics before fm handled x token w))) = []"
proof -
  obtain ms v where "handled w = (ms, v)" by fastforce
  with assms show ?thesis
    by (simp add: metered_dispatch_def metered_catch_def then_pass_def after_def metered_def split: option.split wf_error.split)
qed

lemma sticky_silent: "times ''temporal_pollers_in_flight'' (fst (EmitStickyCacheMetrics h m w)) = 0"
  by (simp add: EmitStickyCacheMetrics_def emit_delta_def Let_def)

lemma then_pass_emitted [simp]: "emitted n (fst (fst (then_pass es r))) = emitted n es @ emitted n (fst (fst r))"
  by (simp add: then_pass_def after_def)

lemma pass_no_poller_gauge: "emitted ''temporal_pollers_in_flight'' (fst (fst (loop_pass l x w))) = []"
proof (cases l)
  case (WorkflowPollLoop s i)
  then show ?thesis
    by (simp add: WorkflowPollLoop_pass_def metered_catch_def metered_def Let_def dispatch_silent gate_gauges_def
        workflow_handled_def sticky_silent split: sum.split)
next
  case (ActivityPollLoop s i)
  then show ?thesis
    by (simp add: ActivityPollLoop_pass_def metered_catch_def metered_def Let_def dispatch_silent gate_gauges_def split: sum.split)
next
  case NexusPollLoop
  then show ?thesis
    by (simp add: NexusPollLoop_pass_def metered_catch_def metered_def Let_def dispatch_silent split: sum.split)
qed

lemma passes_no_poller_gauge: "emitted ''temporal_pollers_in_flight'' (fst (fst (loop_passes l xs w))) = []"
proof (induction l xs w rule: loop_passes.induct)
  case (2 l stopped x xs w)
  obtain es n w1 where p: "loop_pass l x w = ((es, n), w1)" by (metis surj_pair)
  with 2 pass_no_poller_gauge [of l x w] show ?case by (cases n) (auto split: poll_next.split)
qed simp

text \<open>The poller's own gauge, and the account of its tasks.\<close>

lemma start_counts: "emissions (counter_of l s) (map Emit (poller_start w l)) = 0"
    if "s \<in> {''_task_handled'', ''_task_failed'', ''_poll_success''}"
  using that by (cases l) (auto simp: poller_start_def counter_of_def)

text \<open>
  C34. What the counters of a poller say. As long as its thread runs, with a metrics handler set, the
  tasks counted as handled and as failed are together the tasks it dispatched and the polls that threw:
  \<^verbatim>\<open>..._task_failed\<close> counts every failed long poll besides the failed tasks. Never more tasks are dispatched than
  counted as received. This holds of the workflow, the activity and the Nexus loop alike.
\<close>

theorem metrics_account_for_tasks:
  assumes "wo_metrics_handler (w_options w)" and "poll_thread l xs w = ((is, Continue), w')"
  shows "emissions (counter_of l ''_task_handled'') is + emissions (counter_of l ''_task_failed'') is
      = length (dispatched is) + length (filter (\<lambda>(s, x). isl (pi_poll x)) xs)
    \<and> length (dispatched is) \<le> emissions (counter_of l ''_poll_success'') is"
proof -
  obtain js where js: "loop_passes l xs w = ((js, Continue), w')" "is = map Emit (poller_start w l) @ js"
    using assms(2) by (auto simp: poll_thread_def then_pass_Continue)
  with passes_account [OF assms(1) js(1)] show ?thesis
    using start_counts [of "''_task_handled''" l w] start_counts [of "''_task_failed''" l w]
    by (simp add: js(2))
qed

definition one_poll :: "rpc_error + string \<Rightarrow> loop_inputs" where
  "one_poll answer = \<lparr>pi_slot = True, pi_poll = answer, pi_stop_polled = False, pi_draining = False, pi_stop_paced = False,
     pi_permit = True, pi_handler = None, pi_stop_caught = False, li_recv = 0, li_start = 1, li_now = 3, li_in_flight = 1,
     li_in_flight_again = 1, li_hits = 0, li_misses = 1\<rparr>"

theorem metrics_account_for_tasks_witness:
  "\<exists>is w'. poll_thread NexusPollLoop [(False, one_poll (Inl (RpcError ''down''))), (False, one_poll (Inr ''task''))]
       (new_worker ''u'' ''v'' ''ns'' ''me'' None ''q'' (plain_options\<lparr>wo_metrics_handler := True\<rparr>) :: unit WorkerImpl)
     = ((is, Continue), w')
   \<and> dispatched is = [''task''] \<and> emissions ''temporal_nexus_task_handled'' is + emissions ''temporal_nexus_task_failed'' is = 2"
proof -
  let ?w = "new_worker ''u'' ''v'' ''ns'' ''me'' None ''q'' (plain_options\<lparr>wo_metrics_handler := True\<rparr>) :: unit WorkerImpl"
  let ?xs = "[(False, one_poll (Inl (RpcError ''down''))), (False, one_poll (Inr ''task''))]"
  have m: "wo_metrics_handler (w_options ?w)" by (simp add: new_worker_def)
  obtain "is" w' where r: "poll_thread NexusPollLoop ?xs ?w = ((is, Continue), w')" "dispatched is = [''task'']"
    using m by (simp add: poll_thread_def NexusPollLoop_pass_def one_poll_def pass_parts poller_start_def)
  from metrics_account_for_tasks [OF m r(1)] r show ?thesis by (simp add: counter_of_def one_poll_def)
qed

text \<open>
  The gauge of the active pollers is a snapshot: a poller reports it once, when its thread starts, with what
  the scaler says at that moment, and no pass of the loop reports it again, whatever the pass meets. The
  documentation has it as the live count under autoscaling.
\<close>

theorem poller_gauge_only_at_start:
  "emitted ''temporal_pollers_in_flight'' (fst (fst (poll_thread l xs w)))
     = (if wo_metrics_handler (w_options w) then pollers_in_flight w l else [])"
  by (cases l) (simp_all add: poll_thread_def passes_no_poller_gauge poller_start_def)

text \<open>
  The slots a worker reports free lie between zero and one less than the cap, since the task that reports
  holds one; the reading is any state of the gate in which the reporting thread holds its permit.
\<close>

theorem slots_available_within_cap:
  assumes "gate_reach cap (g, pc)" and "pc t = Holding" and "0 < cap" and "li_in_flight_again x = int (in_flight g)"
  shows "\<exists>v. gate_gauges n kind cap x w = [Gauge n (li_in_flight x) Map.empty,
      Gauge ''temporal_worker_task_slots_available'' v ((queue_tags w)(''worker_type'' \<mapsto> kind))] \<and> 0 \<le> v \<and> v < cap"
proof -
  have "t \<in> holders pc" "finite (holders pc)" using assms(2) gate_reach_ok [OF assms(1)] by (auto simp: holders_def gate_ok_def)
  then have "0 < card (holders pc)" by (auto simp: card_gt_0_iff)
  with gate_reach_ok [OF assms(1)] assms(3,4) show ?thesis by (auto simp: gate_gauges_def gate_ok_def)
qed

end
