(* ===== verification/Worker_Serving.thy ===== *)
theory Worker_Serving
  imports Worker_Metrics
begin

text \<open>
  The workflow poll loop with the task handler it calls: each pass polls a task, passes the gate and
  hands the task to \<^verbatim>\<open>WorkflowTaskHandler::Handle\<close>, whose end decides how the pass goes on. This puts the
  loop of \<open>Worker_Metrics\<close> and the handler of \<open>Task_Handler\<close> together.
\<close>

section \<open>A pass that serves a task\<close>

text \<open>
  \<open>sv_task\<close> is the task the poll returns, where it returns one; its token is empty for a poll that timed
  out. \<open>sv_throws\<close> is the exception that leaves \<^verbatim>\<open>Handle\<close>, where one does. A handler that does not return leaves
  the pass where it called it: \<open>None\<close>.
\<close>

record served = loop_inputs +
  sv_task :: workflow_task
  sv_throws :: wf_error

definition handler_throw :: "exit \<Rightarrow> wf_error \<Rightarrow> wf_error option" where
  "handler_throw out e = (case out of Done \<Rightarrow> None | Exception \<Rightarrow> Some e | NoReturn \<Rightarrow> Some OtherThrow)"

definition pass_inputs :: "exit \<Rightarrow> served \<Rightarrow> loop_inputs" where
  "pass_inputs out x = (loop_inputs.truncate x)
     \<lparr>pi_poll := (case pi_poll x of Inl e \<Rightarrow> Inl e | Inr _ \<Rightarrow> Inr (task_token (sv_task x))),
      pi_handler := handler_throw out (sv_throws x)\<rparr>"

definition serve_pass ::
  "env \<Rightarrow> gateway \<Rightarrow> nat \<Rightarrow> int \<Rightarrow> served \<Rightarrow> 's WorkerImpl \<Rightarrow> (loop_item list \<times> poll_next option) \<times> 's WorkerImpl" where
  "serve_pass E gw n i x w =
     (let (h', out) = Handle E gw n (sv_task x) (w_workflow_handler w);
          ((es, next), w') = WorkflowPollLoop_pass i (pass_inputs out x) w
      in if dispatched es = [] then ((es, Some next), w')
         else ((es, if out = NoReturn then None else Some next), w'\<lparr>w_workflow_handler := h'\<rparr>))"

fun serve_passes ::
  "env \<Rightarrow> gateway \<Rightarrow> nat \<Rightarrow> int \<Rightarrow> served list \<Rightarrow> 's WorkerImpl \<Rightarrow> loop_item list \<times> 's WorkerImpl" where
  "serve_passes E gw n i [] w = ([], w)"
| "serve_passes E gw n i (x # xs) w =
     (case serve_pass E gw n i x w of
        ((es, Some Continue), w') \<Rightarrow> (case serve_passes E gw n i xs w' of (js, w'') \<Rightarrow> (es @ js, w''))
      | ((es, _), w') \<Rightarrow> (es, w'))"

section \<open>What a pass answers\<close>

lemma handled_options [simp]: "w_workflow_handler (snd (workflow_handled x w)) = w_workflow_handler w"
  by (simp add: workflow_handled_def EmitStickyCacheMetrics_def emit_delta_def Let_def)

lemma dispatch_outcome:
  assumes "metered_dispatch True before fm handled x token w = ((es, nx), w')"
    and "metric_name fm \<noteq> h" and "times h before = 0" and "times h (fst (handled w)) = 1"
    and "w_workflow_handler (snd (handled w)) = w_workflow_handler w"
  shows "dispatched es \<in> {[], [token]} \<and> emissions h es = (if dispatched es \<noteq> [] \<and> pi_handler x = None then 1 else 0)
    \<and> w_workflow_handler w' = w_workflow_handler w"
proof (cases "pi_permit x")
  case True
  show ?thesis
  proof (cases "pi_handler x")
    case None
    obtain ms v where "handled w = (ms, v)" by fastforce
    with assms True None show ?thesis by (auto simp: metered_dispatch_def then_pass_def after_def)
  next
    case (Some e)
    with assms True show ?thesis
      by (cases e; cases "pi_stop_caught x") (auto simp: metered_dispatch_def then_pass_def after_def metered_catch_def)
  qed
qed (use assms in \<open>auto simp: metered_dispatch_def\<close>)

lemma then_pass_eq: "then_pass es r = ((is, nx), w') \<longleftrightarrow> (\<exists>js. r = ((js, nx), w') \<and> is = es @ js)"
  by (cases r; cases "fst r") (auto simp: then_pass_def after_def)

lemma dispatch_workflow_outcome:
  "metered_dispatch True (gate_gauges ''temporal_workflow_tasks_in_flight'' kind cap x w
       @ [Timer_metric ''temporal_workflow_task_schedule_to_start_latency'' d tags])
     (Counter ''temporal_workflow_task_failed'' 1 tags') (workflow_handled x) x token w = ((es, nx), w')
   \<Longrightarrow> dispatched es \<in> {[], [token]}
     \<and> emissions ''temporal_workflow_task_handled'' es = (if dispatched es \<noteq> [] \<and> pi_handler x = None then 1 else 0)
     \<and> w_workflow_handler w' = w_workflow_handler w"
  by (erule dispatch_outcome) (simp_all add: gate_gauges_def workflow_handled_def sticky_times EmitStickyCacheMetrics_def
      emit_delta_def Let_def)

lemma workflow_pass_outcome:
  assumes "wo_metrics_handler (w_options w)" and "WorkflowPollLoop_pass i x w = ((es, nx), w')"
  shows "(dispatched es = [] \<or> (\<exists>token. pi_poll x = Inr token \<and> dispatched es = [token]))
    \<and> emissions ''temporal_workflow_task_handled'' es = (if dispatched es \<noteq> [] \<and> pi_handler x = None then 1 else 0)
    \<and> w_workflow_handler w' = w_workflow_handler w"
  using assms
  by (auto simp: WorkflowPollLoop_pass_def Let_def then_pass_eq metered_catch_def
      dest!: dispatch_workflow_outcome split: sum.splits if_splits)

lemma serve_pass_answers:
  assumes m: "wo_metrics_handler (w_options w)" and p: "serve_pass E gw n i x w = ((es, nx), w')"
  shows "\<exists>rs. responses (w_workflow_handler w') = responses (w_workflow_handler w) @ rs
    \<and> subseq (map response_token rs) (dispatched es)
    \<and> emissions ''temporal_workflow_task_handled'' es = length (filter (accepted gw) rs)
    \<and> w_options w' = w_options w"
proof -
  obtain h' out where h: "Handle E gw n (sv_task x) (w_workflow_handler w) = (h', out)" by fastforce
  obtain es1 nx1 w1 where q: "WorkflowPollLoop_pass i (pass_inputs out x) w = ((es1, nx1), w1)" by (metis surj_pair)
  have o: "w_options w1 = w_options w" using pass_keeps_options [of "WorkflowPollLoop False i" "pass_inputs out x" w] q by simp
  note out = workflow_pass_outcome [OF m q]
  show ?thesis
  proof (cases "dispatched es1 = []")
    case True
    with p h q o out show ?thesis by (auto simp: serve_pass_def Let_def intro: exI [of _ "[]"])
  next
    case False
    with out have t: "dispatched es1 = [task_token (sv_task x)]" by (auto simp: pass_inputs_def split: sum.splits)
    have e: "es = es1" and w': "w' = w1\<lparr>w_workflow_handler := h'\<rparr>"
      using p h q False by (auto simp: serve_pass_def Let_def)
    from Handle_answers [of gw "sv_task x" "w_workflow_handler w" E n] h out t show ?thesis
      by (cases out) (auto simp: e w' o answered_once_def pass_inputs_def handler_throw_def split: if_splits)
  qed
qed

lemma serve_passes_answer:
  "wo_metrics_handler (w_options w) \<Longrightarrow> serve_passes E gw n i xs w = (is, w') \<Longrightarrow>
   \<exists>rs. responses (w_workflow_handler w') = responses (w_workflow_handler w) @ rs
    \<and> subseq (map response_token rs) (dispatched is)
    \<and> emissions ''temporal_workflow_task_handled'' is = length (filter (accepted gw) rs)"
proof (induction xs arbitrary: w "is")
  case (Cons x xs)
  obtain es nx w1 where p: "serve_pass E gw n i x w = ((es, nx), w1)" by (metis surj_pair)
  from serve_pass_answers [OF Cons.prems(1) p] obtain rs where rs:
    "responses (w_workflow_handler w1) = responses (w_workflow_handler w) @ rs" "subseq (map response_token rs) (dispatched es)"
    "emissions ''temporal_workflow_task_handled'' es = length (filter (accepted gw) rs)" "w_options w1 = w_options w" by blast
  show ?case
  proof (cases "nx = Some Continue")
    case True
    obtain js w2 where q: "serve_passes E gw n i xs w1 = (js, w2)" by fastforce
    from Cons.prems(2) p True q have eq: "is = es @ js" "w' = w2" by simp_all
    have "wo_metrics_handler (w_options w1)" using rs(4) Cons.prems(1) by simp
    from Cons.IH [OF this q [folded eq(2)]] obtain qs where
      "responses (w_workflow_handler w') = responses (w_workflow_handler w1) @ qs" "subseq (map response_token qs) (dispatched js)"
      "emissions ''temporal_workflow_task_handled'' js = length (filter (accepted gw) qs)" by blast
    with rs eq(1) show ?thesis by (intro exI [of _ "rs @ qs"]) (simp add: list_emb_append_mono)
  next
    case False
    with Cons.prems(2) p have "is = es" "w' = w1" by (auto split: option.splits poll_next.splits)
    with rs show ?thesis by blast
  qed
qed simp

text \<open>
  C8. What the workflow loop does with the tasks it polls, whatever they are and however the passes end.
  The answers it sends are answers to tasks it dispatched, in the order it dispatched them, and no task
  is answered twice; and the counter of handled tasks grows by exactly the number of answers that the
  service accepted.
\<close>

theorem handled_counter_is_accepted_answers:
  assumes "wo_metrics_handler (w_options w)" and "serve_passes E gw n i xs w = (is, w')"
  shows "\<exists>rs. responses (w_workflow_handler w') = responses (w_workflow_handler w) @ rs
    \<and> subseq (map response_token rs) (dispatched is)
    \<and> emissions ''temporal_workflow_task_handled'' is = length (filter (accepted gw) rs)"
  by (rule serve_passes_answer [OF assms])

definition polled :: "workflow_task \<Rightarrow> served" where
  "polled task = \<lparr>pi_slot = True, pi_poll = Inr [], pi_stop_polled = False, pi_draining = False, pi_stop_paced = False,
     pi_permit = True, pi_handler = None, pi_stop_caught = False, li_recv = 0, li_start = 1, li_now = 3, li_in_flight = 1,
     li_in_flight_again = 1, li_hits = 0, li_misses = 0, sv_task = task, sv_throws = StdError ''lost''\<rparr>"

theorem handled_counter_is_accepted_answers_witness:
  "\<forall>E. \<exists>rs is w'. serve_passes E paging_gateway 5 0 [polled plain_task]
       (new_worker ''u'' ''v'' ''ns'' ''me'' None ''q'' (plain_options\<lparr>wo_metrics_handler := True\<rparr>) :: unit WorkerImpl) = (is, w')
     \<and> responses (w_workflow_handler w') = rs \<and> subseq (map response_token rs) (dispatched is)
     \<and> length (filter (accepted paging_gateway) rs) = 1"
proof
  fix E
  let ?w = "new_worker ''u'' ''v'' ''ns'' ''me'' None ''q'' (plain_options\<lparr>wo_metrics_handler := True\<rparr>) :: unit WorkerImpl"
  obtain "is" w' where r: "serve_passes E paging_gateway 5 0 [polled plain_task] ?w = (is, w')" by fastforce
  have m: "wo_metrics_handler (w_options ?w)" "responses (w_workflow_handler ?w) = []"
    by (simp_all add: new_worker_def new_task_handler_def)
  have "emissions ''temporal_workflow_task_handled'' is = 1"
    using r by (auto simp: serve_pass_def WorkflowPollLoop_pass_def pass_parts pass_inputs_def handler_throw_def polled_def plain_task_def
        Handle_def respond_def accepted_def paging_gateway_def new_worker_def new_task_handler_def plain_options_def is_scalable_def
        WorkerOptions.truncate_def loop_inputs.truncate_def gate_gauges_def workflow_handled_def EmitStickyCacheMetrics_def emit_delta_def)
  with handled_counter_is_accepted_answers [OF m(1) r] m(2) r
  show "\<exists>rs is w'. serve_passes E paging_gateway 5 0 [polled plain_task] ?w = (is, w')
     \<and> responses (w_workflow_handler w') = rs \<and> subseq (map response_token rs) (dispatched is)
     \<and> length (filter (accepted paging_gateway) rs) = 1" by auto
qed

end
