(* ===== verification/Runner_Types.thy ===== *)
theory Runner_Types
  imports Runner_Exec
begin

text \<open>
  The references of a runner. \<^verbatim>\<open>WorkflowRunner\<close> keeps each future in a registry under the id of its
  operation and hands a second reference to the workflow; an event that resolves an operation writes
  through the registry. This theory shows that every registry holds what it says, in every state a
  runner can get into, and what follows for the futures: no two operations share one, and a future
  that is ready stays ready.
\<close>

section \<open>Conformance\<close>

definition refs_ok :: "op \<Rightarrow> (string \<rightharpoonup> addr) \<Rightarrow> FutureState list \<Rightarrow> bool" where
  "refs_ok k m h \<longleftrightarrow> (\<forall>i a. m i = Some a \<longrightarrow> a < length h \<and> fs_op (h ! a) = k \<and> op_id (h ! a) = i)"

definition runner_typed :: "'s WorkflowRunner \<Rightarrow> bool" where
  "runner_typed r \<longleftrightarrow>
     refs_ok OpActivity (activity_futures r) (heap r) \<and> refs_ok OpTimer (timer_futures r) (heap r)
     \<and> refs_ok OpChildWorkflow (child_futures r) (heap r) \<and> refs_ok OpNexusOperation (nexus_futures r) (heap r)
     \<and> (\<forall>a \<in> set (cancel_futures r). a < length (heap r) \<and> fs_op (heap r ! a) = OpNone)"

text \<open>A later heap: nothing is freed, no future changes its operation, none becomes pending again.\<close>

definition hext :: "FutureState list \<Rightarrow> FutureState list \<Rightarrow> bool" where
  "hext h h' \<longleftrightarrow> length h \<le> length h'
     \<and> (\<forall>a < length h. fs_op (h' ! a) = fs_op (h ! a) \<and> op_id (h' ! a) = op_id (h ! a)
          \<and> (ready (h ! a) \<longrightarrow> ready (h' ! a)))"

lemma hext_refl [simp]: "hext h h"
  by (simp add: hext_def)

lemma hext_trans: "hext h h' \<Longrightarrow> hext h' h'' \<Longrightarrow> hext h h''"
  by (auto simp: hext_def)

lemma hext_append [simp]: "hext h (h @ xs)"
  by (auto simp: hext_def nth_append)

lemma hext_update:
  assumes "\<And>st. fs_op (f st) = fs_op st \<and> op_id (f st) = op_id st \<and> (ready st \<longrightarrow> ready (f st))"
  shows "hext h (h[a := f (h ! a)])"
proof -
  have "fs_op (h[a := f (h ! a)] ! b) = fs_op (h ! b) \<and> op_id (h[a := f (h ! a)] ! b) = op_id (h ! b)
    \<and> (ready (h ! b) \<longrightarrow> ready (h[a := f (h ! a)] ! b))" if "b < length h" for b
    using assms [of "h ! b"] that by (cases "b = a") simp_all
  then show ?thesis by (simp add: hext_def)
qed

lemma refs_ok_hext: "refs_ok k m h \<Longrightarrow> hext h h' \<Longrightarrow> refs_ok k m h'"
  by (fastforce simp: refs_ok_def hext_def)

lemma refs_ok_alloc:
  "refs_ok k m h \<Longrightarrow> fs_op st = k \<Longrightarrow> op_id st = i \<Longrightarrow> refs_ok k (m(i \<mapsto> length h)) (h @ [st])"
  by (auto simp: refs_ok_def nth_append less_Suc_eq)

text \<open>One operation keeps the types and extends the heap.\<close>

definition keeps_types :: "'s WorkflowRunner \<Rightarrow> 's WorkflowRunner \<Rightarrow> bool" where
  "keeps_types r r' \<longleftrightarrow> (runner_typed r \<longrightarrow> runner_typed r') \<and> hext (heap r) (heap r')"

lemma keeps_refl [simp]: "keeps_types r r"
  by (simp add: keeps_types_def)

lemma keeps_trans: "keeps_types r r' \<Longrightarrow> keeps_types r' r'' \<Longrightarrow> keeps_types r r''"
  by (auto simp: keeps_types_def intro: hext_trans)

definition references :: "'s WorkflowRunner \<Rightarrow> FutureState list \<times> (string \<rightharpoonup> addr) \<times> (string \<rightharpoonup> addr)
  \<times> (string \<rightharpoonup> addr) \<times> (string \<rightharpoonup> addr) \<times> addr list" where
  "references r = (heap r, activity_futures r, timer_futures r, child_futures r, nexus_futures r, cancel_futures r)"

lemma keeps_frame: "references r' = references r \<Longrightarrow> keeps_types r r'"
  by (simp add: keeps_types_def runner_typed_def references_def)

lemma typed_hext:
  assumes "runner_typed r" and "references r' = (h, activity_futures r, timer_futures r, child_futures r, nexus_futures r, cancel_futures r)"
    and "hext (heap r) h"
  shows "runner_typed r'"
  using assms unfolding runner_typed_def references_def hext_def
  by (auto intro: refs_ok_hext simp: hext_def)

lemma keeps_set_future:
  assumes "\<And>st. fs_op (f st) = fs_op st \<and> op_id (f st) = op_id st \<and> (ready st \<longrightarrow> ready (f st))"
  shows "keeps_types r (set_future a f r)"
  using typed_hext [of r "set_future a f r" "(heap r)[a := f (heap r ! a)]"] hext_update [of f, OF assms]
  by (simp add: keeps_types_def references_def set_future_def)

lemma references_simps [simp]:
  "references (push_produced p r) = references r" "references (push_cmd c r) = references r"
  "references (warn m f r) = references r" "references (EmitRecordMarker m d r) = references r"
  "references (r\<lparr>commands := cs\<rparr>) = references r" "references (r\<lparr>produced_commands := ps\<rparr>) = references r"
  "references (r\<lparr>scan := s\<rparr>) = references r" "references (r\<lparr>locals := l\<rparr>) = references r"
  "references (r\<lparr>coroutine := co\<rparr>) = references r" "references (r\<lparr>deadlocked := b\<rparr>) = references r"
  "references (r\<lparr>outbound_active := b\<rparr>) = references r"
  by (simp_all add: references_def effect_defs)

section \<open>Every call\<close>

lemma keeps_ScheduleActivity: "keeps_types r (snd (ScheduleActivity E t i opts r))"
  by (cases "activity_known (scan r) (nat_to_string (activity_seq r))")
    (auto simp: ScheduleActivity_recorded ScheduleActivity_sent keeps_types_def runner_typed_def resolved_activity_def
      new_future_def nth_append intro!: refs_ok_alloc intro: refs_ok_hext)

lemma keeps_StartTimer: "keeps_types r (snd (StartTimer d r))"
  by (cases "timer_known (scan r) (timer_id r)")
    (auto simp: StartTimer_recorded StartTimer_sent keeps_types_def runner_typed_def
      new_future_def nth_append intro!: refs_ok_alloc intro: refs_ok_hext)

lemma keeps_StartChildWorkflow: "keeps_types r (snd (StartChildWorkflow t i opts r))"
  by (cases "child_known (scan r) (child_id opts r)")
    (auto simp: StartChildWorkflow_recorded StartChildWorkflow_sent keeps_types_def runner_typed_def resolved_child_def
      new_future_def nth_append intro!: refs_ok_alloc intro: refs_ok_hext)

lemma keeps_ScheduleNexusOperation: "keeps_types r (snd (ScheduleNexusOperation ep sv opn p d r))"
  by (cases "nexus_known (scan r) (nat_to_string (nexus_seq r))")
    (auto simp: ScheduleNexusOperation_recorded ScheduleNexusOperation_sent keeps_types_def runner_typed_def
      resolved_nexus_def new_future_def nth_append intro!: refs_ok_alloc intro: refs_ok_hext)

lemma keeps_AwaitCancellation: "keeps_types r (snd (AwaitCancellation r))"
  by (auto simp: AwaitCancellation_def alloc_def keeps_types_def runner_typed_def new_future_def nth_append
      intro: refs_ok_hext)

lemma references_external [simp]:
  "references (request_cancel_external wid b r) = references r"
  "references (cancel_activity a r) = references r"
  "references (CancelExternalWorkflow wid r) = references r"
  "references (SignalExternalWorkflow_op wid name inp r) = references r"
  "references (UpsertSearchAttributes_op as r) = references r"
  by (auto simp: request_cancel_external_def cancel_activity_def CancelExternalWorkflow_def SignalExternalWorkflow_op_def
      UpsertSearchAttributes_op_def effect_defs references_def Let_def split: option.split)

lemma keeps_Cancel: "keeps_types r (Cancel st r)"
proof -
  have "keeps_types r (cancel_timer a r)" for a
  proof -
    have "keeps_types r (set_future a (\<lambda>st. st\<lparr>ready := True, cancelled := True\<rparr>) r')" if "references r' = references r" for r'
      using keeps_trans [OF keeps_frame [OF that] keeps_set_future] by simp
    then show ?thesis by (simp add: cancel_timer_def EmitCancelTimer_def Let_def)
  qed
  then show ?thesis
    by (auto simp: Cancel_def keeps_frame split: option.split op.split)
qed

lemma references_markers [simp]:
  "references (snd (SideEffect E fn r)) = references r"
  "references (snd (GetVersion E cid lo hi r)) = references r"
  "references (snd (MutableSideEffect E i fn eq r)) = references r"
  "references (snd (ExecuteLocalActivity E t inp opts r)) = references r"
  "references (snd (TryConsumeSignal name r)) = references r"
  "references (RegisterHandler kind name h r) = references r"
  by (auto simp: SideEffect_def ReplaySideEffect_def RecordSideEffect_def GetVersion_def MutableSideEffect_def
      BeginMutableSideEffect_def RecordMutableSideEffect_def ExecuteLocalActivity_def run_local_activity_def
      TryConsumeSignal_def effect_defs references_def Let_def
      split: option.split sum.split prod.split) (cases kind; simp)+

lemma keeps_perform: "perform E c r = (rep, r') \<Longrightarrow> keeps_types r r'"
  by (cases c) (auto simp: map_prod_id_eq keeps_Cancel keeps_frame split: if_splits; metis snd_conv
      keeps_ScheduleActivity keeps_StartTimer keeps_StartChildWorkflow keeps_ScheduleNexusOperation
      keeps_AwaitCancellation keeps_frame references_markers)+

interpretation typing: call_relation keeps_types
  by unfold_locales (auto intro: keeps_trans keeps_perform keeps_frame)

lemmas keeps_exec = typing.rel_exec
lemmas keeps_run_handler = typing.rel_run_handler

section \<open>Every event\<close>

lemma keeps_resolve_at: "keeps_types r (resolve_at a fl res ty msg r)"
  by (simp add: resolve_at_def keeps_set_future)

lemma keeps_fold_ready:
  "keeps_types r (fold (\<lambda>a. set_future a (\<lambda>st. st\<lparr>ready := True\<rparr>)) as r)"
proof (induction as arbitrary: r)
  case (Cons a as)
  show ?case using keeps_trans [OF keeps_set_future Cons] by simp
qed simp

lemma keeps_apply_switch: "keeps_types r (apply_switch eid a r)"
proof (cases a)
  case (ActivityEv e)
  then show ?thesis by (cases e) (auto simp: ResolveActivity_def keeps_resolve_at keeps_frame split: option.split)
next
  case (TimerEv e)
  then show ?thesis by (cases e) (auto split: option.split intro!: keeps_set_future)
next
  case (ChildEv e)
  then show ?thesis by (cases e) (auto simp: at_child_future_def split: option.split intro!: keeps_set_future)
next
  case (NexusEv e)
  then show ?thesis by (cases e) (auto simp: ResolveNexusOperation_def keeps_resolve_at keeps_frame split: option.split)
next
  case WorkflowExecutionCancelRequested
  have "keeps_types r (r\<lparr>scan := (scan r)\<lparr>cancel_requested := True\<rparr>\<rparr>)" by (rule keeps_frame) simp
  then show ?thesis by (auto simp: WorkflowExecutionCancelRequested intro: keeps_trans keeps_fold_ready)
qed (auto intro: keeps_frame)

lemma keeps_ApplyEvents: "keeps_types r (ApplyEvents h r)"
proof (induction h arbitrary: r)
  case (Cons ev h)
  have "keeps_types r (applied ev r)"
    unfolding applied_def Let_def ApplyEventToState_def
    by (rule keeps_trans [OF keeps_apply_switch keeps_frame]) simp
  with Cons show ?case by (auto simp: applied_def Let_def intro: keeps_trans)
qed simp

section \<open>Every way to drive a runner\<close>

lemma keeps_RunBody_end: "keeps_types r (RunBody_end E out r)"
  by (cases out) (auto simp: references_def push_produced_def intro!: keeps_frame)

lemma keeps_ResumeCoroutine:
  assumes "ResumeCoroutine E n r = Ok r'"
  shows "keeps_types r r'"
proof (cases "coroutine r")
  case (Parked b)
  obtain st r1 where x: "exec E n b r = (st, r1)" by fastforce
  have co: "keeps_types r (r1\<lparr>coroutine := co\<rparr>)" and dl: "keeps_types r (r1\<lparr>deadlocked := d, coroutine := co\<rparr>)" for co d
    using keeps_trans [OF keeps_exec [OF x] keeps_frame] by simp_all
  show ?thesis
    using assms Parked x co dl keeps_trans [OF co keeps_RunBody_end]
    by (auto simp: ResumeCoroutine_def split: stop.splits if_splits)
qed (use assms in \<open>auto simp: ResumeCoroutine_def split: if_splits intro: keeps_frame\<close>)

lemma keeps_reapply: "reapply E n steps r = Ok r' \<Longrightarrow> keeps_types r r'"
proof (induction steps arbitrary: r)
  case (Cons step steps)
  show ?case
  proof (cases "\<not> has_coroutine r \<or> IsDone r \<or> deadlocked r")
    case False
    with Cons.prems obtain r1 r2 where r1: "reapply_step E n step r = Ok r1" and r2: "ResumeCoroutine E n r1 = Ok r2"
      and rest: "reapply E n steps r2 = Ok r'" by (auto simp: bind_flow_Ok)
    have "keeps_types r r1"
    proof (cases step)
      case (ReplayUpdate name args)
      with r1 show ?thesis
        by (auto simp: reapply_step_def bind_flow_Ok dest: keeps_run_handler elim!: swallow.elims split: option.splits)
    next
      case (ReplayEvent ev)
      with r1 show ?thesis by (auto simp: reapply_step_def ApplyEventToState_def keeps_apply_switch)
    qed
    with keeps_ResumeCoroutine [OF r2] Cons.IH [OF rest] show ?thesis by (blast intro: keeps_trans)
  qed (use Cons.prems in auto)
qed simp

lemma keeps_start_coroutine: "keeps_types r (start_coroutine r)"
  by (auto simp: start_coroutine_def intro: keeps_frame)

lemma keeps_Run: "Run E n r = Ok r' \<Longrightarrow> keeps_types r r'"
proof -
  assume "Run E n r = Ok r'"
  then obtain r1 where "ResumeCoroutine E n (start_coroutine (r\<lparr>commands := [], produced_commands := []\<rparr>)) = Ok r1"
    and "reapply E n (post_update_timeline (scan r1)) r1 = Ok r'"
    by (auto simp: Run_def ReapplyHistoricalUpdates_def bind_flow_Ok)
  from keeps_ResumeCoroutine [OF this(1)] keeps_reapply [OF this(2)]
    keeps_frame [of "r\<lparr>commands := [], produced_commands := []\<rparr>" r]
  show ?thesis by (simp add: keeps_trans [OF _ keeps_trans [OF keeps_start_coroutine keeps_trans]])
qed

text \<open>What the task handler does to a runner it holds.\<close>

datatype runner_op =
    OpRun
  | OpApplyAndResume "HistoryEvent list"
  | OpRunQuery string Payloads
  | OpValidateUpdate string Payloads
  | OpRunUpdate string Payloads

fun drive :: "env \<Rightarrow> nat \<Rightarrow> runner_op \<Rightarrow> 's WorkflowRunner \<Rightarrow> 's WorkflowRunner flow" where
  "drive E n OpRun r = Run E n r"
| "drive E n (OpApplyAndResume h) r = ApplyAndResume E n h r"
| "drive E n (OpRunQuery name args) r = bind_flow (RunQuery E n name args r) (\<lambda>(x, r'). Ok r')"
| "drive E n (OpValidateUpdate name args) r = bind_flow (ValidateUpdate E n name args r) (\<lambda>(x, r'). Ok r')"
| "drive E n (OpRunUpdate name args) r = bind_flow (RunUpdate E n name args r) (\<lambda>(x, r'). Ok r')"

fun drive_all :: "env \<Rightarrow> nat \<Rightarrow> runner_op list \<Rightarrow> 's WorkflowRunner \<Rightarrow> 's WorkflowRunner flow" where
  "drive_all E n [] r = Ok r"
| "drive_all E n (x # xs) r = bind_flow (drive E n x r) (drive_all E n xs)"

lemma keeps_ApplyAndResume: "ApplyAndResume E n h r = Ok r' \<Longrightarrow> keeps_types r r'"
proof -
  let ?r = "r\<lparr>commands := [], produced_commands := []\<rparr>"
  assume "ApplyAndResume E n h r = Ok r'"
  then have "r' = ApplyEvents h ?r \<or> ResumeCoroutine E n (ApplyEvents h ?r) = Ok r'"
    by (auto simp: ApplyAndResume_def Let_def split: if_splits)
  moreover have "keeps_types r (ApplyEvents h ?r)"
    using keeps_trans [OF keeps_frame keeps_ApplyEvents, of ?r r h] by simp
  ultimately show ?thesis by (auto intro: keeps_trans dest: keeps_ResumeCoroutine)
qed

lemma keeps_drive: "drive E n x r = Ok r' \<Longrightarrow> keeps_types r r'"
  by (cases x) (auto simp: bind_flow_Ok RunQuery_def RunUpdate_def ValidateUpdate_def
      dest: keeps_Run keeps_ApplyAndResume keeps_run_handler split: option.splits sum.splits)

lemma keeps_drive_all: "drive_all E n xs r = Ok r' \<Longrightarrow> keeps_types r r'"
  by (induction xs arbitrary: r) (auto simp: bind_flow_Ok intro: keeps_trans dest: keeps_drive)

lemma new_runner_typed: "runner_typed (new_runner E wi rep ps fn inp s0)"
  by (simp add: runner_typed_def new_runner_def refs_ok_def)

section \<open>What the types give\<close>

text \<open>A completed activity: its own future is resolved, and no other is touched.\<close>

lemma typed_registries_disjoint:
  assumes "runner_typed r" and "activity_futures r i = Some a"
  shows "timer_futures r j \<noteq> Some a \<and> child_futures r j \<noteq> Some a \<and> nexus_futures r j \<noteq> Some a
    \<and> a \<notin> set (cancel_futures r) \<and> (activity_futures r j = Some a \<longrightarrow> j = i)"
proof -
  have "fs_op (heap r ! a) = OpActivity" "op_id (heap r ! a) = i"
    using assms by (auto simp: runner_typed_def refs_ok_def)
  moreover have "timer_futures r j = Some a \<Longrightarrow> fs_op (heap r ! a) = OpTimer"
    "child_futures r j = Some a \<Longrightarrow> fs_op (heap r ! a) = OpChildWorkflow"
    "nexus_futures r j = Some a \<Longrightarrow> fs_op (heap r ! a) = OpNexusOperation"
    "a \<in> set (cancel_futures r) \<Longrightarrow> fs_op (heap r ! a) = OpNone"
    "activity_futures r j = Some a \<Longrightarrow> op_id (heap r ! a) = j"
    using assms(1) by (auto simp: runner_typed_def refs_ok_def)
  ultimately show ?thesis by auto
qed

text \<open>
  C4. The references of a runner are typed. However a runner is driven, through first runs and
  replays, event batches, queries, validators and updates, from any history and with any workflow
  function: every entry of its four registries points to a future of that kind with that id, so no two
  operations share a future; every cancellation future is one; futures are never freed and never
  change their operation; and a future that was ready stays ready.
\<close>

theorem runner_references_typed:
  assumes "drive_all E n xs (new_runner E wi rep (ScanHistory h) fn inp s0) = Ok r"
    and "drive_all E m ys r = Ok r'"
  shows "runner_typed r \<and> runner_typed r' \<and> hext (heap r) (heap r')"
  using keeps_drive_all [OF assms(1)] keeps_drive_all [OF assms(2)] new_runner_typed [of E wi rep "ScanHistory h" fn inp s0]
  by (auto simp: keeps_types_def)

theorem runner_references_typed_witness:
  "\<forall>E wi. \<exists>r. drive_all E 5 [OpRun] (new_runner E wi False (ScanHistory []) (\<lambda>p. Invoke (DoStartTimer 7) (\<lambda>v. Invoke (DoBlock 0)
        (\<lambda>v. Finish (Returned [])))) [] ()) = Ok r \<and> runner_typed r \<and> timer_futures r ''t0'' = Some 0"
proof (intro allI)
  fix E wi
  let ?fn = "\<lambda>p. Invoke (DoStartTimer 7) (\<lambda>v. Invoke (DoBlock 0) (\<lambda>v. Finish (Returned []))) :: unit body"
  let ?r = "new_runner E wi False (ScanHistory []) ?fn [] ()"
  have "\<exists>r. drive_all E 5 [OpRun] ?r = Ok r \<and> timer_futures r ''t0'' = Some 0"
    by (simp add: Run_def ResumeCoroutine_def start_coroutine_def has_coroutine_def new_runner_def
        ScanHistory_def empty_prescan_def StartTimer_def ReapplyHistoricalUpdates_def effect_defs new_future_def
        digit_char_def eval_nat_numeral Let_def)
  then obtain r where r: "drive_all E 5 [OpRun] ?r = Ok r" "timer_futures r ''t0'' = Some 0" by blast
  with runner_references_typed [OF r(1), of 0 "[]" r]
  show "\<exists>r. drive_all E 5 [OpRun] ?r = Ok r \<and> runner_typed r \<and> timer_futures r ''t0'' = Some 0" by auto
qed

section \<open>A throw nobody catches\<close>

text \<open>An event changes futures and the scan, never the coroutine, the status or the commands.\<close>

definition control :: "'s WorkflowRunner \<Rightarrow> 's coroutine \<times> Status \<times> Command list" where
  "control r = (coroutine r, status r, commands r)"

lemma control_simps [simp]:
  "control (set_future a f r) = control r" "control (r\<lparr>scan := sc\<rparr>) = control r"
  "control (fold (\<lambda>a. set_future a f) as r) = control r"
proof -
  show sf: "control (set_future a f r) = control r" for a and r :: "'s WorkflowRunner"
    by (simp add: control_def set_future_def)
  show "control (fold (\<lambda>a. set_future a f) as r) = control r"
    by (induction as arbitrary: r) (simp_all add: sf)
qed (simp add: control_def)

lemma control_apply_switch [simp]: "control (apply_switch eid a r) = control r"
proof (cases a)
  case (ActivityEv e)
  then show ?thesis by (cases e) (auto simp: ResolveActivity_def resolve_at_def split: option.split)
next
  case (TimerEv e)
  then show ?thesis by (cases e) (auto split: option.split)
next
  case (ChildEv e)
  then show ?thesis by (cases e) (auto simp: at_child_future_def split: option.split)
next
  case (NexusEv e)
  then show ?thesis by (cases e) (auto simp: ResolveNexusOperation_def resolve_at_def split: option.split)
qed simp_all

lemma control_ApplyEvents: "control (ApplyEvents h r) = control r"
  by (induction h arbitrary: r) (simp_all add: ApplyEventToState_def Let_def)

lemma done_stays_done:
  assumes "coroutine r = CoDone"
  shows "ApplyAndResume E n h r = Ok (ApplyEvents h (r\<lparr>commands := [], produced_commands := []\<rparr>))"
    and "control (ApplyEvents h (r\<lparr>commands := [], produced_commands := []\<rparr>)) = (CoDone, status r, [])"
proof -
  show c: "control (ApplyEvents h (r\<lparr>commands := [], produced_commands := []\<rparr>)) = (CoDone, status r, [])"
    by (simp add: control_ApplyEvents) (simp add: control_def assms)
  then show "ApplyAndResume E n h r = Ok (ApplyEvents h (r\<lparr>commands := [], produced_commands := []\<rparr>))"
    by (simp add: ApplyAndResume_def ResumeCoroutine_def control_def Let_def)
qed

text \<open>
  C24. A workflow function that throws something other than a \<^verbatim>\<open>std::exception\<close> strands its run. The runner's
  catch clauses do not see the throw, the coroutine keeps it and nobody asks for it: the body is done,
  the status is still that of a blocked workflow, no terminal command is sent, and whatever events
  arrive later the runner stays as it is and sends nothing, so the run never closes.
\<close>

theorem foreign_throw_strands_run:
  assumes "exec E n (fn inp) (start_coroutine (new_runner E wi rep (ScanHistory h) fn inp s0)) = (Stopped (Threw OtherThrow), r1)"
  shows "\<exists>r. Run E n (new_runner E wi rep (ScanHistory h) fn inp s0) = Ok r \<and> IsDone r \<and> terminal_commands r = []
    \<and> (\<forall>m h'. \<exists>r'. ApplyAndResume E m h' r = Ok r' \<and> IsDone r' \<and> commands r' @ terminal_commands r' = [])"
proof -
  let ?r = "r1\<lparr>coroutine := CoDone\<rparr>"
  let ?n = "new_runner E wi rep (ScanHistory h) fn inp s0"
  have st: "status r1 = Blocked" using exec_control_fields(5) [OF assms] by (simp add: start_coroutine_def new_runner_def)
  have n: "?n\<lparr>commands := [], produced_commands := []\<rparr> = ?n" by (simp add: new_runner_def)
  have co: "coroutine (start_coroutine ?n) = Parked (fn inp)"
    by (simp add: start_coroutine_def has_coroutine_def new_runner_def)
  have "ReapplyHistoricalUpdates E n ?r = Ok ?r"
    by (cases "post_update_timeline (scan ?r)") (simp_all add: ReapplyHistoricalUpdates_def IsDone_def)
  then have "Run E n ?n = Ok ?r" unfolding Run_def n by (simp add: ResumeCoroutine_def co assms)
  moreover have "\<exists>r'. ApplyAndResume E m h' ?r = Ok r' \<and> IsDone r' \<and> commands r' @ terminal_commands r' = []" for m h'
    using done_stays_done(1) [of ?r E m h'] done_stays_done(2) [of ?r h'] st by (simp add: control_def IsDone_def terminal_commands_def)
  ultimately show ?thesis using st by (intro exI [of _ ?r]) (simp add: IsDone_def terminal_commands_def)
qed

theorem foreign_throw_strands_run_witness:
  "\<forall>E wi. \<exists>r. Run E 1 (new_runner E wi False (ScanHistory []) (\<lambda>p. Finish (Threw OtherThrow)) [] ()) = Ok r
     \<and> IsDone r \<and> terminal_commands r = []"
proof (intro allI)
  fix E wi
  let ?n = "new_runner E wi False (ScanHistory []) (\<lambda>p. Finish (Threw OtherThrow)) [] () :: unit WorkflowRunner"
  have "exec E 1 ((\<lambda>p. Finish (Threw OtherThrow)) []) (start_coroutine ?n) = (Stopped (Threw OtherThrow), start_coroutine ?n)"
    by simp
  from foreign_throw_strands_run [OF this]
  show "\<exists>r. Run E 1 ?n = Ok r \<and> IsDone r \<and> terminal_commands r = []" by blast
qed

end
