(* ===== verification/Client.thy ===== *)
theory Client
  imports Activity_Handler
begin

text \<open>
  The client (\<^verbatim>\<open>src/client/client.cpp\<close>): workflow handles, starting workflows through the client
  interceptors, listing, schedules, versioning rules, search attributes, batches, clusters, Nexus
  endpoints, deployments and completing activities from outside. Every method takes the stub's method as
  an argument: a function of the request and of the service's state that answers a status and
  moves that state on. Random UUIDs are arguments. A string a request leaves unset is the empty
  string, as on the wire.
\<close>

section \<open>Calls\<close>

datatype client_error =
    ClientRpc rpc_error
  | WorkflowFailedError string string
  | InvalidArgument string
  | ForeignThrow

type_synonym ('w, 'a) io = "'w \<Rightarrow> (client_error + 'a) \<times> 'w"
type_synonym ('q, 'r, 'w) stub = "'q \<Rightarrow> 'w \<Rightarrow> 'r rpc \<times> 'w"

definition rpc_call :: "string \<Rightarrow> bool \<Rightarrow> 'r \<Rightarrow> ('q, 'r, 'w) stub \<Rightarrow> 'q \<Rightarrow> ('w, 'r) io" where
  "rpc_call name poll unset stub req w =
     (case stub req w of
        (st, w') \<Rightarrow> (case UnaryCall name poll unset st of Inl e \<Rightarrow> (Inl (ClientRpc e), w') | Inr r \<Rightarrow> (Inr r, w')))"

definition io_map :: "('a \<Rightarrow> 'b) \<Rightarrow> ('w, 'a) io \<Rightarrow> ('w, 'b) io" where
  "io_map f m w = (case m w of (Inl e, w') \<Rightarrow> (Inl e, w') | (Inr x, w') \<Rightarrow> (Inr (f x), w'))"

definition io_bind :: "('w, 'a) io \<Rightarrow> ('a \<Rightarrow> ('w, 'b) io) \<Rightarrow> ('w, 'b) io" where
  "io_bind m f w = (case m w of (Inl e, w') \<Rightarrow> (Inl e, w') | (Inr x, w') \<Rightarrow> f x w')"

text \<open>
  \<^verbatim>\<open>Paginate\<close>, with a bound on the pages: \<open>None\<close> is a server that keeps answering page tokens. A page
  is its items and the next token.
\<close>

primrec Paginate :: "nat \<Rightarrow> (string \<Rightarrow> ('w, 'a list \<times> string) io) \<Rightarrow> string \<Rightarrow> 'a list \<Rightarrow> 'w \<Rightarrow> ((client_error + 'a list) \<times> 'w) option" where
  "Paginate 0 fetch token out w = None"
| "Paginate (Suc n) fetch token out w =
     (case fetch token w of
        (Inl e, w') \<Rightarrow> Some (Inl e, w')
      | (Inr (items, token'), w') \<Rightarrow>
          (if token' = [] then Some (Inr (out @ items), w') else Paginate n fetch token' (out @ items) w'))"

record Client =
  c_ns :: string
  c_identity :: string

record ClientOptions =
  co_target :: string
  co_ns :: string
  co_identity :: string

text \<open>\<^verbatim>\<open>Connect\<close>: the defaults of the names it is given; the channel it opens is not modelled.\<close>

definition Connect :: "string \<Rightarrow> ClientOptions \<Rightarrow> Client \<times> string" where
  "Connect default_identity opts =
     (\<lparr>c_ns = (if co_ns opts = [] then ''default'' else co_ns opts),
       c_identity = (if co_identity opts = [] then default_identity else co_identity opts)\<rparr>,
      if co_target opts = [] then ''localhost:7233'' else co_target opts)"

section \<open>Workflow handles\<close>

record WorkflowHandle =
  wh_ns :: string
  wh_workflow_id :: string
  wh_run_id :: string

definition GetHandle :: "string \<Rightarrow> string \<Rightarrow> string \<Rightarrow> WorkflowHandle" where
  "GetHandle ns workflow_id run_id = \<lparr>wh_ns = ns, wh_workflow_id = workflow_id, wh_run_id = run_id\<rparr>"

record history_request =
  hr_ns :: string
  hr_workflow_id :: string
  hr_run_id :: string
  hr_token :: string
  hr_wait_new_event :: bool
  hr_close_event_only :: bool

definition history_request_of :: "WorkflowHandle \<Rightarrow> string \<Rightarrow> bool \<Rightarrow> history_request" where
  "history_request_of h token close =
     \<lparr>hr_ns = wh_ns h, hr_workflow_id = wh_workflow_id h, hr_run_id = wh_run_id h, hr_token = token,
      hr_wait_new_event = close, hr_close_event_only = close\<rparr>"

text \<open>\<^verbatim>\<open>FetchHistoryJson\<close> up to the conversion of the collected events to JSON.\<close>

definition FetchHistory ::
  "nat \<Rightarrow> (history_request, 'ev list \<times> string, 'w) stub \<Rightarrow> WorkflowHandle \<Rightarrow> 'w \<Rightarrow> ((client_error + 'ev list) \<times> 'w) option" where
  "FetchHistory n stub h =
     Paginate n (\<lambda>token. rpc_call ''GetWorkflowExecutionHistory'' True ([], []) stub (history_request_of h token False)) [] []"

text \<open>The close event of a run, as a result sees it: other kinds are known by their name.\<close>

datatype close_event =
    CloseCompleted "proto_payload list"
  | CloseFailed Failure
  | CloseContinuedAsNew string
  | CloseOther string

text \<open>How a close failure becomes an error; \<open>fc\<close> is the failure converter, if one is set.\<close>

definition close_failure :: "(Failure \<Rightarrow> wf_error) option \<Rightarrow> Failure \<Rightarrow> client_error" where
  "close_failure fc f =
     (let raw = (f_message f, app_type f)
      in case fc of
           None \<Rightarrow> WorkflowFailedError (''workflow failed: '' @ fst raw) (snd raw)
         | Some to_error \<Rightarrow>
             (case to_error f of
                ApplicationError m t nr \<Rightarrow> WorkflowFailedError (''workflow failed: '' @ m) t
              | StdError m \<Rightarrow> WorkflowFailedError (''workflow failed: '' @ m) (snd raw)
              | OtherThrow \<Rightarrow> ForeignThrow))"

text \<open>
  \<^verbatim>\<open>ResultPayloads\<close>: it polls until a close event comes, and follows continue-as-new by changing the
  handle's run. Its loop over the events of an answer leaves at the first one. \<open>None\<close>: still polling
  after the given number of answers.
\<close>

primrec ResultPayloads ::
  "nat \<Rightarrow> (history_request, close_event list, 'w) stub \<Rightarrow> (Failure \<Rightarrow> wf_error) option \<Rightarrow> WorkflowHandle \<Rightarrow> 'w
   \<Rightarrow> ((client_error + Payloads) \<times> WorkflowHandle \<times> 'w) option" where
  "ResultPayloads 0 stub fc h w = None"
| "ResultPayloads (Suc n) stub fc h w =
     (case rpc_call ''GetWorkflowExecutionHistory'' True [] stub (history_request_of h [] True) w of
        (Inl e, w') \<Rightarrow> Some (Inl e, h, w')
      | (Inr [], w') \<Rightarrow> ResultPayloads n stub fc h w'
      | (Inr (ev # evs), w') \<Rightarrow>
          (case ev of
             CloseCompleted p \<Rightarrow> Some (Inr (FromProtoPayloads p), h, w')
           | CloseFailed f \<Rightarrow> Some (Inl (close_failure fc f), h, w')
           | CloseContinuedAsNew r \<Rightarrow> ResultPayloads n stub fc (h\<lparr>wh_run_id := r\<rparr>) w'
           | CloseOther name \<Rightarrow>
               Some (Inl (WorkflowFailedError (''workflow did not complete successfully: '' @ name) []), h, w')))"

record signal_request =
  sg_ns :: string
  sg_workflow_id :: string
  sg_run_id :: string
  sg_name :: string
  sg_input :: "proto_payload list option"
  sg_identity :: string
  sg_request_id :: string

definition Signal :: "string \<Rightarrow> string \<Rightarrow> (signal_request, unit, 'w) stub \<Rightarrow> WorkflowHandle \<Rightarrow> string \<Rightarrow> Payloads \<Rightarrow> ('w, unit) io" where
  "Signal identity uuid stub h name args =
     rpc_call ''SignalWorkflowExecution'' False () stub
       \<lparr>sg_ns = wh_ns h, sg_workflow_id = wh_workflow_id h, sg_run_id = wh_run_id h, sg_name = name,
        sg_input = payloads_or_unset args, sg_identity = identity, sg_request_id = uuid\<rparr>"

record stop_request =
  sp_ns :: string
  sp_workflow_id :: string
  sp_run_id :: string
  sp_reason :: string
  sp_identity :: string
  sp_request_id :: string

definition Cancel_handle :: "string \<Rightarrow> string \<Rightarrow> (stop_request, unit, 'w) stub \<Rightarrow> WorkflowHandle \<Rightarrow> ('w, unit) io" where
  "Cancel_handle identity uuid stub h =
     rpc_call ''RequestCancelWorkflowExecution'' False () stub
       \<lparr>sp_ns = wh_ns h, sp_workflow_id = wh_workflow_id h, sp_run_id = wh_run_id h, sp_reason = [],
        sp_identity = identity, sp_request_id = uuid\<rparr>"

definition Terminate_handle :: "string \<Rightarrow> (stop_request, unit, 'w) stub \<Rightarrow> WorkflowHandle \<Rightarrow> string \<Rightarrow> ('w, unit) io" where
  "Terminate_handle identity stub h reason =
     rpc_call ''TerminateWorkflowExecution'' False () stub
       \<lparr>sp_ns = wh_ns h, sp_workflow_id = wh_workflow_id h, sp_run_id = wh_run_id h, sp_reason = reason,
        sp_identity = identity, sp_request_id = []\<rparr>"

record query_request =
  qr_ns :: string
  qr_workflow_id :: string
  qr_run_id :: string
  qr_type :: string
  qr_args :: "proto_payload list option"

definition QueryPayloads :: "(query_request, proto_payload list, 'w) stub \<Rightarrow> WorkflowHandle \<Rightarrow> string \<Rightarrow> Payloads \<Rightarrow> ('w, Payloads) io" where
  "QueryPayloads stub h query_type args =
     io_map FromProtoPayloads (rpc_call ''QueryWorkflow'' False [] stub
       \<lparr>qr_ns = wh_ns h, qr_workflow_id = wh_workflow_id h, qr_run_id = wh_run_id h, qr_type = query_type,
        qr_args = payloads_or_unset args\<rparr>)"

record update_request =
  ur_ns :: string
  ur_workflow_id :: string
  ur_run_id :: string
  ur_update_id :: string
  ur_name :: string
  ur_args :: "proto_payload list option"

text \<open>The outcome of an update is a failure or payloads; an outcome with neither reads as no payloads.\<close>

definition UpdatePayloads ::
  "string \<Rightarrow> (update_request, Failure + proto_payload list, 'w) stub \<Rightarrow> WorkflowHandle \<Rightarrow> string \<Rightarrow> Payloads \<Rightarrow> ('w, Payloads) io" where
  "UpdatePayloads uuid stub h update_name args =
     io_bind (rpc_call ''UpdateWorkflowExecution'' False (Inr []) stub
       \<lparr>ur_ns = wh_ns h, ur_workflow_id = wh_workflow_id h, ur_run_id = wh_run_id h, ur_update_id = uuid,
        ur_name = update_name, ur_args = payloads_or_unset args\<rparr>)
       (\<lambda>outcome w. (case outcome of
            Inl f \<Rightarrow> Inl (WorkflowFailedError (''update failed: '' @ f_message f) [])
          | Inr p \<Rightarrow> Inr (FromProtoPayloads p), w))"

section \<open>Descriptions\<close>

text \<open>\<open>status_name\<close> is the name of the proto enum value.\<close>

definition strip_prefix :: "string \<Rightarrow> string \<Rightarrow> string" where
  "strip_prefix pre name = (if take (length pre) name = pre then drop (length pre) name else name)"

definition StatusName :: "string \<Rightarrow> string" where
  "StatusName status_name = strip_prefix ''WORKFLOW_EXECUTION_STATUS_'' status_name"

record execution_info =
  ei_workflow_id :: string
  ei_run_id :: string
  ei_type :: string
  ei_status :: string
  ei_memo :: "string \<rightharpoonup> proto_payload"

record WorkflowDescription =
  wd_workflow_id :: string
  wd_run_id :: string
  wd_workflow_type :: string
  wd_status :: string
  wd_memo :: "string \<rightharpoonup> Payload"

definition DescriptionFromInfo :: "execution_info \<Rightarrow> WorkflowDescription" where
  "DescriptionFromInfo ei =
     \<lparr>wd_workflow_id = ei_workflow_id ei, wd_run_id = ei_run_id ei, wd_workflow_type = ei_type ei,
      wd_status = StatusName (ei_status ei), wd_memo = map_option FromProtoPayload \<circ> ei_memo ei\<rparr>"

definition Describe_handle ::
  "execution_info \<Rightarrow> (string \<times> string \<times> string, execution_info, 'w) stub \<Rightarrow> WorkflowHandle \<Rightarrow> ('w, WorkflowDescription) io" where
  "Describe_handle unset stub h =
     io_map DescriptionFromInfo (rpc_call ''DescribeWorkflowExecution'' False unset stub
       (wh_ns h, wh_workflow_id h, wh_run_id h))"

text \<open>The list calls differ in their names and in what they read of an entry; a request is namespace, query and token.\<close>

definition ListWorkflows ::
  "nat \<Rightarrow> (string \<times> string \<times> string, execution_info list \<times> string, 'w) stub \<Rightarrow> string \<Rightarrow> string
   \<Rightarrow> 'w \<Rightarrow> ((client_error + WorkflowDescription list) \<times> 'w) option" where
  "ListWorkflows n stub ns query =
     Paginate n (\<lambda>token. io_map (\<lambda>(infos, t). (map DescriptionFromInfo infos, t))
       (rpc_call ''ListWorkflowExecutions'' False ([], []) stub (ns, query, token))) [] []"

definition CountWorkflows :: "(string \<times> string, int, 'w) stub \<Rightarrow> string \<Rightarrow> string \<Rightarrow> ('w, int) io" where
  "CountWorkflows stub ns query = rpc_call ''CountWorkflowExecutions'' False 0 stub (ns, query)"

definition list_names ::
  "string \<Rightarrow> nat \<Rightarrow> (string \<times> string, string list \<times> string, 'w) stub \<Rightarrow> string \<Rightarrow> 'w \<Rightarrow> ((client_error + string list) \<times> 'w) option" where
  "list_names name n stub ns = Paginate n (\<lambda>token. rpc_call name False ([], []) stub (ns, token)) [] []"

definition ListSchedules :: "nat \<Rightarrow> (string \<times> string, string list \<times> string, 'w) stub \<Rightarrow> string \<Rightarrow> 'w \<Rightarrow> ((client_error + string list) \<times> 'w) option" where
  "ListSchedules = list_names ''ListSchedules''"

definition ListBatchOperations :: "nat \<Rightarrow> (string \<times> string, string list \<times> string, 'w) stub \<Rightarrow> string \<Rightarrow> 'w \<Rightarrow> ((client_error + string list) \<times> 'w) option" where
  "ListBatchOperations = list_names ''ListBatchOperations''"

definition ListWorkerDeployments :: "nat \<Rightarrow> (string \<times> string, string list \<times> string, 'w) stub \<Rightarrow> string \<Rightarrow> 'w \<Rightarrow> ((client_error + string list) \<times> 'w) option" where
  "ListWorkerDeployments = list_names ''ListWorkerDeployments''"

text \<open>Cluster-scoped lists carry no namespace.\<close>

definition ListClusters :: "nat \<Rightarrow> (string \<times> string, string list \<times> string, 'w) stub \<Rightarrow> 'w \<Rightarrow> ((client_error + string list) \<times> 'w) option" where
  "ListClusters n stub = list_names ''ListClusters'' n stub []"

definition ListNexusEndpoints :: "nat \<Rightarrow> (string \<times> string, string list \<times> string, 'w) stub \<Rightarrow> 'w \<Rightarrow> ((client_error + string list) \<times> 'w) option" where
  "ListNexusEndpoints n stub = list_names ''ListNexusEndpoints'' n stub []"

section \<open>Starting workflows\<close>

record StartWorkflowOptions =
  sw_id :: string
  sw_task_queue :: string
  sw_execution_timeout :: int
  sw_run_timeout :: int
  sw_task_timeout :: int
  sw_retry_policy :: "RetryPolicy option"
  sw_memo :: "string \<rightharpoonup> Payload"
  sw_search_attributes :: "string \<rightharpoonup> Payload"
  sw_headers :: "string \<rightharpoonup> Payload"

record start_request =
  st_ns :: string
  st_workflow_id :: string
  st_workflow_type :: string
  st_task_queue :: string
  st_input :: "proto_payload list option"
  st_signal :: "(string \<times> proto_payload list option) option"
  st_identity :: string
  st_request_id :: string
  st_execution_timeout :: "proto_duration option"
  st_run_timeout :: "proto_duration option"
  st_task_timeout :: "proto_duration option"
  st_retry_policy :: "proto_retry_policy option"
  st_memo :: "string \<rightharpoonup> proto_payload"
  st_search_attributes :: "string \<rightharpoonup> proto_payload"
  st_header :: "string \<rightharpoonup> proto_payload"

record StartWorkflowInput =
  si_workflow_type :: string
  si_options :: StartWorkflowOptions
  si_args :: Payloads

definition start_id :: "string \<Rightarrow> StartWorkflowOptions \<Rightarrow> string" where
  "start_id uuid opts = (if sw_id opts = [] then uuid else sw_id opts)"

definition do_start ::
  "Client \<Rightarrow> string \<Rightarrow> (start_request, string, 'w) stub \<Rightarrow> string \<Rightarrow> StartWorkflowInput \<Rightarrow> (string \<rightharpoonup> Payload) \<Rightarrow> ('w, string) io" where
  "do_start c request_uuid stub workflow_id inp header =
     rpc_call ''StartWorkflowExecution'' False [] stub
       \<lparr>st_ns = c_ns c, st_workflow_id = workflow_id, st_workflow_type = si_workflow_type inp,
        st_task_queue = sw_task_queue (si_options inp), st_input = payloads_or_unset (si_args inp), st_signal = None,
        st_identity = c_identity c, st_request_id = request_uuid,
        st_execution_timeout = timeout_or_unset (sw_execution_timeout (si_options inp)),
        st_run_timeout = timeout_or_unset (sw_run_timeout (si_options inp)),
        st_task_timeout = timeout_or_unset (sw_task_timeout (si_options inp)),
        st_retry_policy = map_option ToProtoRetryPolicy (sw_retry_policy (si_options inp)),
        st_memo = map_option ToProtoPayload \<circ> sw_memo (si_options inp),
        st_search_attributes = map_option ToProtoPayload \<circ> sw_search_attributes (si_options inp),
        st_header = map_option ToProtoPayload \<circ> header\<rparr>"

text \<open>The client-outbound chain, built like the activity-inbound one; the terminal is \<open>do_start\<close>.\<close>

definition BuildClientOutboundChain :: "('i \<Rightarrow> 'i option) list \<Rightarrow> 'i \<Rightarrow> 'i" where
  "BuildClientOutboundChain factories terminal = build_chain_loop (rev factories) terminal"

type_synonym 'w client_outbound = "StartWorkflowInput \<Rightarrow> (string \<rightharpoonup> Payload) \<Rightarrow> ('w, string) io"

definition StartWorkflowPayloads ::
  "Client \<Rightarrow> string \<Rightarrow> string \<Rightarrow> ('w client_outbound \<Rightarrow> 'w client_outbound option) list \<Rightarrow> (start_request, string, 'w) stub
   \<Rightarrow> StartWorkflowOptions \<Rightarrow> string \<Rightarrow> Payloads \<Rightarrow> ('w, WorkflowHandle) io" where
  "StartWorkflowPayloads c id_uuid request_uuid factories stub opts workflow_type args =
     (let workflow_id = start_id id_uuid opts;
          chain = BuildClientOutboundChain factories (do_start c request_uuid stub workflow_id)
      in io_map (GetHandle (c_ns c) workflow_id)
           (chain \<lparr>si_workflow_type = workflow_type, si_options = opts\<lparr>sw_id := workflow_id\<rparr>, si_args = args\<rparr>
              (sw_headers opts)))"

definition SignalWithStartWorkflowPayloads ::
  "Client \<Rightarrow> string \<Rightarrow> string \<Rightarrow> (start_request, string, 'w) stub \<Rightarrow> StartWorkflowOptions \<Rightarrow> string \<Rightarrow> string
   \<Rightarrow> Payloads \<Rightarrow> Payloads \<Rightarrow> ('w, WorkflowHandle) io" where
  "SignalWithStartWorkflowPayloads c id_uuid request_uuid stub opts workflow_type signal_name signal_args args =
     io_map (GetHandle (c_ns c) (start_id id_uuid opts))
       (rpc_call ''SignalWithStartWorkflowExecution'' False [] stub
         \<lparr>st_ns = c_ns c, st_workflow_id = start_id id_uuid opts, st_workflow_type = workflow_type,
          st_task_queue = sw_task_queue opts, st_input = payloads_or_unset args,
          st_signal = Some (signal_name, payloads_or_unset signal_args),
          st_identity = c_identity c, st_request_id = request_uuid,
          st_execution_timeout = timeout_or_unset (sw_execution_timeout opts),
          st_run_timeout = timeout_or_unset (sw_run_timeout opts),
          st_task_timeout = timeout_or_unset (sw_task_timeout opts),
          st_retry_policy = map_option ToProtoRetryPolicy (sw_retry_policy opts),
          st_memo = map_option ToProtoPayload \<circ> sw_memo opts,
          st_search_attributes = Map.empty, st_header = Map.empty\<rparr>)"

section \<open>Schedules\<close>

record ScheduleOptions =
  so_interval :: int
  so_cron_expressions :: "string list"
  so_workflow_type :: string
  so_task_queue :: string
  so_workflow_id :: string

record schedule_spec =
  ss_intervals :: "proto_duration list"
  ss_cron :: "string list"
  ss_workflow_id :: string
  ss_workflow_type :: string
  ss_task_queue :: string

definition schedule_of :: "string \<Rightarrow> ScheduleOptions \<Rightarrow> schedule_spec" where
  "schedule_of schedule_id opts =
     \<lparr>ss_intervals = (if so_interval opts > 0 then [ToProtoDuration (so_interval opts * ns_per_s)] else []),
      ss_cron = so_cron_expressions opts,
      ss_workflow_id = (if so_workflow_id opts = [] then schedule_id @ ''-workflow'' else so_workflow_id opts),
      ss_workflow_type = so_workflow_type opts, ss_task_queue = so_task_queue opts\<rparr>"

text \<open>Namespace, schedule, identity, request id, and the schedule.\<close>

definition CreateSchedule ::
  "Client \<Rightarrow> string \<Rightarrow> (string \<times> string \<times> string \<times> string \<times> schedule_spec, unit, 'w) stub \<Rightarrow> string \<Rightarrow> ScheduleOptions \<Rightarrow> ('w, unit) io" where
  "CreateSchedule c uuid stub schedule_id opts =
     rpc_call ''CreateSchedule'' False () stub (c_ns c, schedule_id, c_identity c, uuid, schedule_of schedule_id opts)"

definition UpdateSchedule ::
  "Client \<Rightarrow> string \<Rightarrow> (string \<times> string \<times> string \<times> string \<times> schedule_spec, unit, 'w) stub \<Rightarrow> string \<Rightarrow> ScheduleOptions \<Rightarrow> ('w, unit) io" where
  "UpdateSchedule c uuid stub schedule_id opts =
     rpc_call ''UpdateSchedule'' False () stub (c_ns c, schedule_id, c_identity c, uuid, schedule_of schedule_id opts)"

text \<open>An absent schedule is an answer, every other failure an error.\<close>

definition DescribeSchedule :: "Client \<Rightarrow> (string \<times> string, unit, 'w) stub \<Rightarrow> string \<Rightarrow> ('w, bool) io" where
  "DescribeSchedule c stub schedule_id w =
     (case rpc_call ''DescribeSchedule'' False () stub (c_ns c, schedule_id) w of
        (Inr u, w') \<Rightarrow> (Inr True, w')
      | (Inl (ClientRpc e), w') \<Rightarrow> (if not_found e then (Inr False, w') else (Inl (ClientRpc e), w'))
      | (Inl e, w') \<Rightarrow> (Inl e, w'))"

definition DeleteSchedule :: "Client \<Rightarrow> (string \<times> string \<times> string, unit, 'w) stub \<Rightarrow> string \<Rightarrow> ('w, unit) io" where
  "DeleteSchedule c stub schedule_id = rpc_call ''DeleteSchedule'' False () stub (c_ns c, schedule_id, c_identity c)"

datatype schedule_patch = TriggerImmediately | Pause string | Unpause string

definition patch_schedule ::
  "Client \<Rightarrow> string \<Rightarrow> (string \<times> string \<times> string \<times> string \<times> schedule_patch, unit, 'w) stub \<Rightarrow> string \<Rightarrow> schedule_patch \<Rightarrow> ('w, unit) io" where
  "patch_schedule c uuid stub schedule_id patch =
     rpc_call ''PatchSchedule'' False () stub (c_ns c, schedule_id, c_identity c, uuid, patch)"

definition TriggerSchedule :: "Client \<Rightarrow> string \<Rightarrow> (string \<times> string \<times> string \<times> string \<times> schedule_patch, unit, 'w) stub \<Rightarrow> string \<Rightarrow> ('w, unit) io" where
  "TriggerSchedule c uuid stub schedule_id = patch_schedule c uuid stub schedule_id TriggerImmediately"

definition PauseSchedule :: "Client \<Rightarrow> string \<Rightarrow> (string \<times> string \<times> string \<times> string \<times> schedule_patch, unit, 'w) stub \<Rightarrow> string \<Rightarrow> string \<Rightarrow> ('w, unit) io" where
  "PauseSchedule c uuid stub schedule_id note =
     patch_schedule c uuid stub schedule_id (Pause (if note = [] then ''paused'' else note))"

definition UnpauseSchedule :: "Client \<Rightarrow> string \<Rightarrow> (string \<times> string \<times> string \<times> string \<times> schedule_patch, unit, 'w) stub \<Rightarrow> string \<Rightarrow> string \<Rightarrow> ('w, unit) io" where
  "UnpauseSchedule c uuid stub schedule_id note =
     patch_schedule c uuid stub schedule_id (Unpause (if note = [] then ''unpaused'' else note))"

section \<open>Resets, versioning, batches\<close>

definition ResetWorkflow ::
  "Client \<Rightarrow> string \<Rightarrow> (string \<times> string \<times> string \<times> string \<times> int \<times> string, string, 'w) stub \<Rightarrow> string \<Rightarrow> string \<Rightarrow> string \<Rightarrow> int \<Rightarrow> ('w, string) io" where
  "ResetWorkflow c uuid stub workflow_id run_id reason finish_event_id =
     rpc_call ''ResetWorkflowExecution'' False [] stub (c_ns c, workflow_id, run_id, reason, finish_event_id, uuid)"

definition GetWorkerBuildIdCompatibility :: "Client \<Rightarrow> (string \<times> string, string list list, 'w) stub \<Rightarrow> string \<Rightarrow> ('w, string list list) io" where
  "GetWorkerBuildIdCompatibility c stub task_queue =
     rpc_call ''GetWorkerBuildIdCompatibility'' False [] stub (c_ns c, task_queue)"

datatype build_id_operation = AddNewBuildIdInNewDefaultSet string | PromoteSetByBuildId string

definition UpdateWorkerBuildIdCompatibility :: "Client \<Rightarrow> (string \<times> string \<times> build_id_operation, unit, 'w) stub \<Rightarrow> string \<Rightarrow> string \<Rightarrow> ('w, unit) io" where
  "UpdateWorkerBuildIdCompatibility c stub task_queue build_id =
     rpc_call ''UpdateWorkerBuildIdCompatibility'' False () stub (c_ns c, task_queue, AddNewBuildIdInNewDefaultSet build_id)"

definition PromoteWorkerBuildIdSet :: "Client \<Rightarrow> (string \<times> string \<times> build_id_operation, unit, 'w) stub \<Rightarrow> string \<Rightarrow> string \<Rightarrow> ('w, unit) io" where
  "PromoteWorkerBuildIdSet c stub task_queue build_id =
     rpc_call ''UpdateWorkerBuildIdCompatibility'' False () stub (c_ns c, task_queue, PromoteSetByBuildId build_id)"

record WorkerVersioningRules =
  vr_assignment_targets :: "string list"
  vr_redirects :: "(string \<times> string) list"
  vr_conflict_token :: string

definition GetWorkerVersioningRules :: "Client \<Rightarrow> (string \<times> string, WorkerVersioningRules, 'w) stub \<Rightarrow> string \<Rightarrow> ('w, WorkerVersioningRules) io" where
  "GetWorkerVersioningRules c stub task_queue =
     rpc_call ''GetWorkerVersioningRules'' False \<lparr>vr_assignment_targets = [], vr_redirects = [], vr_conflict_token = []\<rparr> stub
       (c_ns c, task_queue)"

datatype versioning_operation = InsertAssignmentRule int string | AddCompatibleRedirectRule string string

definition update_versioning ::
  "Client \<Rightarrow> (string \<times> string, WorkerVersioningRules, 'w) stub \<Rightarrow> (string \<times> string \<times> string \<times> versioning_operation, unit, 'w) stub
   \<Rightarrow> string \<Rightarrow> versioning_operation \<Rightarrow> ('w, unit) io" where
  "update_versioning c get_stub stub task_queue oper =
     io_bind (GetWorkerVersioningRules c get_stub task_queue)
       (\<lambda>rules. rpc_call ''UpdateWorkerVersioningRules'' False () stub (c_ns c, task_queue, vr_conflict_token rules, oper))"

definition InsertWorkerAssignmentRule ::
  "Client \<Rightarrow> (string \<times> string, WorkerVersioningRules, 'w) stub \<Rightarrow> (string \<times> string \<times> string \<times> versioning_operation, unit, 'w) stub
   \<Rightarrow> string \<Rightarrow> string \<Rightarrow> ('w, unit) io" where
  "InsertWorkerAssignmentRule c get_stub stub task_queue target_build_id =
     update_versioning c get_stub stub task_queue (InsertAssignmentRule 0 target_build_id)"

definition AddWorkerRedirectRule ::
  "Client \<Rightarrow> (string \<times> string, WorkerVersioningRules, 'w) stub \<Rightarrow> (string \<times> string \<times> string \<times> versioning_operation, unit, 'w) stub
   \<Rightarrow> string \<Rightarrow> string \<Rightarrow> string \<Rightarrow> ('w, unit) io" where
  "AddWorkerRedirectRule c get_stub stub task_queue source target_id =
     update_versioning c get_stub stub task_queue (AddCompatibleRedirectRule source target_id)"

datatype batch_operation = BatchTerminate string | BatchCancel string

definition StartBatchTerminate ::
  "Client \<Rightarrow> (string \<times> string \<times> string \<times> string \<times> batch_operation, unit, 'w) stub \<Rightarrow> string \<Rightarrow> string \<Rightarrow> string \<Rightarrow> ('w, unit) io" where
  "StartBatchTerminate c stub job_id query reason =
     rpc_call ''StartBatchOperation'' False () stub (c_ns c, job_id, query, reason, BatchTerminate (c_identity c))"

definition StartBatchCancel ::
  "Client \<Rightarrow> (string \<times> string \<times> string \<times> string \<times> batch_operation, unit, 'w) stub \<Rightarrow> string \<Rightarrow> string \<Rightarrow> string \<Rightarrow> ('w, unit) io" where
  "StartBatchCancel c stub job_id query reason =
     rpc_call ''StartBatchOperation'' False () stub (c_ns c, job_id, query, reason, BatchCancel (c_identity c))"

record BatchOperationDescription =
  bd_job_id :: string
  bd_state :: string
  bd_total :: int
  bd_completed :: int
  bd_failed :: int

text \<open>The response has the same fields, with the name of the state's enum value.\<close>

definition DescribeBatchOperation ::
  "Client \<Rightarrow> BatchOperationDescription \<Rightarrow> (string \<times> string, BatchOperationDescription, 'w) stub \<Rightarrow> string \<Rightarrow> ('w, BatchOperationDescription) io" where
  "DescribeBatchOperation c unset stub job_id =
     io_map (\<lambda>b. b\<lparr>bd_state := strip_prefix ''BATCH_OPERATION_STATE_'' (bd_state b)\<rparr>)
       (rpc_call ''DescribeBatchOperation'' False unset stub (c_ns c, job_id))"

section \<open>Search attributes\<close>

datatype IndexedValueType = Keyword | Text | IntType | DoubleType | BoolType | Datetime | KeywordList

definition IndexedValueTypeFromString :: "string \<Rightarrow> client_error + IndexedValueType" where
  "IndexedValueTypeFromString type =
     (if type = ''Keyword'' then Inr Keyword
      else if type = ''Text'' then Inr Text
      else if type = ''Int'' then Inr IntType
      else if type = ''Double'' then Inr DoubleType
      else if type = ''Bool'' then Inr BoolType
      else if type = ''Datetime'' then Inr Datetime
      else if type = ''KeywordList'' then Inr KeywordList
      else Inl (InvalidArgument (''unknown search attribute type: '' @ type)))"

definition to_lower :: "char \<Rightarrow> char" where
  "to_lower c = (if 65 \<le> (of_char c :: nat) \<and> of_char c \<le> (90 :: nat) then char_of (of_char c + (32 :: nat)) else c)"

fun title_case :: "bool \<Rightarrow> string \<Rightarrow> string" where
  "title_case at_word_start [] = []"
| "title_case at_word_start (ch # rest) =
     (if ch = CHR ''_'' then title_case True rest
      else (if at_word_start then ch else to_lower ch) # title_case False rest)"

text \<open>The argument is the name of the enum value.\<close>

definition IndexedValueTypeName :: "string \<Rightarrow> string" where
  "IndexedValueTypeName enum_name = title_case True (strip_prefix ''INDEXED_VALUE_TYPE_'' enum_name)"

text \<open>Every type is checked before the call, so one bad type means no call.\<close>

fun typed_attributes :: "(string \<times> string) list \<Rightarrow> client_error + (string \<times> IndexedValueType) list" where
  "typed_attributes [] = Inr []"
| "typed_attributes ((name, type) # rest) =
     (case IndexedValueTypeFromString type of
        Inl e \<Rightarrow> Inl e
      | Inr t \<Rightarrow> (case typed_attributes rest of Inl e \<Rightarrow> Inl e | Inr ts \<Rightarrow> Inr ((name, t) # ts)))"

definition AddSearchAttributes :: "Client \<Rightarrow> (string \<times> (string \<times> IndexedValueType) list, unit, 'w) stub \<Rightarrow> (string \<times> string) list \<Rightarrow> ('w, unit) io" where
  "AddSearchAttributes c stub name_to_type w =
     (case typed_attributes name_to_type of
        Inl e \<Rightarrow> (Inl e, w)
      | Inr ts \<Rightarrow> rpc_call ''AddSearchAttributes'' False () stub (c_ns c, ts) w)"

text \<open>Custom and system attributes, each name with the name of its type's enum value.\<close>

definition ListSearchAttributes ::
  "Client \<Rightarrow> (string, (string \<rightharpoonup> string) \<times> (string \<rightharpoonup> string), 'w) stub \<Rightarrow> ('w, (string \<rightharpoonup> string) \<times> (string \<rightharpoonup> string)) io" where
  "ListSearchAttributes c stub =
     io_map (\<lambda>(custom, system). (map_option IndexedValueTypeName \<circ> custom, map_option IndexedValueTypeName \<circ> system))
       (rpc_call ''ListSearchAttributes'' False (Map.empty, Map.empty) stub (c_ns c))"

definition RemoveSearchAttributes :: "Client \<Rightarrow> (string \<times> string list, unit, 'w) stub \<Rightarrow> string list \<Rightarrow> ('w, unit) io" where
  "RemoveSearchAttributes c stub names = rpc_call ''RemoveSearchAttributes'' False () stub (c_ns c, names)"

section \<open>Clusters, endpoints, deployments, activities\<close>

record nexus_endpoint =
  ne_id :: string
  ne_name :: string
  ne_ns :: string
  ne_task_queue :: string

definition CreateNexusEndpoint :: "string \<Rightarrow> (string \<times> string \<times> string, string, 'w) stub \<Rightarrow> string \<Rightarrow> string \<Rightarrow> ('w, string) io" where
  "CreateNexusEndpoint ns stub name target_task_queue =
     rpc_call ''CreateNexusEndpoint'' False [] stub (name, ns, target_task_queue)"

definition GetNexusEndpoint :: "(string, nexus_endpoint, 'w) stub \<Rightarrow> string \<Rightarrow> ('w, nexus_endpoint) io" where
  "GetNexusEndpoint stub eid =
     rpc_call ''GetNexusEndpoint'' False \<lparr>ne_id = [], ne_name = [], ne_ns = [], ne_task_queue = []\<rparr> stub eid"

text \<open>Namespace, deployment, build id, identity, and the conflict token, unset when empty.\<close>

definition SetWorkerDeploymentCurrentVersion ::
  "Client \<Rightarrow> (string \<times> string \<times> string \<times> string \<times> string, string, 'w) stub \<Rightarrow> string \<Rightarrow> string \<Rightarrow> string \<Rightarrow> ('w, string) io" where
  "SetWorkerDeploymentCurrentVersion c stub deployment build_id conflict_token =
     rpc_call ''SetWorkerDeploymentCurrentVersion'' False [] stub (c_ns c, deployment, build_id, c_identity c, conflict_token)"

definition AddOrUpdateRemoteCluster :: "(string \<times> bool, unit, 'w) stub \<Rightarrow> string \<Rightarrow> bool \<Rightarrow> ('w, unit) io" where
  "AddOrUpdateRemoteCluster stub address enable = rpc_call ''AddOrUpdateRemoteCluster'' False () stub (address, enable)"

definition RemoveRemoteCluster :: "(string, unit, 'w) stub \<Rightarrow> string \<Rightarrow> ('w, unit) io" where
  "RemoveRemoteCluster stub cluster = rpc_call ''RemoveRemoteCluster'' False () stub cluster"

definition DeleteNamespace :: "(string, string, 'w) stub \<Rightarrow> string \<Rightarrow> ('w, string) io" where
  "DeleteNamespace stub name = rpc_call ''DeleteNamespace'' False [] stub name"

definition CompleteActivityPayloads ::
  "Client \<Rightarrow> (string \<times> string \<times> string \<times> proto_payload list option, unit, 'w) stub \<Rightarrow> string \<Rightarrow> Payloads \<Rightarrow> ('w, unit) io" where
  "CompleteActivityPayloads c stub token res =
     rpc_call ''RespondActivityTaskCompleted'' False () stub (c_ns c, token, c_identity c, payloads_or_unset res)"

definition FailActivity :: "Client \<Rightarrow> (string \<times> string \<times> string \<times> Failure, unit, 'w) stub \<Rightarrow> string \<Rightarrow> string \<Rightarrow> string \<Rightarrow> ('w, unit) io" where
  "FailActivity c stub token message type =
     rpc_call ''RespondActivityTaskFailed'' False () stub
       (c_ns c, token, c_identity c, \<lparr>f_message = message, f_source = [],
          f_app = Some \<lparr>afi_type = type, afi_non_retryable = False\<rparr>\<rparr>)"

text \<open>The test server's clock, as nanoseconds since the epoch.\<close>

definition GetCurrentTime :: "(unit, proto_duration, 'w) stub \<Rightarrow> ('w, int) io" where
  "GetCurrentTime stub = io_map duration_ns (rpc_call ''GetCurrentTime'' False \<lparr>dur_seconds = 0, dur_nanos = 0\<rparr> stub ())"

definition Sleep :: "(proto_duration, unit, 'w) stub \<Rightarrow> int \<Rightarrow> ('w, unit) io" where
  "Sleep stub d = rpc_call ''Sleep'' False () stub (ToProtoDuration d)"

section \<open>Following a run to its result\<close>

text \<open>
  What the service answers while a run, and the runs that continue it, lead to a completion: after \<open>n\<close>
  answers, each of them empty, timed out, or a continue-as-new but the last.
\<close>

inductive completes_with ::
  "(history_request, close_event list, 'w) stub \<Rightarrow> WorkflowHandle \<Rightarrow> 'w \<Rightarrow> nat \<Rightarrow> proto_payload list \<Rightarrow> WorkflowHandle \<Rightarrow> 'w \<Rightarrow> bool"
  for stub :: "(history_request, close_event list, 'w) stub" where
  completed: "stub (history_request_of h [] True) w = (RpcOk (CloseCompleted p # evs), w') \<Longrightarrow>
     completes_with stub h w 1 p h w'"
| no_event: "stub (history_request_of h [] True) w = (RpcOk [], w1) \<Longrightarrow> completes_with stub h w1 n p h' w' \<Longrightarrow>
     completes_with stub h w (Suc n) p h' w'"
| timed_out: "stub (history_request_of h [] True) w = (RpcFail DEADLINE_EXCEEDED msg, w1) \<Longrightarrow>
     completes_with stub h w1 n p h' w' \<Longrightarrow> completes_with stub h w (Suc n) p h' w'"
| next_run: "stub (history_request_of h [] True) w = (RpcOk (CloseContinuedAsNew r # evs), w1) \<Longrightarrow>
     completes_with stub (h\<lparr>wh_run_id := r\<rparr>) w1 n p h' w' \<Longrightarrow> completes_with stub h w (Suc n) p h' w'"

lemma completion_is_returned:
  "completes_with stub h w n p h' w' \<Longrightarrow> n \<le> m \<Longrightarrow> ResultPayloads m stub fc h w = Some (Inr (FromProtoPayloads p), h', w')"
proof (induction arbitrary: m rule: completes_with.induct)
  case (completed h w p evs w')
  then show ?case by (cases m) (simp_all add: rpc_call_def)
next
  case (no_event h w w1 n p h' w')
  then show ?case by (cases m) (simp_all add: rpc_call_def)
next
  case (timed_out h w msg w1 n p h' w')
  then show ?case by (cases m) (simp_all add: rpc_call_def)
next
  case (next_run h w r evs w1 n p h' w')
  then show ?case by (cases m) (simp_all add: rpc_call_def)
qed

lemma returned_is_completion:
  "ResultPayloads m stub fc h w = Some (Inr x, h', w') \<Longrightarrow>
   \<exists>n p. n \<le> m \<and> completes_with stub h w n p h' w' \<and> x = FromProtoPayloads p"
proof (induction m arbitrary: h w)
  case (Suc m)
  obtain st w1 where st: "stub (history_request_of h [] True) w = (st, w1)" by fastforce
  have wait: "\<exists>n p. n \<le> Suc m \<and> completes_with stub h w n p h' w' \<and> x = FromProtoPayloads p"
    if "ResultPayloads m stub fc h w1 = Some (Inr x, h', w')" "st = RpcOk [] \<or> (\<exists>msg. st = RpcFail DEADLINE_EXCEEDED msg)"
  proof -
    from Suc.IH [OF that(1)] obtain n p where n: "n \<le> m" "completes_with stub h w1 n p h' w'" "x = FromProtoPayloads p" by blast
    have "completes_with stub h w (Suc n) p h' w'"
      using that(2) st n(2) by (auto intro: no_event timed_out)
    with n show ?thesis by (metis Suc_le_mono)
  qed
  show ?case
  proof (cases st)
    case (RpcFail code msg)
    with Suc.prems st wait show ?thesis by (auto simp: rpc_call_def Let_def split: if_splits)
  next
    case (RpcOk evs)
    show ?thesis
    proof (cases evs)
      case Nil
      with Suc.prems st RpcOk wait show ?thesis by (simp add: rpc_call_def)
    next
      case (Cons ev rest)
      show ?thesis
      proof (cases ev)
        case (CloseCompleted p)
        with Suc.prems st RpcOk Cons have "completes_with stub h w 1 p h' w'" "x = FromProtoPayloads p"
          by (auto simp: rpc_call_def intro: completed [unfolded One_nat_def])
        then show ?thesis by (intro exI [of _ 1] exI [of _ p]) simp
      next
        case (CloseContinuedAsNew r)
        with Suc.prems st RpcOk Cons have "ResultPayloads m stub fc (h\<lparr>wh_run_id := r\<rparr>) w1 = Some (Inr x, h', w')"
          by (simp add: rpc_call_def)
        from Suc.IH [OF this] obtain n p where "n \<le> m" "completes_with stub (h\<lparr>wh_run_id := r\<rparr>) w1 n p h' w'"
          "x = FromProtoPayloads p" by blast
        with st RpcOk Cons CloseContinuedAsNew show ?thesis by (metis Suc_le_mono next_run)
      qed (use Suc.prems st RpcOk Cons in \<open>simp_all add: rpc_call_def\<close>)
    qed
  qed
qed simp

section \<open>Properties of the client\<close>

text \<open>
  C12. A result is the completion at the end of the chain of runs: \<^verbatim>\<open>ResultPayloads\<close> returns payloads,
  with enough answers, exactly when the service leads from the handle's run through empty polls,
  timed-out polls and continue-as-new events to a completion with those payloads; the handle then
  names the run that completed.
\<close>

theorem result_is_last_run_completion:
  "(\<exists>m. ResultPayloads m stub fc h w = Some (Inr x, h', w'))
    \<longleftrightarrow> (\<exists>n p. completes_with stub h w n p h' w' \<and> x = FromProtoPayloads p)"
  using completion_is_returned [where stub = stub and fc = fc and h = h and w = w]
    returned_is_completion [where stub = stub and fc = fc and h = h and w = w and h' = h' and w' = w' and x = x]
  by (meson order_refl)

text \<open>The names the protocol gives the types of search attributes.\<close>

definition attribute_names :: "(IndexedValueType \<Rightarrow> string) \<Rightarrow> bool" where
  "attribute_names nm \<longleftrightarrow>
     nm Keyword = ''INDEXED_VALUE_TYPE_KEYWORD'' \<and> nm Text = ''INDEXED_VALUE_TYPE_TEXT''
     \<and> nm IntType = ''INDEXED_VALUE_TYPE_INT'' \<and> nm DoubleType = ''INDEXED_VALUE_TYPE_DOUBLE''
     \<and> nm BoolType = ''INDEXED_VALUE_TYPE_BOOL'' \<and> nm Datetime = ''INDEXED_VALUE_TYPE_DATETIME''
     \<and> nm KeywordList = ''INDEXED_VALUE_TYPE_KEYWORD_LIST''"

lemma type_names:
  assumes "attribute_names nm"
  shows "IndexedValueTypeName (nm Keyword) = ''Keyword''" "IndexedValueTypeName (nm Text) = ''Text''"
    "IndexedValueTypeName (nm IntType) = ''Int''" "IndexedValueTypeName (nm DoubleType) = ''Double''"
    "IndexedValueTypeName (nm BoolType) = ''Bool''" "IndexedValueTypeName (nm Datetime) = ''Datetime''"
    "IndexedValueTypeName (nm KeywordList) = ''KeywordList''"
  using assms
  by (simp_all add: attribute_names_def IndexedValueTypeName_def strip_prefix_def to_lower_def char_of_def bit_0)

lemma FromString_cases:
  "IndexedValueTypeFromString s = Inl (InvalidArgument (''unknown search attribute type: '' @ s))
   \<or> (\<exists>t. IndexedValueTypeFromString s = Inr t)"
  by (simp only: IndexedValueTypeFromString_def split: if_split) simp

text \<open>
  Attribute types print and parse back: the name the client shows for a type is the one and only
  string it accepts for it, and a request with any other type is refused before a call is made.
\<close>

theorem attribute_type_names_roundtrip:
  assumes "attribute_names nm"
  shows "(IndexedValueTypeFromString s = Inr t \<longleftrightarrow> s = IndexedValueTypeName (nm t))
    \<and> ((\<forall>t. s \<noteq> IndexedValueTypeName (nm t)) \<longrightarrow>
        (\<exists>e. AddSearchAttributes c stub [(attr, s)] w = (Inl (InvalidArgument e), w)))"
proof -
  have eq: "(IndexedValueTypeFromString s = Inr t \<longleftrightarrow> s = IndexedValueTypeName (nm t))" for t
    by (cases t) (auto simp: IndexedValueTypeFromString_def type_names [OF assms])
  have "\<exists>e. AddSearchAttributes c stub [(attr, s)] w = (Inl (InvalidArgument e), w)"
    if none: "\<forall>t. s \<noteq> IndexedValueTypeName (nm t)"
  proof -
    have "IndexedValueTypeFromString s \<noteq> Inr t" for t using eq none by blast
    then have "IndexedValueTypeFromString s = Inl (InvalidArgument (''unknown search attribute type: '' @ s))"
      using FromString_cases [of s] by blast
    then show ?thesis by (simp add: AddSearchAttributes_def)
  qed
  with eq show ?thesis by blast
qed

theorem attribute_type_names_roundtrip_witness:
  "IndexedValueTypeFromString (IndexedValueTypeName ''INDEXED_VALUE_TYPE_KEYWORD_LIST'') = Inr KeywordList"
proof -
  let ?nm = "\<lambda>t. case t of Keyword \<Rightarrow> ''INDEXED_VALUE_TYPE_KEYWORD'' | Text \<Rightarrow> ''INDEXED_VALUE_TYPE_TEXT''
    | IntType \<Rightarrow> ''INDEXED_VALUE_TYPE_INT'' | DoubleType \<Rightarrow> ''INDEXED_VALUE_TYPE_DOUBLE''
    | BoolType \<Rightarrow> ''INDEXED_VALUE_TYPE_BOOL'' | Datetime \<Rightarrow> ''INDEXED_VALUE_TYPE_DATETIME''
    | KeywordList \<Rightarrow> ''INDEXED_VALUE_TYPE_KEYWORD_LIST''"
  have "attribute_names ?nm" by (simp add: attribute_names_def)
  from conjunct1 [OF attribute_type_names_roundtrip [OF this, of "IndexedValueTypeName (?nm KeywordList)" KeywordList]]
  show ?thesis by simp
qed

text \<open>
  Starting and signal-with-start differ in what they send: a start sends the search attributes and
  the headers of its options, converted, but a signal-with-start with the same options sends
  neither, whatever they are.
\<close>

theorem signal_with_start_drops_attributes:
  "snd (StartWorkflowPayloads c u v [] (\<lambda>q sent. (RpcOk [], q # sent)) opts type args []) \<noteq> []
   \<and> list_all (\<lambda>q. st_search_attributes q = map_option ToProtoPayload \<circ> sw_search_attributes opts
         \<and> st_header q = map_option ToProtoPayload \<circ> sw_headers opts)
       (snd (StartWorkflowPayloads c u v [] (\<lambda>q sent. (RpcOk [], q # sent)) opts type args []))
   \<and> SignalWithStartWorkflowPayloads c u v stub (opts\<lparr>sw_search_attributes := a, sw_headers := hs\<rparr>) type sig sargs args
     = SignalWithStartWorkflowPayloads c u v stub opts type sig sargs args"
  by (simp add: StartWorkflowPayloads_def BuildClientOutboundChain_def do_start_def io_map_def rpc_call_def
      SignalWithStartWorkflowPayloads_def start_id_def Let_def)

end
