(* ===== verification/Task_Sequence.thy ===== *)
theory Task_Sequence
  imports Workflow_Api
begin

text \<open>
  A run over several workflow tasks. The first task runs the body of a new runner; every later one applies its
  events and resumes the body where it parked, as the task handler does with a runner it finds in its cache. What the
  runs of a workflow give in this way is compared here with a replay of the whole history.
\<close>

section \<open>Tasks in sequence\<close>

fun continue_tasks :: "env \<Rightarrow> nat \<Rightarrow> HistoryEvent list list \<Rightarrow> 's WorkflowRunner \<Rightarrow> 's WorkflowRunner flow" where
  "continue_tasks E n [] r = Ok r"
| "continue_tasks E n (h # hs) r = bind_flow (ApplyAndResume E n h r) (continue_tasks E n hs)"

definition run_tasks :: "env \<Rightarrow> nat \<Rightarrow> HistoryEvent list list \<Rightarrow> 's WorkflowRunner \<Rightarrow> 's WorkflowRunner flow" where
  "run_tasks E n hs r = bind_flow (Run E n r) (continue_tasks E n hs)"

text \<open>What events do not change.\<close>

definition kept_by_events ::
  "'s WorkflowRunner \<Rightarrow> 's coroutine \<times> bool \<times> int \<times> Status \<times> Payloads \<times> (string \<rightharpoonup> (Payloads \<Rightarrow> 's body))" where
  "kept_by_events r = (coroutine r, deadlocked r, deadlock_timeout r, status r, run_result r, update_handlers r)"

lemma kept_set_future [simp]: "kept_by_events (set_future a f r) = kept_by_events r"
  by (simp add: kept_by_events_def set_future_def)

lemma kept_fold_set_future [simp]: "kept_by_events (fold (\<lambda>a. set_future a f) as r) = kept_by_events r"
  by (induction as arbitrary: r) auto

lemma kept_scan [simp]: "kept_by_events (r\<lparr>scan := ps\<rparr>) = kept_by_events r"
  by (simp add: kept_by_events_def)

lemma kept_apply_switch [simp]: "kept_by_events (apply_switch eid a r) = kept_by_events r"
proof (cases a)
  case (ActivityEv e)
  then show ?thesis by (cases e) (auto simp: ResolveActivity_def resolve_at_def split: option.split)
next
  case (TimerEv e)
  then show ?thesis by (cases e) (auto split: option.split)
next
  case (ChildEv e)
  then show ?thesis by (cases e) (auto simp: at_child_future_def split: option.split)
next
  case (NexusEv e)
  then show ?thesis by (cases e) (auto simp: ResolveNexusOperation_def resolve_at_def split: option.split)
qed simp_all

lemma kept_ApplyEvents [simp]: "kept_by_events (ApplyEvents h r) = kept_by_events r"
  by (induction h arbitrary: r) (auto simp: ApplyEventToState_def Let_def)

lemma kept_fields:
  assumes "kept_by_events r' = kept_by_events r"
  shows "coroutine r' = coroutine r" "deadlocked r' = deadlocked r" "status r' = status r" "run_result r' = run_result r"
    "update_handlers r' = update_handlers r" "has_coroutine r' = has_coroutine r"
  using assms by (simp_all add: kept_by_events_def has_coroutine_def)

lemma ApplyEvents_last:
  "sorted_wrt (<) (last_event_id (scan r) # map event_id h) \<Longrightarrow>
   last_event_id (scan (ApplyEvents h r)) = (if h = [] then last_event_id (scan r) else event_id (last h))"
proof (induction h arbitrary: r)
  case (Cons ev h)
  then have "last_event_id (scan r) < event_id ev" "sorted_wrt (<) (last_event_id (scan (applied ev r)) # map event_id h)" by auto
  with Cons.IH [of "applied ev r"] show ?case by (simp add: ApplyEvents_new del: ApplyEvents.simps)
qed simp

lemma RunBody_end_scan [simp]: "scan (RunBody_end E out r) = scan r"
  by (cases out) (simp_all add: push_produced_def)

lemma resume_scan: "ResumeCoroutine E n r = Ok r' \<Longrightarrow> scan r' = scan r"
  by (auto simp: ResumeCoroutine_def dest: exec_control_fields(4) split: coroutine.splits prod.splits stop.splits if_splits)

text \<open>
  A body returns \<open>x\<close> to its continuation \<open>k\<close> in the last of the tasks, and parks in each task before: what it does in between,
  which calls it makes and what it waits for, is up to it.
\<close>

fun returns_over :: "env \<Rightarrow> nat \<Rightarrow> ('r \<Rightarrow> 's body) \<Rightarrow> 'r \<Rightarrow> 's body \<Rightarrow> HistoryEvent list list \<Rightarrow> 's WorkflowRunner \<Rightarrow> bool" where
  "returns_over E n k x b [] r \<longleftrightarrow> (\<exists>m r1. exec E n b r = exec E (Suc m) (k x) r1)"
| "returns_over E n k x b (h # hs) r \<longleftrightarrow>
     (\<exists>b' r1. exec E n b r = (Suspended b', r1)
        \<and> returns_over E n k x b' hs (ApplyEvents h (r1\<lparr>coroutine := Parked b', commands := [], produced_commands := []\<rparr>)))"

lemma returned_over_tasks:
  assumes "coroutine r = Parked b" and "returns_over E n k x b hs r" and "k x = Finish (Returned p)"
  shows "\<exists>r'. bind_flow (ResumeCoroutine E n r) (continue_tasks E n hs) = Ok r' \<and> status r' = Completed \<and> run_result r' = p"
  using assms(1,2)
proof (induction hs arbitrary: b r)
  case Nil
  then obtain r1 where "exec E n b r = (Stopped (Returned p), r1)" using assms(3) by auto
  with Nil show ?case by (simp add: ResumeCoroutine_def push_produced_def)
next
  case (Cons h hs)
  then obtain b' r1 where ex: "exec E n b r = (Suspended b', r1)"
    and rest: "returns_over E n k x b' hs (ApplyEvents h (r1\<lparr>coroutine := Parked b', commands := [], produced_commands := []\<rparr>))" by auto
  let ?q = "ApplyEvents h (r1\<lparr>coroutine := Parked b', commands := [], produced_commands := []\<rparr>)"
  have q: "coroutine ?q = Parked b'" using kept_fields(1) [OF kept_ApplyEvents, of h "r1\<lparr>coroutine := Parked b', commands := [], produced_commands := []\<rparr>"] by simp
  then have "ApplyAndResume E n h (r1\<lparr>coroutine := Parked b'\<rparr>) = ResumeCoroutine E n ?q"
    by (simp add: ApplyAndResume_def has_coroutine_def)
  with Cons.IH [OF q rest] Cons.prems(1) ex show ?case by (simp add: ResumeCoroutine_def)
qed

lemma run_tasks_returns:
  assumes "coroutine r = NoCoroutine" and "post_update_timeline (scan r) = []" and "commands r = []" "produced_commands r = []"
    and "returns_over E n k x (workflow_fn r (input r)) hs (start_coroutine r)" and "k x = Finish (Returned p)"
  shows "\<exists>r'. run_tasks E n hs r = Ok r' \<and> status r' = Completed \<and> run_result r' = p"
proof -
  let ?r = "start_coroutine r"
  have r: "r\<lparr>commands := [], produced_commands := []\<rparr> = r" using assms(3,4) by simp
  have c: "coroutine ?r = Parked (workflow_fn r (input r))" "scan ?r = scan r"
    using assms(1) by (simp_all add: start_coroutine_def has_coroutine_def)
  have "bind_flow (ResumeCoroutine E n ?r) (ReapplyHistoricalUpdates E n) = ResumeCoroutine E n ?r"
  proof (cases "ResumeCoroutine E n ?r")
    case (Ok r1)
    then have "scan r1 = scan r" using resume_scan [OF Ok] c(2) by simp
    with Ok assms(2) show ?thesis by (simp add: ReapplyHistoricalUpdates_def)
  qed simp_all
  with returned_over_tasks [OF c(1) assms(5,6)] r show ?thesis by (simp add: run_tasks_def Run_def)
qed

section \<open>A workflow that receives\<close>

text \<open>
  The state of a run that receives \<open>n\<close> signals and then returns \<open>f\<close> of their values, when the signals delivered
  so far had the values \<open>sofar\<close>: parked with what it has, or finished.
\<close>

definition receiver :: "'v typed \<Rightarrow> string \<Rightarrow> nat \<Rightarrow> ('v list \<Rightarrow> Payloads) \<Rightarrow> (thrown \<Rightarrow> 's body) \<Rightarrow> 'v list \<Rightarrow> 's body" where
  "receiver ty name n f thr acc = receive_n ty name (n - length acc) acc (\<lambda>xs. Finish (Returned (f xs))) thr"

definition receiving ::
  "'v typed \<Rightarrow> string \<Rightarrow> nat \<Rightarrow> ('v list \<Rightarrow> Payloads) \<Rightarrow> (thrown \<Rightarrow> 's body) \<Rightarrow> int \<Rightarrow> 'v list \<Rightarrow> 's WorkflowRunner \<Rightarrow> bool" where
  "receiving ty name n f thr l sofar r \<longleftrightarrow>
     \<not> deadlocked r \<and> update_handlers r = Map.empty \<and> last_event_id (scan r) = l
     \<and> (if length sofar < n
        then coroutine r = Parked (receiver ty name n f thr sofar) \<and> cursor_ok name r \<and> pending name r = []
        else coroutine r = CoDone \<and> status r = Completed \<and> run_result r = f (take n sofar))"

lemma pending_coroutine [simp]:
  "pending name (r\<lparr>coroutine := c\<rparr>) = pending name r" "cursor_ok name (r\<lparr>coroutine := c\<rparr>) = cursor_ok name r"
  "pending name (r\<lparr>commands := cs, produced_commands := ps\<rparr>) = pending name r"
  "cursor_ok name (r\<lparr>commands := cs, produced_commands := ps\<rparr>) = cursor_ok name r"
  by (simp_all add: pending_def cursor_ok_def)

lemma resume_receives:
  assumes "coroutine r = Parked (receiver ty name n f thr acc)" and "length acc \<le> n"
    and "map (Decode_signal ty) (pending name r) = map Inr ws" and "cursor_ok name r"
    and "\<not> deadlocked r" and "update_handlers r = Map.empty" and "last_event_id (scan r) = l" and "n + 2 \<le> b"
  shows "\<exists>r'. ResumeCoroutine E b r = Ok r' \<and> scan r' = scan r \<and> receiving ty name n f thr l (acc @ ws) r'"
proof (cases "length acc + length ws < n")
  case True
  let ?n = "n - length acc" and ?k = "\<lambda>xs. Finish (Returned (f xs))"
  have "length ws < ?n" using True by simp
  from exec_receive_n_parks [OF assms(3,4) this, of E acc ?k thr]
  obtain r1 where r1: "r1 = r\<lparr>signal_cursor := signal_cursor r1\<rparr>" "cursor_ok name r1" "pending name r1 = []"
    and ex: "\<And>m. exec E (m + length ws + 2) (receive_n ty name ?n acc ?k thr) r
      = (Suspended (receive_n ty name (?n - length ws) (acc @ ws) ?k thr), r1)"
    by blast
  have bw: "b - length ws - 2 + length ws + 2 = b" using True assms(8) by simp
  have "exec E b (receiver ty name n f thr acc) r = (Suspended (receiver ty name n f thr (acc @ ws)), r1)"
    using ex [of "b - length ws - 2"] unfolding bw by (simp add: receiver_def)
  with assms(1) have "ResumeCoroutine E b r = Ok (r1\<lparr>coroutine := Parked (receiver ty name n f thr (acc @ ws))\<rparr>)"
    by (simp add: ResumeCoroutine_def)
  moreover have "scan r1 = scan r" "deadlocked r1 = deadlocked r" "update_handlers r1 = update_handlers r"
    by (subst r1(1), simp)+
  ultimately show ?thesis using r1(2,3) True assms(5-7) by (simp add: receiving_def)
next
  case False
  let ?n = "n - length acc" and ?k = "\<lambda>xs. Finish (Returned (f xs))"
  have "?n \<le> length ws" using False by simp
  from exec_receive_n [OF assms(3,4) this, of E acc ?k thr]
  obtain r1 where r1: "r1 = r\<lparr>signal_cursor := signal_cursor r1\<rparr>"
    and ex: "\<And>m. exec E (m + ?n) (receive_n ty name ?n acc ?k thr) r = exec E m (?k (acc @ take ?n ws)) r1"
    by blast
  have m: "b = Suc (b - ?n - 1) + ?n" using assms(8) by simp
  have "acc @ take ?n ws = take n (acc @ ws)" using assms(2) by (simp add: take_append)
  then have "exec E b (receiver ty name n f thr acc) r = (Stopped (Returned (f (take n (acc @ ws)))), r1)"
    using ex [of "Suc (b - ?n - 1)"] m by (simp add: receiver_def)
  with assms(1) have "ResumeCoroutine E b r = Ok (RunBody_end E (Returned (f (take n (acc @ ws)))) (r1\<lparr>coroutine := CoDone\<rparr>))"
    by (simp add: ResumeCoroutine_def)
  moreover have "scan r1 = scan r" "deadlocked r1 = deadlocked r" "update_handlers r1 = update_handlers r"
    by (subst r1(1), simp)+
  ultimately show ?thesis using False assms(5-7) by (simp add: receiving_def push_produced_def)
qed

lemma receiving_more: "receiving ty name n f thr l sofar r \<Longrightarrow> n \<le> length sofar \<Longrightarrow> receiving ty name n f thr l (sofar @ ws) r"
  by (simp add: receiving_def)

lemma resume_done: "coroutine r = CoDone \<Longrightarrow> ResumeCoroutine E b r = Ok r"
  by (simp add: ResumeCoroutine_def)

lemma continue_receives:
  assumes "receiving ty name n f thr l sofar r" and "sorted_wrt (<) (l # map event_id h)"
    and "map (Decode_signal ty) (signals_sent name h) = map Inr ws" and "n + 2 \<le> b"
  shows "\<exists>r'. ApplyAndResume E b h r = Ok r'
    \<and> receiving ty name n f thr (if h = [] then l else event_id (last h)) (sofar @ ws) r'"
proof -
  let ?q = "r\<lparr>commands := [], produced_commands := []\<rparr>"
  let ?r = "ApplyEvents h ?q"
  have l: "last_event_id (scan ?q) = l" using assms(1) by (simp add: receiving_def)
  have last: "last_event_id (scan ?r) = (if h = [] then l else event_id (last h))"
    using ApplyEvents_last [of ?q h] assms(2) l by simp
  have kept: "coroutine ?r = coroutine r" "deadlocked ?r = deadlocked r" "status ?r = status r" "run_result ?r = run_result r"
    "update_handlers ?r = update_handlers r"
    using kept_fields [OF kept_ApplyEvents, of h ?q] by simp_all
  show ?thesis
  proof (cases "length sofar < n")
    case True
    with assms(1) have r: "coroutine r = Parked (receiver ty name n f thr sofar)" "cursor_ok name r" "pending name r = []"
      "\<not> deadlocked r" "update_handlers r = Map.empty" by (simp_all add: receiving_def)
    then have "pending name ?r = signals_sent name h" "cursor_ok name ?r"
      using ApplyEvents_pending [of ?q h name] assms(2) l by simp_all
    with resume_receives [of ?r ty name n f thr sofar ws _ b E, OF _ _ _ _ _ _ last assms(4)] r kept True assms(3)
    show ?thesis by (auto simp: ApplyAndResume_def has_coroutine_def Let_def)
  next
    case False
    with assms(1) have r: "coroutine r = CoDone" "status r = Completed" "run_result r = f (take n sofar)" "\<not> deadlocked r"
      "update_handlers r = Map.empty" by (simp_all add: receiving_def)
    have "receiving ty name n f thr (if h = [] then l else event_id (last h)) sofar ?r"
      using r kept last False by (simp add: receiving_def)
    then have "receiving ty name n f thr (if h = [] then l else event_id (last h)) (sofar @ ws) ?r"
      using False by (intro receiving_more) simp_all
    with r kept show ?thesis by (auto simp: ApplyAndResume_def has_coroutine_def resume_done Let_def)
  qed
qed

lemma continue_tasks_receives:
  assumes "receiving ty name n f thr l sofar r" and "sorted_wrt (<) (l # map event_id (concat hs))"
    and "map (Decode_signal ty) (signals_sent name (concat hs)) = map Inr ws" and "n + 2 \<le> b"
  shows "\<exists>r' l'. continue_tasks E b hs r = Ok r' \<and> receiving ty name n f thr l' (sofar @ ws) r'"
  using assms(1-3)
proof (induction hs arbitrary: l sofar r ws)
  case (Cons h hs)
  let ?l = "if h = [] then l else event_id (last h)"
  obtain us vs where ws: "map (Decode_signal ty) (signals_sent name h) = map Inr us"
    "map (Decode_signal ty) (signals_sent name (concat hs)) = map Inr vs" "ws = us @ vs"
    using Cons.prems(3) by (auto simp: append_eq_map_conv)
  have "sorted_wrt (<) (l # map event_id h)" and rest: "sorted_wrt (<) (?l # map event_id (concat hs))"
    using Cons.prems(2) by (auto simp: sorted_wrt_append)
  from continue_receives [OF Cons.prems(1) this(1) ws(1) assms(4), of E] obtain r1 where
    r1: "ApplyAndResume E b h r = Ok r1" "receiving ty name n f thr ?l (sofar @ us) r1" by blast
  from Cons.IH [OF r1(2) rest ws(2)] r1(1) ws(3) show ?case by simp
qed auto

section \<open>The replay of a history with updates\<close>

text \<open>The signals a timeline brings, and that a history's signals are those applied up front and then those held back.\<close>

fun step_signals :: "string \<Rightarrow> ReplayStep \<Rightarrow> Payloads list" where
  "step_signals name (ReplayEvent ev) = signal_of name (attrs ev)"
| "step_signals name (ReplayUpdate u args) = []"

definition timeline_signals :: "string \<Rightarrow> ReplayStep list \<Rightarrow> Payloads list" where
  "timeline_signals name steps = concat (map (step_signals name) steps)"

lemma deferred_signal: "\<not> IsDeferredOnReplay a \<Longrightarrow> signal_of name a = []"
  by (cases a) auto

lemma signal_of_step: "step_signals name (to_step ev) = signal_of name (attrs ev)"
  by (cases "attrs ev") auto

lemma timeline_signals_seen:
  "signals_sent name (visible True h) = [] \<and> timeline_signals name (timeline True h) = signals_sent name h"
proof (induction h)
  case (Cons ev h)
  have "is_update_accepted (attrs ev) \<Longrightarrow> signal_of name (attrs ev) = []" by (cases "attrs ev") auto
  with Cons deferred_signal [of "attrs ev" name] show ?case
    by (auto simp: timeline_signals_def signal_of_step simp del: to_step.simps)
qed (simp add: timeline_signals_def)

lemma timeline_signals_split:
  "signals_sent name (visible False h) @ timeline_signals name (timeline False h) = signals_sent name h"
proof (induction h)
  case (Cons ev h)
  have "is_update_accepted (attrs ev) \<Longrightarrow> signal_of name (attrs ev) = []" by (cases "attrs ev") auto
  with Cons timeline_signals_seen [of name h] show ?case
    by (auto simp: timeline_signals_def signal_of_step simp del: to_step.simps)
qed (simp add: timeline_signals_def)

lemma reapply_receives:
  assumes "receiving ty name n f thr l sofar r"
    and "map (Decode_signal ty) (timeline_signals name steps) = map Inr ws" and "n + 2 \<le> b"
  shows "\<exists>r'. reapply E b steps r = Ok r' \<and> receiving ty name n f thr l (sofar @ ws) r'"
  using assms(1,2)
proof (induction steps arbitrary: sofar r ws)
  case (Cons st steps)
  obtain us vs where ws: "map (Decode_signal ty) (step_signals name st) = map Inr us"
    "map (Decode_signal ty) (timeline_signals name steps) = map Inr vs" "ws = us @ vs"
    using Cons.prems(2) by (auto simp: timeline_signals_def append_eq_map_conv)
  show ?case
  proof (cases "length sofar < n")
    case True
    with Cons.prems(1) have r: "coroutine r = Parked (receiver ty name n f thr sofar)" "cursor_ok name r" "pending name r = []"
      "\<not> deadlocked r" "update_handlers r = Map.empty" "last_event_id (scan r) = l" by (simp_all add: receiving_def)
    obtain r1 where r1: "reapply_step E b st r = Ok r1" "kept_by_events r1 = kept_by_events r"
      "pending name r1 = step_signals name st" "cursor_ok name r1" "last_event_id (scan r1) = l"
    proof (cases st)
      case (ReplayUpdate u args)
      with r that show ?thesis by (simp add: reapply_step_def)
    next
      case (ReplayEvent ev)
      have "pending name (ApplyEventToState ev r) = signal_of name (attrs ev)" "cursor_ok name (ApplyEventToState ev r)"
        using applied_pending [OF r(2), of ev] r(3)
        by (simp_all add: applied_def pending_def cursor_ok_def queue_of_def Let_def)
      with ReplayEvent r that [of "ApplyEventToState ev r"] show ?thesis
        by (simp add: reapply_step_def ApplyEventToState_def)
    qed
    have "\<exists>r2. ResumeCoroutine E b r1 = Ok r2 \<and> receiving ty name n f thr l (sofar @ us) r2"
      using resume_receives [of r1 ty name n f thr sofar us l b E] r1 kept_fields [OF r1(2)] r ws(1) True assms(3) by auto
    then obtain r2 where r2: "ResumeCoroutine E b r1 = Ok r2" "receiving ty name n f thr l (sofar @ us) r2" by blast
    from Cons.IH [OF r2(2) ws(2)] r1(1) r2(1) r ws(3) show ?thesis
      by (simp add: has_coroutine_def IsDone_def)
  next
    case False
    with Cons.prems(1) have "IsDone r" by (simp add: receiving_def IsDone_def)
    moreover have "receiving ty name n f thr l (sofar @ ws) r" using Cons.prems(1) False by (intro receiving_more) simp_all
    ultimately show ?thesis by simp
  qed
qed (auto simp: timeline_signals_def)

lemma Run_receives:
  assumes "map (Decode_signal ty) (signals_sent name h) = map Inr vs" and "h \<noteq> []" and "n + 2 \<le> b"
    and "r = new_runner E wi rep (ScanHistory h) (\<lambda>p. receiver ty name n f thr []) inp s0"
  shows "\<exists>r'. Run E b r = Ok r' \<and> receiving ty name n f thr (event_id (last h)) vs r'"
proof -
  let ?r = "start_coroutine (r\<lparr>commands := [], produced_commands := []\<rparr>)"
  have "map (Decode_signal ty) (signals_sent name (visible False h)) @ map (Decode_signal ty) (timeline_signals name (timeline False h))
      = map Inr vs"
    using assms(1) timeline_signals_split [of name h] by (metis map_append)
  then obtain us ws where vs: "map (Decode_signal ty) (signals_sent name (visible False h)) = map Inr us"
    "map (Decode_signal ty) (timeline_signals name (timeline False h)) = map Inr ws" "vs = us @ ws"
    by (auto simp: append_eq_map_conv)
  have r: "coroutine ?r = Parked (receiver ty name n f thr [])" "pending name ?r = signals_sent name (visible False h)"
    "cursor_ok name ?r" "\<not> deadlocked ?r" "update_handlers ?r = Map.empty" "scan ?r = ScanHistory h"
    using new_runner_pending [of name E wi rep h "\<lambda>p. receiver ty name n f thr []" inp s0]
    by (simp_all add: assms(4) start_coroutine_def has_coroutine_def new_runner_def pending_def cursor_ok_def)
  have "last_event_id (scan ?r) = event_id (last h)" using assms(2) r(6) by (simp add: ScanHistory_split)
  with resume_receives [of ?r ty name n f thr "[]" us "event_id (last h)" b E] r vs(1) assms(3)
  obtain r1 where r1: "ResumeCoroutine E b ?r = Ok r1" "scan r1 = ScanHistory h" "receiving ty name n f thr (event_id (last h)) us r1"
    by auto
  have "post_update_timeline (scan r1) = timeline False h" using r1(2) by (simp add: ScanHistory_split)
  with reapply_receives [OF r1(3) vs(2) assms(3), of E] r1(1) vs(3) show ?thesis
    by (simp add: Run_def ReapplyHistoricalUpdates_def)
qed

text \<open>
  C16. The n-th \<^verbatim>\<open>Receive\<close> returns the n-th signal, live as on replay. A workflow receives \<open>n\<close> signals of one name and
  returns any function of their values. However its history is cut into tasks, the live run takes in each task
  the signals that have arrived, parks for the rest, and completes with the function of the first \<open>n\<close> signals in the order
  they were sent; and so does a replay of the whole history from scratch, also when accepted updates in it
  make the replay hold back the later signals. The events have increasing ids, the signals decode, at least
  \<open>n\<close> have arrived at the end, and the workflow registers no update handlers.
\<close>

theorem receives_live_as_on_replay:
  assumes "sorted_wrt (<) (map event_id (concat (h # hs)))" and "h \<noteq> []"
    and "map (Decode_signal ty) (signals_sent name (concat (h # hs))) = map Inr vs" and "n \<le> length vs" and "n + 2 \<le> b"
  shows "\<exists>rl rr. run_tasks E b hs (new_runner E wi False (ScanHistory h) (\<lambda>p. receiver ty name n f thr []) inp s0) = Ok rl
    \<and> status rl = Completed \<and> run_result rl = f (take n vs)
    \<and> Run E b (new_runner E wi True (ScanHistory (concat (h # hs))) (\<lambda>p. receiver ty name n f thr []) inp s0) = Ok rr
    \<and> status rr = Completed \<and> run_result rr = f (take n vs)"
proof -
  obtain us ws where vs: "map (Decode_signal ty) (signals_sent name h) = map Inr us"
    "map (Decode_signal ty) (signals_sent name (concat hs)) = map Inr ws" "vs = us @ ws"
    using assms(3) by (auto simp: append_eq_map_conv)
  from Run_receives [OF vs(1) assms(2,5) refl, of E wi False f thr inp s0] obtain r1 where
    r1: "Run E b (new_runner E wi False (ScanHistory h) (\<lambda>p. receiver ty name n f thr []) inp s0) = Ok r1"
      "receiving ty name n f thr (event_id (last h)) us r1" by blast
  have "sorted_wrt (<) (event_id (last h) # map event_id (concat hs))"
    using assms(1,2) by (auto simp: sorted_wrt_append)
  from continue_tasks_receives [OF r1(2) this vs(2) assms(5), of E] obtain rl l where
    rl: "continue_tasks E b hs r1 = Ok rl" "receiving ty name n f thr l vs rl" using vs(3) by auto
  have "concat (h # hs) \<noteq> []" using assms(2) by simp
  from Run_receives [OF assms(3) this assms(5) refl, of E wi True f thr inp s0] obtain rr where
    rr: "Run E b (new_runner E wi True (ScanHistory (concat (h # hs))) (\<lambda>p. receiver ty name n f thr []) inp s0) = Ok rr"
      "receiving ty name n f thr (event_id (last (concat (h # hs)))) vs rr" by blast
  from r1(1) rl rr assms(4) show ?thesis by (simp add: run_tasks_def receiving_def)
qed

text \<open>A history of three tasks with an accepted update between two signals.\<close>

definition greeted :: "HistoryEvent list list" where
  "greeted = [[\<lparr>event_id = 1, attrs = WorkflowExecutionStarted ''t'' [] Map.empty\<rparr>],
     [\<lparr>event_id = 2, attrs = WorkflowExecutionSignaled ''s'' []\<rparr>, \<lparr>event_id = 3, attrs = WorkflowExecutionUpdateAccepted ''u'' []\<rparr>],
     [\<lparr>event_id = 4, attrs = WorkflowExecutionSignaled ''s'' []\<rparr>]]"

theorem receives_live_as_on_replay_witness:
  "\<forall>E wi. \<exists>rl rr. run_tasks E 4 (tl greeted)
       (new_runner E wi False (ScanHistory (hd greeted)) (\<lambda>p. receiver text_type ''s'' 2 (\<lambda>xs. []) uncaught []) [] ()) = Ok rl
     \<and> status rl = Completed
     \<and> Run E 4 (new_runner E wi True (ScanHistory (concat greeted)) (\<lambda>p. receiver text_type ''s'' 2 (\<lambda>xs. []) uncaught []) [] ()) = Ok rr
     \<and> status rr = Completed"
proof (intro allI)
  fix E wi
  have g: "greeted = hd greeted # tl greeted" "hd greeted \<noteq> []" by (simp_all add: greeted_def)
  have s: "sorted_wrt (<) (map event_id (concat (hd greeted # tl greeted)))" by (simp add: greeted_def)
  have d: "map (Decode_signal text_type) (signals_sent ''s'' (concat (hd greeted # tl greeted))) = map Inr [[], []]"
    by (simp add: greeted_def Decode_signal_def text_type_def FromProtoPayloads_def)
  from receives_live_as_on_replay [OF s g(2) d, of 2 4 E wi "\<lambda>xs. []" uncaught "[]" "()"] g(1)
  show "\<exists>rl rr. run_tasks E 4 (tl greeted)
       (new_runner E wi False (ScanHistory (hd greeted)) (\<lambda>p. receiver text_type ''s'' 2 (\<lambda>xs. []) uncaught []) [] ()) = Ok rl
     \<and> status rl = Completed
     \<and> Run E 4 (new_runner E wi True (ScanHistory (concat greeted)) (\<lambda>p. receiver text_type ''s'' 2 (\<lambda>xs. []) uncaught []) [] ()) = Ok rr
     \<and> status rr = Completed" by auto
qed

end
