(* ===== verification/Typed_Api.thy ===== *)
theory Typed_Api
  imports Client Task_Sequence Nexus_Handler
begin

text \<open>
  The typed surface of the SDK: the templates of \<^verbatim>\<open>include/temporal/client/client.h\<close> that encode arguments
  and decode results around the payload calls of \<open>Client\<close>, and those of \<^verbatim>\<open>include/temporal/worker/worker.h\<close>
  that adapt typed activities and Nexus operations. Together with \<open>MakeWorkflowFn\<close> of \<open>Workflow_Api\<close> they give the
  path of a typed value from a client through the server to a workflow and back.

  A call ends with a value, with an error of the payload call, or with what the converter or \<^verbatim>\<open>at\<close> throws.
\<close>

datatype call_error = CallFailed client_error | ConversionThrew wf_error

type_synonym ('w, 'a) tio = "'w \<Rightarrow> (call_error + 'a) \<times> 'w"

definition call_io :: "('w, 'a) io \<Rightarrow> ('w, 'a) tio" where
  "call_io m w = (case m w of (Inl e, w') \<Rightarrow> (Inl (CallFailed e), w') | (Inr x, w') \<Rightarrow> (Inr x, w'))"

definition with_args :: "(wf_error + Payload) list \<Rightarrow> (Payloads \<Rightarrow> ('w, 'a) tio) \<Rightarrow> ('w, 'a) tio" where
  "with_args es f w = (case ToPayloads es of Inl e \<Rightarrow> (Inl (ConversionThrew e), w) | Inr ps \<Rightarrow> f ps w)"

text \<open>\<^verbatim>\<open>converter_->FromPayload<R>(payloads.at(0))\<close>, or nothing for a \<^verbatim>\<open>void\<close> result.\<close>

definition decode_first :: "'r typed \<Rightarrow> Payloads \<Rightarrow> call_error + 'r" where
  "decode_first ty ps = map_sum ConversionThrew id (and_then (payload_at ps 0) (from_payload ty))"

definition decode_io :: "(Payloads \<Rightarrow> call_error + 'r) \<Rightarrow> ('w, Payloads) tio \<Rightarrow> ('w, 'r) tio" where
  "decode_io d m w = (case m w of (Inl e, w') \<Rightarrow> (Inl e, w') | (Inr ps, w') \<Rightarrow> (d ps, w'))"

section \<open>Workflow handles\<close>

definition Result ::
  "(Payloads \<Rightarrow> call_error + 'r) \<Rightarrow> nat \<Rightarrow> (history_request, close_event list, 'w) stub \<Rightarrow> (Failure \<Rightarrow> wf_error) option
   \<Rightarrow> WorkflowHandle \<Rightarrow> 'w \<Rightarrow> ((call_error + 'r) \<times> WorkflowHandle \<times> 'w) option" where
  "Result d n stub fc h w =
     map_option (\<lambda>(res, h', w'). (case res of Inl e \<Rightarrow> Inl (CallFailed e) | Inr ps \<Rightarrow> d ps, h', w'))
       (ResultPayloads n stub fc h w)"

definition Query ::
  "(Payloads \<Rightarrow> call_error + 'r) \<Rightarrow> (query_request, proto_payload list, 'w) stub \<Rightarrow> WorkflowHandle \<Rightarrow> string
   \<Rightarrow> (wf_error + Payload) list \<Rightarrow> ('w, 'r) tio" where
  "Query d stub h query_type es = with_args es (\<lambda>ps. decode_io d (call_io (QueryPayloads stub h query_type ps)))"

definition Update ::
  "(Payloads \<Rightarrow> call_error + 'r) \<Rightarrow> string \<Rightarrow> (update_request, Failure + proto_payload list, 'w) stub \<Rightarrow> WorkflowHandle
   \<Rightarrow> string \<Rightarrow> (wf_error + Payload) list \<Rightarrow> ('w, 'r) tio" where
  "Update d uuid stub h update_name es =
     with_args es (\<lambda>ps. decode_io d (call_io (UpdatePayloads uuid stub h update_name ps)))"

definition Signal_args ::
  "string \<Rightarrow> string \<Rightarrow> (signal_request, unit, 'w) stub \<Rightarrow> WorkflowHandle \<Rightarrow> string \<Rightarrow> (wf_error + Payload) list \<Rightarrow> ('w, unit) tio" where
  "Signal_args identity uuid stub h signal_name es = with_args es (\<lambda>ps. call_io (Signal identity uuid stub h signal_name ps))"

section \<open>The client\<close>

definition StartWorkflow ::
  "Client \<Rightarrow> string \<Rightarrow> string \<Rightarrow> ('w client_outbound \<Rightarrow> 'w client_outbound option) list \<Rightarrow> (start_request, string, 'w) stub
   \<Rightarrow> StartWorkflowOptions \<Rightarrow> string \<Rightarrow> (wf_error + Payload) list \<Rightarrow> ('w, WorkflowHandle) tio" where
  "StartWorkflow c id_uuid request_uuid factories stub opts workflow_type es =
     with_args es (\<lambda>ps. call_io (StartWorkflowPayloads c id_uuid request_uuid factories stub opts workflow_type ps))"

definition SignalWithStartWorkflow ::
  "Client \<Rightarrow> string \<Rightarrow> string \<Rightarrow> (start_request, string, 'w) stub \<Rightarrow> StartWorkflowOptions \<Rightarrow> string \<Rightarrow> string
   \<Rightarrow> Payloads \<Rightarrow> (wf_error + Payload) list \<Rightarrow> ('w, WorkflowHandle) tio" where
  "SignalWithStartWorkflow c id_uuid request_uuid stub opts workflow_type signal_name signal_input es =
     with_args es (\<lambda>ps. call_io
       (SignalWithStartWorkflowPayloads c id_uuid request_uuid stub opts workflow_type signal_name signal_input ps))"

definition CompleteActivity ::
  "Client \<Rightarrow> (string \<times> string \<times> string \<times> proto_payload list option, unit, 'w) stub \<Rightarrow> string
   \<Rightarrow> (wf_error + Payload) list \<Rightarrow> ('w, unit) tio" where
  "CompleteActivity c stub token es = with_args es (\<lambda>ps. call_io (CompleteActivityPayloads c stub token ps))"

record ClusterDescription =
  cd_cluster_name :: string
  cd_cluster_id :: string
  cd_server_version :: string
  cd_history_shard_count :: int
  cd_persistence_store :: string
  cd_visibility_store :: string

text \<open>\<^verbatim>\<open>GetClusterInfo\<close> answers a message with these fields.\<close>

definition DescribeCluster :: "(unit, ClusterDescription, 'w) stub \<Rightarrow> ('w, ClusterDescription) io" where
  "DescribeCluster stub =
     io_map (\<lambda>resp. \<lparr>cd_cluster_name = cd_cluster_name resp, cd_cluster_id = cd_cluster_id resp,
         cd_server_version = cd_server_version resp, cd_history_shard_count = cd_history_shard_count resp,
         cd_persistence_store = cd_persistence_store resp, cd_visibility_store = cd_visibility_store resp\<rparr>)
       (rpc_call ''GetClusterInfo'' False
          \<lparr>cd_cluster_name = [], cd_cluster_id = [], cd_server_version = [], cd_history_shard_count = 0,
           cd_persistence_store = [], cd_visibility_store = []\<rparr> stub ())"

record WorkerDeploymentDescription =
  dd_name :: string
  dd_current_version_build_id :: string
  dd_ramping_version_build_id :: string
  dd_conflict_token :: string

text \<open>The response: the name, the two versions of the routing config (unset, or a build id), and the token.\<close>

definition DescribeWorkerDeployment ::
  "Client \<Rightarrow> (string \<times> string, string \<times> string option \<times> string option \<times> string, 'w) stub \<Rightarrow> string
   \<Rightarrow> ('w, WorkerDeploymentDescription) io" where
  "DescribeWorkerDeployment c stub name =
     io_map (\<lambda>(nm, current, ramping, token).
         \<lparr>dd_name = nm, dd_current_version_build_id = (case current of None \<Rightarrow> [] | Some b \<Rightarrow> b),
          dd_ramping_version_build_id = (case ramping of None \<Rightarrow> [] | Some b \<Rightarrow> b), dd_conflict_token = token\<rparr>)
       (rpc_call ''DescribeWorkerDeployment'' False ([], None, None, []) stub (c_ns c, name))"

section \<open>Adapters\<close>

text \<open>A typed activity in continuation form: it goes on with its value or with what it throws.\<close>

type_synonym ('v, 'r) act_member = "ActivityInfo \<Rightarrow> 'v list \<Rightarrow> ('r \<Rightarrow> act) \<Rightarrow> (wf_error \<Rightarrow> act) \<Rightarrow> act"

definition MakeActivityFn ::
  "(Payload \<Rightarrow> wf_error + 'v) list \<Rightarrow> ('r \<Rightarrow> wf_error + Payload) option \<Rightarrow> ('v, 'r) act_member \<Rightarrow> act_fn" where
  "MakeActivityFn ds ret fn ai ps =
     (case DecodeArgs ds ps of
        Inl e \<Rightarrow> ActThrow e
      | Inr args \<Rightarrow> fn ai args
          (\<lambda>x. case ret of
             None \<Rightarrow> ActReturn []
           | Some enc \<Rightarrow> (case enc x of Inl e \<Rightarrow> ActThrow e | Inr p \<Rightarrow> ActReturn [p]))
          ActThrow)"

text \<open>A Nexus operation has one argument and one result; a \<^verbatim>\<open>void\<close> one answers the empty payload.\<close>

definition MakeNexusOperationFn ::
  "(Payload \<Rightarrow> wf_error + 'v) \<Rightarrow> ('r \<Rightarrow> wf_error + Payload) option \<Rightarrow> ('v \<Rightarrow> wf_error + 'r) \<Rightarrow> nexus_fn" where
  "MakeNexusOperationFn dec ret fn p =
     and_then (dec p) (\<lambda>arg. and_then (fn arg)
       (\<lambda>x. case ret of None \<Rightarrow> Inr empty_payload | Some enc \<Rightarrow> enc x))"

section \<open>Further members of the contexts\<close>

definition Context_IsCancelled :: "(bool \<Rightarrow> 's body) \<Rightarrow> 's body" where
  "Context_IsCancelled k = Invoke DoIsCancelRequested (\<lambda>v. k (is_true v))"

definition Context_AwaitCancellation :: "(addr, 's) member" where
  "Context_AwaitCancellation k thr = Invoke DoAwaitCancellation (expect_future k thr)"

definition Context_CancelExternalWorkflow :: "string \<Rightarrow> (unit \<Rightarrow> 's body) \<Rightarrow> 's body" where
  "Context_CancelExternalWorkflow wid k = Invoke (DoCancelExternalWorkflow wid) (\<lambda>_. k ())"

definition Context_UpsertSearchAttributes :: "(string \<rightharpoonup> Payload) \<Rightarrow> (unit \<Rightarrow> 's body) \<Rightarrow> 's body" where
  "Context_UpsertSearchAttributes attributes k = Invoke (DoUpsertSearchAttributes attributes) (\<lambda>_. k ())"

definition Context_IsReplaying :: "(bool \<Rightarrow> 's body) \<Rightarrow> 's body" where
  "Context_IsReplaying k = Invoke DoIsReplaying (\<lambda>v. k (is_true v))"

text \<open>\<^verbatim>\<open>defer_completion\<close> of an activity's context: the activity goes on with its task token.\<close>

definition defer_completion :: "ActivityInfo \<Rightarrow> (string \<Rightarrow> act) \<Rightarrow> act" where
  "defer_completion ai k = ActSetWillCompleteAsync (k (ai_task_token ai))"

lemma run_act_keeps_async: "will_complete_async c \<Longrightarrow> will_complete_async (snd (run_act W a c))"
proof (induction a arbitrary: c)
  case (ActHeartbeat details k)
  obtain err c' where h: "RecordHeartbeat W details c = (err, c')" by fastforce
  then have "will_complete_async c'" using ActHeartbeat.prems
    by (auto simp: RecordHeartbeat_def Let_def split: if_splits sum.splits)
  with ActHeartbeat.IH [of "k err" c'] h show ?case by simp
qed auto

text \<open>
  An activity that defers its completion is completed by the client. Whatever the function does after
  it has taken its token, unless it throws, the worker answers nothing; and a client that completes the
  activity with that token sends the encoded result for exactly that task.
\<close>

theorem deferred_activity_completed_by_client:
  assumes "ah_activities h (at_activity_type t) = Some (\<lambda>ai ps. defer_completion ai (body ps))" and "ah_interceptors h = []"
    and "execute W h (\<lambda>ai ps. defer_completion ai (body ps)) t = (Inr res, c)" and "ToPayloads es = Inr ps"
  shows "Handle_activity W R h t = ([], None)
    \<and> CompleteActivity cl (\<lambda>q w. (RpcOk (), w @ [q])) (ai_task_token (activity_info h t)) es []
      = (Inr (), [(c_ns cl, at_token t, c_identity cl, payloads_or_unset ps)])"
proof -
  obtain a c0 where "run_act W a (c0\<lparr>will_complete_async := True\<rparr>) = (Inr res, c)"
    using assms(3)
    by (auto simp: execute_def assms(2) BuildActivityInboundChain_def RootActivityInbound_def defer_completion_def Let_def)
  then have "will_complete_async c" using run_act_keeps_async [of "c0\<lparr>will_complete_async := True\<rparr>" W a] by simp
  with assms(1,3,4) show ?thesis
    by (simp add: Handle_activity_def CompleteActivity_def with_args_def call_io_def CompleteActivityPayloads_def rpc_call_def
        activity_info_def)
qed

section \<open>Workflows written as coroutines\<close>

text \<open>
  \<^verbatim>\<open>workflow_task<R>\<close> (\<^verbatim>\<open>include/temporal/workflow/coro.h\<close>). The task starts at once and never suspends: an awaited
  future is taken by \<^verbatim>\<open>Get\<close> in \<^verbatim>\<open>await_resume\<close>, since \<^verbatim>\<open>await_ready\<close> and \<^verbatim>\<open>await_suspend\<close> are false. What it returns
  or throws is kept in its promise, and \<^verbatim>\<open>get\<close> hands it on. A promise starts with the value \<^verbatim>\<open>R{}\<close> and no error.
\<close>

record 'r promise_type =
  promise_value :: 'r
  promise_error :: "thrown option"

definition return_value :: "'r \<Rightarrow> 'r promise_type \<Rightarrow> 'r promise_type" where
  "return_value v pr = pr\<lparr>promise_value := v\<rparr>"

definition unhandled_exception :: "thrown \<Rightarrow> 'r promise_type \<Rightarrow> 'r promise_type" where
  "unhandled_exception e pr = pr\<lparr>promise_error := Some e\<rparr>"

definition task_get :: "'r promise_type \<Rightarrow> ('r, 's) member" where
  "task_get pr k thr = (case promise_error pr of Some e \<Rightarrow> thr e | None \<Rightarrow> k (promise_value pr))"

definition co_await :: "'v typed \<Rightarrow> addr \<Rightarrow> ('v, 's) member" where
  "co_await ty a = Future_Get ty a"

definition run_task :: "'r \<Rightarrow> ('r, 's) member \<Rightarrow> ('r promise_type \<Rightarrow> 's body) \<Rightarrow> 's body" where
  "run_task init code finished =
     (let pr = \<lparr>promise_value = init, promise_error = None\<rparr>
      in code (\<lambda>v. finished (return_value v pr)) (\<lambda>e. finished (unhandled_exception e pr)))"

definition MakeWorkflowFn_task ::
  "'r \<Rightarrow> (Payload \<Rightarrow> wf_error + 'v) list \<Rightarrow> ('r \<Rightarrow> wf_error + Payload) option \<Rightarrow> ('v list \<Rightarrow> ('r, 's) member)
   \<Rightarrow> Payloads \<Rightarrow> 's body" where
  "MakeWorkflowFn_task init ds ret fn ps =
     decoded_or (DecodeArgs ds ps)
       (\<lambda>args. run_task init (fn args) (\<lambda>pr. task_get pr (encode_result ret) uncaught)) uncaught"

text \<open>
  A coroutine workflow is the plain workflow with the same code: registering a function that returns
  a task gives the body that registering the same function directly gives, so its commands, its
  suspensions and its failures are the same, whatever the promise was initialised with.
\<close>

theorem coroutine_workflow_is_plain:
  "MakeWorkflowFn_task init ds ret fn = MakeWorkflowFn ds ret fn"
  by (simp add: fun_eq_iff MakeWorkflowFn_task_def MakeWorkflowFn_def run_task_def task_get_def
      return_value_def unhandled_exception_def Let_def)

section \<open>From the client to the workflow and back\<close>

text \<open>Every argument decodes from its own encoding.\<close>

definition args_roundtrip :: "(wf_error + Payload) list \<Rightarrow> 'v list \<Rightarrow> (Payload \<Rightarrow> wf_error + 'v) list \<Rightarrow> bool" where
  "args_roundtrip es vs ds \<longleftrightarrow> length vs = length ds \<and> list_all2 (\<lambda>e (v, dc). and_then e dc = Inr v) es (zip vs ds)"

lemma args_roundtrip_encode: "args_roundtrip es vs ds \<Longrightarrow> \<exists>ps. ToPayloads es = Inr ps"
proof -
  have "list_all2 (\<lambda>e (v, dc). and_then e dc = Inr v) es zs \<Longrightarrow> \<exists>ps. ToPayloads es = Inr ps" for zs :: "('v \<times> _) list"
    by (induction rule: list_all2_induct) (auto simp: and_then_Inr)
  then show "args_roundtrip es vs ds \<Longrightarrow> \<exists>ps. ToPayloads es = Inr ps" by (auto simp: args_roundtrip_def)
qed

lemma args_roundtrip_decode:
  assumes "args_roundtrip es vs ds" and "ToPayloads es = Inr ps"
  shows "DecodeArgs ds ps = Inr vs"
  using decode_from_encoded [of es vs ds ps "[]" "[]"] assms by (simp add: args_roundtrip_def DecodeArgs_def)

text \<open>
  What the start of a workflow relies on. \<open>sent\<close> reads the start requests the service has received off the state of
  the stub: the service answers each with a run id and keeps it. A client interceptor passes a call through when it calls
  the next one once, with the same input and a header of its choice, returns what that returns, and
  sends no start request itself.
\<close>

definition start_service :: "('w \<Rightarrow> start_request list) \<Rightarrow> string \<Rightarrow> (start_request, string, 'w) stub \<Rightarrow> bool" where
  "start_service sent rid stub \<longleftrightarrow> (\<forall>q s. \<exists>s'. stub q s = (RpcOk rid, s') \<and> sent s' = sent s @ [q])"

definition forwards :: "('w \<Rightarrow> start_request list) \<Rightarrow> 'w client_outbound \<Rightarrow> 'w client_outbound \<Rightarrow> bool" where
  "forwards sent next call \<longleftrightarrow>
     (\<forall>inp hd s. \<exists>hd' s1 s2. sent s1 = sent s \<and> next inp hd' s1 = (fst (call inp hd s), s2) \<and> sent (snd (call inp hd s)) = sent s2)"

definition passes_through :: "('w \<Rightarrow> start_request list) \<Rightarrow> ('w client_outbound \<Rightarrow> 'w client_outbound option) \<Rightarrow> bool" where
  "passes_through sent f \<longleftrightarrow> (\<forall>next call. f next = Some call \<longrightarrow> forwards sent next call)"

lemma forwards_refl: "forwards sent next next"
  unfolding forwards_def by (metis prod.collapse)

lemma forwards_trans:
  assumes "forwards sent a b" and "forwards sent b c"
  shows "forwards sent a c"
  unfolding forwards_def
proof (intro allI)
  fix inp hd s
  obtain hd' s1 s2 where b: "sent s1 = sent s" "b inp hd' s1 = (fst (c inp hd s), s2)" "sent (snd (c inp hd s)) = sent s2"
    using assms(2) unfolding forwards_def by blast
  obtain hd'' s3 s4 where "sent s3 = sent s1" "a inp hd'' s3 = (fst (b inp hd' s1), s4)" "sent (snd (b inp hd' s1)) = sent s4"
    using assms(1) unfolding forwards_def by blast
  with b show "\<exists>hd' s1 s2. sent s1 = sent s \<and> a inp hd' s1 = (fst (c inp hd s), s2) \<and> sent (snd (c inp hd s)) = sent s2" by auto
qed

lemma chain_forwards: "list_all (passes_through sent) fs \<Longrightarrow> forwards sent next (build_chain_loop fs next)"
proof (induction fs arbitrary: "next")
  case (Cons f fs)
  let ?n = "case f next of Some wrapper \<Rightarrow> wrapper | None \<Rightarrow> next"
  have "forwards sent next ?n" using Cons.prems by (auto simp: passes_through_def forwards_refl split: option.split)
  with Cons.IH [of ?n] Cons.prems forwards_trans show ?case by fastforce
qed (simp add: forwards_refl)

definition input_of :: "start_request \<Rightarrow> proto_payload list" where
  "input_of q = (case st_input q of None \<Rightarrow> [] | Some p \<Rightarrow> p)"

lemma do_start_request:
  "\<exists>q. do_start c u stub wid inp hdr = rpc_call ''StartWorkflowExecution'' False [] stub q
     \<and> st_workflow_type q = si_workflow_type inp \<and> FromProtoPayloads (input_of q) = si_args inp"
  unfolding do_start_def by (rule exI, rule conjI, rule refl) (simp add: input_of_def payloads_or_unset_def)

lemma StartWorkflow_sends:
  assumes "start_service sent rid stub" and "list_all (passes_through sent) ics"
    and "StartWorkflow c u1 u2 ics stub opts type es s = (Inr h, s')"
  shows "\<exists>q. sent s' = sent s @ [q] \<and> ToPayloads es = Inr (FromProtoPayloads (input_of q)) \<and> st_workflow_type q = type \<and> wh_run_id h = rid"
proof (cases "ToPayloads es")
  case (Inr ps)
  let ?start = "do_start c u2 stub (start_id u1 opts)" and ?wid = "start_id u1 opts"
  let ?inp = "\<lparr>si_workflow_type = type, si_options = opts\<lparr>sw_id := ?wid\<rparr>, si_args = ps\<rparr>"
  let ?chain = "BuildClientOutboundChain ics ?start"
  have run: "fst (?chain ?inp (sw_headers opts) s) = Inr (wh_run_id h)" "snd (?chain ?inp (sw_headers opts) s) = s'"
    using assms(3) Inr by (auto simp: StartWorkflow_def with_args_def call_io_def StartWorkflowPayloads_def io_map_def GetHandle_def Let_def
        split: prod.splits sum.splits)
  have "forwards sent ?start ?chain"
    unfolding BuildClientOutboundChain_def using assms(2) by (intro chain_forwards) simp
  then obtain hd' s1 s2 where st: "sent s1 = sent s" "?start ?inp hd' s1 = (Inr (wh_run_id h), s2)" "sent s' = sent s2"
    unfolding forwards_def run(1) [symmetric] run(2) [symmetric] by blast
  obtain q where q: "?start ?inp hd' = rpc_call ''StartWorkflowExecution'' False [] stub q" "st_workflow_type q = type"
    "FromProtoPayloads (input_of q) = ps"
    using do_start_request [of c u2 stub ?wid ?inp hd'] by auto
  obtain s3 where "stub q s1 = (RpcOk rid, s3)" "sent s3 = sent s1 @ [q]" using assms(1) unfolding start_service_def by blast
  with st q Inr show ?thesis by (auto simp: rpc_call_def)
qed (use assms in \<open>simp add: StartWorkflow_def with_args_def\<close>)

text \<open>
  C3. A typed value travels from the client to the workflow and back. A client, with interceptors that pass
  the call through, starts a workflow with typed arguments; the service records the request as the first
  event of a history; a worker runs the registered typed function on it over any number of tasks, in each of
  which new events are applied; the function may make any calls and returns \<open>x\<close> in the last one. If every argument
  decodes from its encoding and so does the result, the function is called with exactly the client's
  arguments, the run ends in one completion command, and the result of the client's handle, from a
  service whose answers lead to a close event with that command's payloads, is \<open>x\<close>.
\<close>

theorem typed_workflow_end_to_end:
  assumes svc: "start_service sent rid stub" and ics: "list_all (passes_through sent) ics"
    and start: "StartWorkflow c u1 u2 ics stub opts type es s = (Inr h, s')" "sent s' = sent s @ [q]"
    and args: "args_roundtrip es vs ds"
    and ev: "attrs ev = WorkflowExecutionStarted (st_workflow_type q) (input_of q) (st_header q)"
    and r: "r = new_runner E wi False (ScanHistory [ev]) (MakeWorkflowFn ds (Some (to_payload rty)) fn) (ps_input (ScanHistory [ev])) s0"
    and fn: "returns_over E n (encode_result (Some (to_payload rty))) x (fn vs (encode_result (Some (to_payload rty))) uncaught)
      hs (start_coroutine r)"
    and codec: "to_payload rty x = Inr p" "from_payload rty p = Inr x"
  shows "\<exists>r' out. run_tasks E n hs r = Ok r' \<and> terminal_commands r' = [CmdCompleteWorkflowExecution (Some out)]
    \<and> (\<forall>service w m h' w'. completes_with service h w m out h' w'
         \<longrightarrow> Result (decode_first rty) m service fc h w = Some (Inr x, h', w'))"
proof -
  have sent: "ToPayloads es = Inr (FromProtoPayloads (input_of q))"
    using StartWorkflow_sends [OF svc ics start(1)] start(2) by auto
  have scan: "ps_input (ScanHistory [ev]) = FromProtoPayloads (input_of q)" "post_update_timeline (ScanHistory [ev]) = []"
    by (simp_all add: ScanHistory_split ev empty_prescan_def)
  have "workflow_fn r (input r) = fn vs (encode_result (Some (to_payload rty))) uncaught"
    using args_roundtrip_decode [OF args sent] by (simp add: r new_runner_def MakeWorkflowFn_def decoded_or_def scan)
  moreover have "coroutine r = NoCoroutine" "post_update_timeline (scan r) = []" "commands r = []" "produced_commands r = []"
    by (simp_all add: r new_runner_def scan)
  moreover have "encode_result (Some (to_payload rty)) x = Finish (Returned [p])" by (simp add: encode_result_def codec(1))
  ultimately obtain r' where "run_tasks E n hs r = Ok r'" "status r' = Completed" "run_result r' = [p]"
    using run_tasks_returns [of r E n _ x hs "[p]"] fn by metis
  moreover from this have "terminal_commands r' = [CmdCompleteWorkflowExecution (Some (ToProtoPayloads [p]))]"
    by (simp add: terminal_commands_def payloads_or_unset_def)
  moreover have "Result (decode_first rty) m service fc h w = Some (Inr x, h', w')"
    if "completes_with service h w m (ToProtoPayloads [p]) h' w'" for service w m h' w'
    using completion_is_returned [OF that order.refl] by (simp add: Result_def decode_first_def payload_at_def codec(2))
  ultimately show ?thesis by blast
qed

text \<open>
  A service that keeps each start request, an interceptor that adds a header, and a workflow that parks once.
\<close>

definition recorder :: "string \<Rightarrow> (start_request, string, start_request list) stub" where
  "recorder rid q w = (RpcOk rid, w @ [q])"

definition with_header :: "string \<Rightarrow> Payload \<Rightarrow> 'w client_outbound \<Rightarrow> 'w client_outbound option" where
  "with_header key p next = Some (\<lambda>inp hd. next inp (hd(key \<mapsto> p)))"

definition greeter :: "string list \<Rightarrow> (string, unit) member" where
  "greeter vs k thr = Invoke DoPark (\<lambda>_. k (''oh '' @ hd vs))"

lemma recorder_laws: "start_service (\<lambda>w. w) rid (recorder rid)" "passes_through sent (with_header key p)"
  unfolding start_service_def recorder_def passes_through_def with_header_def forwards_def
  by (auto, metis prod.collapse)

theorem typed_workflow_end_to_end_witness:
  "\<forall>E wi c opts. \<exists>h q r' out.
     StartWorkflow c ''u'' ''v'' [with_header ''k'' empty_payload] (recorder ''run'') opts ''greet'' [to_payload text_type ''hi''] [] = (Inr h, [q])
   \<and> run_tasks E 3 [[\<lparr>event_id = 2, attrs = OtherEvent\<rparr>]]
        (new_runner E wi False (ScanHistory [\<lparr>event_id = 1, attrs = WorkflowExecutionStarted (st_workflow_type q) (input_of q) (st_header q)\<rparr>])
          (MakeWorkflowFn [from_payload text_type] (Some (to_payload text_type)) greeter)
          (ps_input (ScanHistory [\<lparr>event_id = 1, attrs = WorkflowExecutionStarted (st_workflow_type q) (input_of q) (st_header q)\<rparr>])) ()) = Ok r'
   \<and> terminal_commands r' = [CmdCompleteWorkflowExecution (Some out)]
   \<and> Result (decode_first text_type) 1 (\<lambda>q w. (RpcOk [CloseCompleted out], w)) None h () = Some (Inr ''oh hi'', h, ())"
proof (intro allI)
  fix E wi c opts
  let ?es = "[to_payload text_type ''hi'']" and ?ds = "[from_payload text_type]" and ?ics = "[with_header ''k'' empty_payload]"
  have "\<exists>h q. StartWorkflow c ''u'' ''v'' ?ics (recorder ''run'') opts ''greet'' ?es [] = (Inr h, [q])"
    by (simp add: StartWorkflow_def with_args_def call_io_def StartWorkflowPayloads_def BuildClientOutboundChain_def with_header_def
        do_start_def io_map_def rpc_call_def recorder_def text_type_def Let_def)
  then obtain h q where q: "StartWorkflow c ''u'' ''v'' ?ics (recorder ''run'') opts ''greet'' ?es [] = (Inr h, [q])" by blast
  let ?ev = "\<lparr>event_id = 1, attrs = WorkflowExecutionStarted (st_workflow_type q) (input_of q) (st_header q)\<rparr>"
  let ?r = "new_runner E wi False (ScanHistory [?ev]) (MakeWorkflowFn ?ds (Some (to_payload text_type)) greeter) (ps_input (ScanHistory [?ev])) ()"
  have ics: "list_all (passes_through (\<lambda>w. w)) ?ics" by (simp add: recorder_laws)
  have sent: "[q] = [] @ [q]" by simp
  have ev: "attrs ?ev = WorkflowExecutionStarted (st_workflow_type q) (input_of q) (st_header q)" by simp
  have rt: "args_roundtrip ?es [''hi''] ?ds" by (simp add: args_roundtrip_def text_type_def)
  let ?k = "encode_result (Some (to_payload text_type)) :: string \<Rightarrow> unit body"
  have fn: "returns_over E 3 ?k ''oh hi'' (greeter [''hi''] ?k uncaught) [[\<lparr>event_id = 2, attrs = OtherEvent\<rparr>]] (start_coroutine ?r)"
    by (auto simp: greeter_def eval_nat_numeral encode_result_def text_type_def)
  have p: "to_payload text_type ''oh hi'' = Inr \<lparr>metadata = Map.empty, pdata = ''oh hi''\<rparr>"
    "from_payload text_type \<lparr>metadata = Map.empty, pdata = ''oh hi''\<rparr> = Inr ''oh hi''" by (simp_all add: text_type_def)
  have "\<exists>r' out. run_tasks E 3 [[\<lparr>event_id = 2, attrs = OtherEvent\<rparr>]] ?r = Ok r'
    \<and> terminal_commands r' = [CmdCompleteWorkflowExecution (Some out)]
    \<and> (\<forall>service (w :: unit) m h' w'. completes_with service h w m out h' w'
         \<longrightarrow> Result (decode_first text_type) m service None h w = Some (Inr ''oh hi'', h', w'))"
    by (rule typed_workflow_end_to_end [OF recorder_laws(1) ics q sent rt ev refl fn p])
  then obtain r' out where res: "run_tasks E 3 [[\<lparr>event_id = 2, attrs = OtherEvent\<rparr>]] ?r = Ok r'"
    "terminal_commands r' = [CmdCompleteWorkflowExecution (Some out)]"
    "\<And>service (w :: unit) m h' w'. completes_with service h w m out h' w'
       \<Longrightarrow> Result (decode_first text_type) m service None h w = Some (Inr ''oh hi'', h', w')" by blast
  have "completes_with (\<lambda>q w. (RpcOk [CloseCompleted out], w)) h () 1 out h ()"
    using completes_with.completed [of "\<lambda>q w. (RpcOk [CloseCompleted out], w)" h "()" out "[]" "()"] by simp
  from q res(1,2) res(3) [OF this] show "\<exists>h q r' out.
     StartWorkflow c ''u'' ''v'' [with_header ''k'' empty_payload] (recorder ''run'') opts ''greet'' [to_payload text_type ''hi''] [] = (Inr h, [q])
   \<and> run_tasks E 3 [[\<lparr>event_id = 2, attrs = OtherEvent\<rparr>]]
        (new_runner E wi False (ScanHistory [\<lparr>event_id = 1, attrs = WorkflowExecutionStarted (st_workflow_type q) (input_of q) (st_header q)\<rparr>])
          (MakeWorkflowFn [from_payload text_type] (Some (to_payload text_type)) greeter)
          (ps_input (ScanHistory [\<lparr>event_id = 1, attrs = WorkflowExecutionStarted (st_workflow_type q) (input_of q) (st_header q)\<rparr>])) ()) = Ok r'
   \<and> terminal_commands r' = [CmdCompleteWorkflowExecution (Some out)]
   \<and> Result (decode_first text_type) 1 (\<lambda>q w. (RpcOk [CloseCompleted out], w)) None h () = Some (Inr ''oh hi'', h, ())"
    by blast
qed

end
