(* ===== verification/Worker_Facade.thy ===== *)
theory Worker_Facade
  imports Worker_Lifecycle Typed_Api
begin

text \<open>
  What a program that uses the SDK calls: \<^verbatim>\<open>worker::Worker\<close> (\<^verbatim>\<open>include/temporal/worker/worker.h\<close>,
  \<^verbatim>\<open>src/worker/worker.cpp\<close>) in front of \<open>WorkerImpl\<close>, its typed registrations, and \<^verbatim>\<open>WorkerImpl::Run\<close>. The last
  section follows a typed activity call from the workflow to a worker and back.

  A \<^verbatim>\<open>Worker\<close> is its \<^verbatim>\<open>impl_\<close>; it is \<open>None\<close> after a move, and a call on it then goes through a null pointer, which
  is the value \<open>None\<close> of the call.
\<close>

section \<open>The facade\<close>

type_synonym 's Worker = "'s WorkerImpl option"

definition Worker_new ::
  "string \<Rightarrow> string \<Rightarrow> Client \<Rightarrow> (wf_error \<Rightarrow> Failure) option \<Rightarrow> string \<Rightarrow> worker_config \<Rightarrow> 's Worker" where
  "Worker_new uuid1 uuid2 c fc tq opts = Some (new_worker uuid1 uuid2 (c_ns c) (c_identity c) fc tq opts)"

text \<open>Move construction: the new worker and what is left of the old one.\<close>

definition Worker_move :: "'s Worker \<Rightarrow> 's Worker \<times> 's Worker" where
  "Worker_move w = (w, None)"

definition RegisterWorkflowFn :: "string \<Rightarrow> 's \<times> (Payloads \<Rightarrow> 's body) \<Rightarrow> 's Worker \<Rightarrow> 's Worker" where
  "RegisterWorkflowFn name fn = map_option (RegisterWorkflow name fn)"

definition RegisterActivityFn :: "string \<Rightarrow> act_fn \<Rightarrow> 's Worker \<Rightarrow> 's Worker" where
  "RegisterActivityFn name fn = map_option (RegisterActivity name fn)"

definition RegisterNexusOperationFn :: "string \<Rightarrow> string \<Rightarrow> nexus_fn \<Rightarrow> 's Worker \<Rightarrow> 's Worker" where
  "RegisterNexusOperationFn service operation fn = map_option (RegisterNexusOperation service operation fn)"

text \<open>The templates; the decoders of the parameters stand for the signature of the function.\<close>

definition RegisterWorkflow_typed ::
  "string \<Rightarrow> (Payload \<Rightarrow> wf_error + 'v) list \<Rightarrow> ('r \<Rightarrow> wf_error + Payload) option \<Rightarrow> 's \<Rightarrow> ('v list \<Rightarrow> ('r, 's) member)
   \<Rightarrow> 's Worker \<Rightarrow> 's Worker" where
  "RegisterWorkflow_typed name ds ret s0 fn = RegisterWorkflowFn name (s0, MakeWorkflowFn ds ret fn)"

definition RegisterActivity_typed ::
  "string \<Rightarrow> (Payload \<Rightarrow> wf_error + 'v) list \<Rightarrow> ('r \<Rightarrow> wf_error + Payload) option \<Rightarrow> ('v, 'r) act_member \<Rightarrow> 's Worker \<Rightarrow> 's Worker" where
  "RegisterActivity_typed name ds ret fn = RegisterActivityFn name (MakeActivityFn ds ret fn)"

definition RegisterNexusOperation_typed ::
  "string \<Rightarrow> string \<Rightarrow> (Payload \<Rightarrow> wf_error + 'v) \<Rightarrow> ('r \<Rightarrow> wf_error + Payload) option \<Rightarrow> ('v \<Rightarrow> wf_error + 'r) \<Rightarrow> 's Worker \<Rightarrow> 's Worker" where
  "RegisterNexusOperation_typed service operation dec ret fn =
     RegisterNexusOperationFn service operation (MakeNexusOperationFn dec ret fn)"

definition Worker_Start :: "string typed \<Rightarrow> 's Worker \<Rightarrow> 's Worker" where
  "Worker_Start str = map_option (Start str)"

definition Worker_Stop :: "(ConcurrencyGate \<Rightarrow> bool) \<Rightarrow> 's Worker \<Rightarrow> (bool \<times> 's WorkerImpl) option" where
  "Worker_Stop in_time = map_option (Stop in_time)"

definition Worker_ReplayWorkflowHistory ::
  "(string \<Rightarrow> string + HistoryEvent list) \<Rightarrow> env \<Rightarrow> gateway \<Rightarrow> nat \<Rightarrow> string \<Rightarrow> 's Worker \<Rightarrow> wf_error option flow option" where
  "Worker_ReplayWorkflowHistory parse_json E gw n text = map_option (ReplayWorkflowHistory parse_json E gw n text)"

definition Worker_cache_hits :: "'s Worker \<Rightarrow> nat option" where
  "Worker_cache_hits = map_option (\<lambda>w. cache_hits (w_workflow_handler w))"

definition Worker_replays :: "'s Worker \<Rightarrow> nat option" where
  "Worker_replays = map_option (\<lambda>w. replays (w_workflow_handler w))"

text \<open>A typed handle binds the name of an activity to its function; it registers and is called under that name.\<close>

record ('v, 'r) ActivityRef =
  ref_name :: string
  ref_decoders :: "(Payload \<Rightarrow> wf_error + 'v) list"
  ref_result :: "'r typed"
  ref_function :: "('v, 'r) act_member"

definition Register_ref :: "('v, 'r) ActivityRef \<Rightarrow> 's Worker \<Rightarrow> 's Worker" where
  "Register_ref ref = RegisterActivity_typed (ref_name ref) (ref_decoders ref) (Some (to_payload (ref_result ref))) (ref_function ref)"

definition ExecuteActivity_ref :: "ActivityOptions \<Rightarrow> ('v, 'r) ActivityRef \<Rightarrow> (wf_error + Payload) list \<Rightarrow> (addr, 's) member" where
  "ExecuteActivity_ref opts ref es = ExecuteActivity_ctx opts (ref_name ref) es"

section \<open>Run\<close>

text \<open>
  The loop of \<^verbatim>\<open>Run\<close>: \<open>stop i\<close> and \<open>interrupted i\<close> are what its \<open>i\<close>-th test reads of \<^verbatim>\<open>stop_\<close> and of the process-wide
  \<^verbatim>\<open>g_interrupted\<close>, which a signal sets and nothing resets. It gives the test at which it left; \<open>None\<close> is a loop
  still sleeping after \<open>n\<close> tests.
\<close>

primrec run_loop :: "nat \<Rightarrow> (nat \<Rightarrow> bool) \<Rightarrow> (nat \<Rightarrow> bool) \<Rightarrow> nat \<Rightarrow> nat option" where
  "run_loop 0 stop interrupted i = None"
| "run_loop (Suc n) stop interrupted i =
     (if \<not> stop i \<and> \<not> interrupted i then run_loop n stop interrupted (Suc i) else Some i)"

definition Worker_Run ::
  "nat \<Rightarrow> (nat \<Rightarrow> bool) \<Rightarrow> (nat \<Rightarrow> bool) \<Rightarrow> (ConcurrencyGate \<Rightarrow> bool) \<Rightarrow> string typed \<Rightarrow> 's WorkerImpl
   \<Rightarrow> (nat \<times> bool \<times> 's WorkerImpl) option" where
  "Worker_Run n stop interrupted in_time str w =
     (let w' = Start str w
      in map_option (\<lambda>i. (i, Stop in_time w')) (run_loop n (\<lambda>i. w_stop w' \<or> stop i) interrupted 0))"

lemma run_loop_Some:
  "run_loop n stop interrupted i = Some j \<longleftrightarrow>
     i \<le> j \<and> j < i + n \<and> (stop j \<or> interrupted j) \<and> (\<forall>l. i \<le> l \<and> l < j \<longrightarrow> \<not> stop l \<and> \<not> interrupted l)"
proof (induction n arbitrary: i)
  case (Suc n)
  show ?case
  proof (cases "stop i \<or> interrupted i")
    case True
    then show ?thesis by (auto intro: le_less_trans dest: le_neq_implies_less)
  next
    case False
    with Suc [of "Suc i"] show ?thesis by (auto simp: Suc_le_eq less_Suc_eq_le dest: le_neq_implies_less)
  qed
qed simp

text \<open>\<^verbatim>\<open>Run\<close> returns at the first test that sees either flag, and at no other.\<close>

lemma Run_returns_at_first:
  assumes "w_stop (Start str w) \<or> stop j \<or> interrupted j" and "\<forall>l < j. \<not> w_stop (Start str w) \<and> \<not> stop l \<and> \<not> interrupted l"
  shows "Worker_Run (Suc j) stop interrupted t str w = Some (j, Stop t (Start str w))"
  using assms run_loop_Some [of "Suc j" "\<lambda>i. w_stop (Start str w) \<or> stop i" interrupted 0 j]
  by (auto simp: Worker_Run_def Let_def)

lemma Start_started: "w_started (Start str w)"
  by (simp add: start_defs)

text \<open>
  A stopped worker cannot be started again. Whatever is registered with it, \<^verbatim>\<open>Start\<close> after \<^verbatim>\<open>Stop\<close> creates no
  poll loop, because \<^verbatim>\<open>started_\<close> stays set, and \<^verbatim>\<open>Run\<close> leaves at its first test, because \<^verbatim>\<open>stop_\<close> does; a worker
  stopped before its first start creates its loops but with the stop flag already set. None of the
  calls reports it.
\<close>

theorem stopped_worker_never_polls:
  assumes "w' = snd (Stop t w)"
  shows "w_stop (Start str w') \<and> (w_started w \<longrightarrow> w_threads (Start str w') = [])
    \<and> (\<forall>n stop interrupted t'. Worker_Run (Suc n) stop interrupted t' str w' = Some (0, Stop t' (Start str w')))"
proof -
  have s: "w_stop (Start str w')" using assms by (auto simp: Stop_def start_defs)
  moreover have "w_threads (Start str w') = []" if "w_started w" using assms that by (simp add: Stop_def Start_def Let_def)
  moreover have "Worker_Run (Suc n) stop interrupted t' str w' = Some (0, Stop t' (Start str w'))" for n stop interrupted t'
    using s by (simp add: Worker_Run_def Let_def)
  ultimately show ?thesis by blast
qed

theorem stopped_worker_never_polls_witness:
  "w_threads (Start text_type (snd (Stop (\<lambda>g. True) (Start text_type
     (new_worker ''1'' ''2'' ''ns'' ''me'' None ''q'' plain_options :: unit WorkerImpl))))) = []"
  using stopped_worker_never_polls [OF refl, of text_type "\<lambda>g. True" "Start text_type
     (new_worker ''1'' ''2'' ''ns'' ''me'' None ''q'' plain_options :: unit WorkerImpl)"]
  by (simp add: Start_started)

section \<open>A typed activity call\<close>

text \<open>The activity, called on \<open>vs\<close>, returns \<open>x\<close> after whatever it does with its context, and does not defer completion.\<close>

definition act_returns :: "act_world \<Rightarrow> ('v, 'r) act_member \<Rightarrow> 'v list \<Rightarrow> 'r \<Rightarrow> bool" where
  "act_returns W fn vs x \<longleftrightarrow>
     (\<forall>ai c. \<exists>c'. (\<forall>k. run_act W (fn ai vs k ActThrow) c = run_act W (k x) c') \<and> will_complete_async c' = will_complete_async c)"

lemma typed_activity_runs:
  assumes "act_returns W fn vs x" and "DecodeArgs ds ps = Inr vs" and "enc x = Inr p"
  shows "\<exists>c'. run_act W (MakeActivityFn ds (Some enc) fn ai ps) c = (Inr [p], c') \<and> will_complete_async c' = will_complete_async c"
proof -
  obtain c' where c': "\<And>k. run_act W (fn ai vs k ActThrow) c = run_act W (k x) c'" "will_complete_async c' = will_complete_async c"
    using assms(1) unfolding act_returns_def by blast
  show ?thesis
    using c'(1) [of "\<lambda>x. case enc x of Inl e \<Rightarrow> ActThrow e | Inr p \<Rightarrow> ActReturn [p]"] c'(2) assms(2,3)
    by (simp add: MakeActivityFn_def)
qed

lemma typed_activity_answered:
  assumes "act_returns W fn vs x" and "DecodeArgs ds (FromProtoPayloads (at_input t)) = Inr vs" and "enc x = Inr p"
    and "ah_activities h (at_activity_type t) = Some (MakeActivityFn ds (Some enc) fn)" and "ah_interceptors h = []"
    and "completed_rpc R = None"
  shows "Handle_activity W R h t = ([RespondActivityTaskCompleted (at_token t) (Some (ToProtoPayloads [p]))], None)"
proof -
  obtain c' where "execute W h (MakeActivityFn ds (Some enc) fn) t = (Inr [p], c')" "\<not> will_complete_async c'"
    using typed_activity_runs [of W fn vs x ds "FromProtoPayloads (at_input t)" enc p] assms(1-3,5)
    by (fastforce simp: execute_def BuildActivityInboundChain_def RootActivityInbound_def new_context_def Let_def)
  with assms(4,6) show ?thesis by (simp add: Handle_activity_def)
qed

lemma exec_typed_activity_call:
  assumes "\<not> activity_known (scan r) (nat_to_string (activity_seq r))" and "ToPayloads es = Inr ps"
  shows "\<exists>r1 hdr. heap r1 = heap r @ [new_future OpActivity (nat_to_string (activity_seq r))]
    \<and> activity_futures r1 (nat_to_string (activity_seq r)) = Some (length (heap r))
    \<and> commands r1 = commands r @ [CmdScheduleActivityTask
        (activity_attributes (info r) (nat_to_string (activity_seq r)) type ps opts hdr)]
    \<and> (\<forall>m. exec E (m + 2) (ExecuteActivity_ctx opts type es (\<lambda>a. co_await rty a k thr) thr) r
        = (Suspended (Future_Get rty (length (heap r)) k thr), r1))"
proof -
  obtain r1 where st: "ScheduleActivity E type ps opts r = (length (heap r), r1)"
    and h: "heap r1 = heap r @ [new_future OpActivity (nat_to_string (activity_seq r))]"
      "activity_futures r1 (nat_to_string (activity_seq r)) = Some (length (heap r))"
      "commands r1 = commands r @ [CmdScheduleActivityTask
        (activity_attributes (info r) (nat_to_string (activity_seq r)) type ps opts (outbound_header E type opts ps r))]"
    using ScheduleActivity_sent [OF assms(1), of E type ps opts] by auto
  have "exec E (Suc m) (ExecuteActivity_ctx opts type es (\<lambda>a. co_await rty a k thr) thr) r
      = exec E m (Future_Get rty (length (heap r)) k thr) r1" for m
    using st by (simp add: ExecuteActivity_ctx_def assms(2) decoded_or_def expect_future_def co_await_def)
  then show ?thesis
    using h exec_Get_state_waits [of r1 "length (heap r)" E]
    by (intro exI [of _ r1] exI [of _ "outbound_header E type opts ps r"]) (simp add: Future_Get_def new_future_def del: exec.simps)
qed

text \<open>
  C2. A typed activity call returns what the activity returns. A workflow that executes an activity with
  typed arguments and awaits its result sends one command and parks; a worker with the typed
  function registered under that name, given the task the server makes of the command, calls the
  function with exactly those arguments and answers with one completion; and when that answer is back in
  history the workflow goes on with the value the function returned.
\<close>

theorem typed_activity_end_to_end:
  assumes args: "args_roundtrip es vs ds" and fresh: "\<not> activity_known (scan r) (nat_to_string (activity_seq r))"
    and reg: "RegisterActivity_typed name ds (Some (to_payload rty)) fn (Some w0) = Some w" "ah_interceptors (w_activity_handler w0) = []"
    and fn: "act_returns W fn vs x" and codec: "to_payload rty x = Inr p" "from_payload rty p = Inr x"
    and rpc: "completed_rpc R = None"
  shows "\<exists>cmd res b r1. commands r1 = commands r @ [CmdScheduleActivityTask cmd]
    \<and> (\<forall>m. exec E (m + 2) (ExecuteActivity_ctx opts name es (\<lambda>a. co_await rty a k thr) thr) r = (Suspended b, r1))
    \<and> (\<forall>t. at_activity_type t = sa_activity_type cmd \<and> at_input t = (case sa_input cmd of None \<Rightarrow> [] | Some i \<Rightarrow> i) \<longrightarrow>
          Handle_activity W R (activity_handler_now str w) t = ([RespondActivityTaskCompleted (at_token t) (Some res)], None))
    \<and> (\<forall>m. let r' = ApplyEventToState \<lparr>event_id = eid2, attrs = ActivityEv (ActivityTaskCompleted eid res)\<rparr>
              (ApplyEventToState \<lparr>event_id = eid, attrs = ActivityEv (ActivityTaskScheduled (sa_activity_id cmd) name)\<rparr> r1)
           in exec E (m + 2) b r' = exec E m (k x) r')"
proof -
  let ?a = "length (heap r)" and ?i = "nat_to_string (activity_seq r)" and ?h = "activity_handler_now str w"
  obtain ps where ps: "ToPayloads es = Inr ps" using args_roundtrip_encode [OF args] by blast
  note vs = args_roundtrip_decode [OF args ps]
  obtain r1 hdr where h: "heap r1 = heap r @ [new_future OpActivity ?i]" "activity_futures r1 ?i = Some ?a"
    and cmd: "commands r1 = commands r @ [CmdScheduleActivityTask (activity_attributes (info r) ?i name ps opts hdr)]"
    and park: "\<And>m. exec E (m + 2) (ExecuteActivity_ctx opts name es (\<lambda>a. co_await rty a k thr) thr) r
      = (Suspended (Future_Get rty ?a k thr), r1)"
    using exec_typed_activity_call [OF fresh ps, of name opts E rty k thr] by blast
  have inp: "FromProtoPayloads (case sa_input (activity_attributes (info r) ?i name ps opts hdr) of None \<Rightarrow> [] | Some i \<Rightarrow> i) = ps"
    by (simp add: activity_attributes_def payloads_or_unset_def)
  have "ah_activities ?h name = Some (MakeActivityFn ds (Some (to_payload rty)) fn)" "ah_interceptors ?h = []"
    using reg by (auto simp: RegisterActivity_typed_def RegisterActivityFn_def RegisterActivity_def Register_activity_def
        activity_handler_now_def map_add_def Let_def)
  then have answer: "Handle_activity W R ?h t = ([RespondActivityTaskCompleted (at_token t) (Some (ToProtoPayloads [p]))], None)"
    if "at_activity_type t = name" "FromProtoPayloads (at_input t) = ps" for t
    using typed_activity_answered [of W fn vs x ds t "to_payload rty" p ?h R] fn codec(1) rpc that vs by simp
  have resume: "exec E (m + 2) (Future_Get rty ?a k thr) r' = exec E m (k x) r'"
    if "r' = ApplyEventToState \<lparr>event_id = eid2, attrs = ActivityEv (ActivityTaskCompleted eid (ToProtoPayloads [p]))\<rparr>
      (ApplyEventToState \<lparr>event_id = eid, attrs = ActivityEv (ActivityTaskScheduled ?i name)\<rparr> r1)" for m r'
    using activity_resolved [OF h(2) _ that] h(1) codec(2) exec_Get_state_ready [of r' ?a E m]
    by (simp add: Future_Get_def decoded_or_def payload_at_def wire_simps del: exec.simps)
  show ?thesis
    using cmd park answer resume inp
    by (intro exI [of _ "activity_attributes (info r) ?i name ps opts hdr"] exI [of _ "ToProtoPayloads [p]"]
        exI [of _ "Future_Get rty ?a k thr"] exI [of _ r1]) (simp add: Let_def del: exec.simps)
qed

definition shout :: "(string, string) act_member" where
  "shout ai vs k thr = ActHeartbeat (Inr []) (\<lambda>err. k (hd vs @ ''!''))"

lemma shout_returns: "act_returns W shout [''hi''] ''hi!''"
  by (auto simp: act_returns_def shout_def RecordHeartbeat_def Let_def split: prod.split sum.split)

theorem typed_activity_end_to_end_witness:
  "\<forall>W E wi opts k thr. \<exists>cmd res b r1.
     commands r1 = [CmdScheduleActivityTask cmd]
   \<and> (\<forall>m. exec E (m + 2) (ExecuteActivity_ctx opts ''shout'' [to_payload text_type ''hi''] (\<lambda>a. co_await text_type a k thr) thr)
        (new_runner E wi False empty_prescan (\<lambda>p. Finish (Returned p)) [] ()) = (Suspended b, r1))
   \<and> (\<forall>m. let r' = ApplyEventToState \<lparr>event_id = 6, attrs = ActivityEv (ActivityTaskCompleted 5 res)\<rparr>
              (ApplyEventToState \<lparr>event_id = 5, attrs = ActivityEv (ActivityTaskScheduled (sa_activity_id cmd) ''shout'')\<rparr> r1)
           in exec E (m + 2) b r' = exec E m (k ''hi!'') r')"
proof (intro allI)
  fix W E wi opts and k :: "string \<Rightarrow> unit body" and thr
  let ?w0 = "new_worker ''1'' ''2'' ''ns'' ''me'' None ''q'' plain_options :: unit WorkerImpl"
  let ?r = "new_runner E wi False empty_prescan (\<lambda>p. Finish (Returned p)) [] () :: unit WorkflowRunner"
  have args: "args_roundtrip [to_payload text_type ''hi''] [''hi''] [from_payload text_type]"
    by (simp add: args_roundtrip_def text_type_def)
  have fresh: "\<not> activity_known (scan ?r) (nat_to_string (activity_seq ?r))"
    by (simp add: activity_known_def new_runner_def empty_prescan_def)
  have c: "commands ?r = []" by (simp add: new_runner_def)
  obtain w where w: "RegisterActivity_typed ''shout'' [from_payload text_type] (Some (to_payload text_type)) shout (Some ?w0) = Some w"
    by (simp add: RegisterActivity_typed_def RegisterActivityFn_def)
  have ic: "ah_interceptors (w_activity_handler ?w0) = []" by (simp add: new_worker_def plain_options_def)
  have fn: "act_returns W shout [''hi''] ''hi!''" by (rule shout_returns)
  have p: "to_payload text_type ''hi!'' = Inr \<lparr>metadata = Map.empty, pdata = ''hi!''\<rparr>"
    "from_payload text_type \<lparr>metadata = Map.empty, pdata = ''hi!''\<rparr> = Inr ''hi!''" by (simp_all add: text_type_def)
  have rpc: "completed_rpc \<lparr>completed_rpc = None, failed_rpc = None\<rparr> = None" by simp
  from typed_activity_end_to_end [where E = E and opts = opts and k = k and thr = thr and eid = 5 and ?eid2.0 = 6,
      OF args fresh w ic fn p rpc] c
  obtain cmd res b r1 where *: "commands r1 = [CmdScheduleActivityTask cmd]"
    "\<forall>m. exec E (m + 2) (ExecuteActivity_ctx opts ''shout'' [to_payload text_type ''hi''] (\<lambda>a. co_await text_type a k thr) thr) ?r = (Suspended b, r1)"
    "\<forall>m. let r' = ApplyEventToState \<lparr>event_id = 6, attrs = ActivityEv (ActivityTaskCompleted 5 res)\<rparr>
              (ApplyEventToState \<lparr>event_id = 5, attrs = ActivityEv (ActivityTaskScheduled (sa_activity_id cmd) ''shout'')\<rparr> r1)
           in exec E (m + 2) b r' = exec E m (k ''hi!'') r'"
    by (metis append_Nil)
  show "\<exists>cmd res b r1. commands r1 = [CmdScheduleActivityTask cmd]
   \<and> (\<forall>m. exec E (m + 2) (ExecuteActivity_ctx opts ''shout'' [to_payload text_type ''hi''] (\<lambda>a. co_await text_type a k thr) thr) ?r = (Suspended b, r1))
   \<and> (\<forall>m. let r' = ApplyEventToState \<lparr>event_id = 6, attrs = ActivityEv (ActivityTaskCompleted 5 res)\<rparr>
              (ApplyEventToState \<lparr>event_id = 5, attrs = ActivityEv (ActivityTaskScheduled (sa_activity_id cmd) ''shout'')\<rparr> r1)
           in exec E (m + 2) b r' = exec E m (k ''hi!'') r')"
    using * by blast
qed

section \<open>Typed local activities\<close>

lemma registered_resolves:
  assumes "RegisterActivity_typed name ds enc fn (Some w0) = Some w"
  shows "local_activity_resolver (workflow_env W str w E) = Some (Lookup W (activity_handler_now str w))"
    and "Lookup W (activity_handler_now str w) name
      = Some (\<lambda>ai ps. fst (run_act W (MakeActivityFn ds enc fn ai ps) (new_context ai False 0)))"
  using assms by (auto simp: workflow_env_def SetLocalActivityResolver_def Lookup_def RegisterActivity_typed_def RegisterActivityFn_def
      RegisterActivity_def Register_activity_def activity_handler_now_def map_add_def Let_def)

lemma la_loop_returns:
  "0 < max_attempts \<Longrightarrow> (\<And>ai. fn ai inp = Inr res) \<Longrightarrow> la_loop fn inp type r max_attempts 1 acc = Some (Inr res)"
  by (subst la_loop.simps) simp

text \<open>
  C17. A typed local activity runs inside the workflow's task and only once. On the live path the worker's
  own function is called with exactly the arguments given, the workflow goes on at once with the value it
  returned, and one marker command is sent. A replay that finds that marker gives the workflow the same value
  without calling anything, whatever activities the replaying worker has, and sends nothing.
\<close>

theorem typed_local_activity_end_to_end:
  fixes r :: "'s WorkflowRunner"
  assumes args: "args_roundtrip es vs ds"
    and reg: "RegisterActivity_typed name ds (Some (to_payload rty)) fn (Some w0) = Some w"
    and fn: "act_returns W fn vs x" and codec: "to_payload rty x = Inr p" "from_payload rty p = Inr x"
    and live: "length (local_activities (scan r)) \<le> local_activity_seq r"
  shows "\<exists>d r1. commands r1 = commands r @ [CmdRecordMarker ''LocalActivity'' d]
    \<and> (\<forall>m k thr. exec (workflow_env W str w E) (Suc m) (Context_ExecuteLocalActivity rty opts name es k thr) r
          = exec (workflow_env W str w E) m (k x) r1)
    \<and> (\<forall>E' (r' :: 's WorkflowRunner). local_activity_seq r' < length (local_activities (scan r'))
          \<and> local_activities (scan r') ! local_activity_seq r' = local_activity_raw d \<longrightarrow>
        (\<exists>r2. commands r2 = commands r'
          \<and> (\<forall>m k thr. exec E' (Suc m) (Context_ExecuteLocalActivity rty opts name es k thr) r' = exec E' m (k x) r2)))"
proof -
  let ?E = "workflow_env W str w E" and ?d = "[''result'' \<mapsto> ToProtoPayloads [p]]"
  obtain ps where ps: "ToPayloads es = Inr ps" using args_roundtrip_encode [OF args] by blast
  have runs: "fst (run_act W (MakeActivityFn ds (Some (to_payload rty)) fn ai ps) c) = Inr [p]" for ai c
    using typed_activity_runs [where enc = "to_payload rty", OF fn args_roundtrip_decode [OF args ps] codec(1), of ai c] by auto
  have "0 < la_max_attempts opts" by (simp add: la_max_attempts_def split: option.split)
  note loop = la_loop_returns [OF this, of "\<lambda>ai ps. fst (run_act W (MakeActivityFn ds (Some (to_payload rty)) fn ai ps) (new_context ai False 0))"
      ps "[p]", OF runs]
  have once: "\<exists>r1. ExecuteLocalActivity ?E name ps opts r = (RPayloads [p], r1)
      \<and> commands r1 = commands r @ [CmdRecordMarker ''LocalActivity'' ?d]"
    using live by (simp add: ExecuteLocalActivity_def registered_resolves [OF reg] run_local_activity_def loop effect_defs Let_def)
  then obtain r1 where r1: "ExecuteLocalActivity ?E name ps opts r = (RPayloads [p], r1)"
    "commands r1 = commands r @ [CmdRecordMarker ''LocalActivity'' ?d]" by blast
  have step: "exec F (Suc m) (Context_ExecuteLocalActivity rty opts name es k thr) s = exec F m (k x) s'"
    if "ExecuteLocalActivity F name ps opts s = (RPayloads [p], s')" for F m k thr and s s' :: "'s WorkflowRunner"
    using that codec(2) by (simp add: Context_ExecuteLocalActivity_def ps decoded_or_def)
  have again: "\<exists>r2. ExecuteLocalActivity E' name ps opts r' = (RPayloads [p], r2) \<and> commands r2 = commands r'"
    if "local_activity_seq r' < length (local_activities (scan r'))"
      "local_activities (scan r') ! local_activity_seq r' = local_activity_raw ?d" for E' and r' :: "'s WorkflowRunner"
    using that by (simp add: ExecuteLocalActivity_def local_activity_raw_def effect_defs Let_def)
  show ?thesis
  proof (rule exI [of _ ?d], rule exI [of _ r1], intro conjI allI impI)
    fix E' and r' :: "'s WorkflowRunner"
    assume "local_activity_seq r' < length (local_activities (scan r'))
      \<and> local_activities (scan r') ! local_activity_seq r' = local_activity_raw ?d"
    then obtain r2 where "ExecuteLocalActivity E' name ps opts r' = (RPayloads [p], r2)" "commands r2 = commands r'"
      using again [of r' E'] by blast
    with step show "\<exists>r2. commands r2 = commands r'
      \<and> (\<forall>m k thr. exec E' (Suc m) (Context_ExecuteLocalActivity rty opts name es k thr) r' = exec E' m (k x) r2)" by blast
  qed (rule r1(2) step [OF r1(1)])+
qed

theorem typed_local_activity_end_to_end_witness:
  "\<forall>W E wi str opts. \<exists>w d r1.
     RegisterActivity_typed ''shout'' [from_payload text_type] (Some (to_payload text_type)) shout
       (Some (new_worker ''1'' ''2'' ''ns'' ''me'' None ''q'' plain_options :: unit WorkerImpl)) = Some w
   \<and> commands r1 = [CmdRecordMarker ''LocalActivity'' d]
   \<and> (\<forall>m k thr. exec (workflow_env W str w E) (Suc m) (Context_ExecuteLocalActivity text_type opts ''shout'' [to_payload text_type ''hi''] k thr)
         (new_runner E wi False empty_prescan (\<lambda>p. Finish (Returned p)) [] ()) = exec (workflow_env W str w E) m (k ''hi!'') r1)"
proof (intro allI)
  fix W E wi str opts
  let ?w = "new_worker ''1'' ''2'' ''ns'' ''me'' None ''q'' plain_options :: unit WorkerImpl"
  let ?r = "new_runner E wi False empty_prescan (\<lambda>p. Finish (Returned p)) [] () :: unit WorkflowRunner"
  have args: "args_roundtrip [to_payload text_type ''hi''] [''hi''] [from_payload text_type]"
    by (simp add: args_roundtrip_def text_type_def)
  obtain w where w: "RegisterActivity_typed ''shout'' [from_payload text_type] (Some (to_payload text_type)) shout (Some ?w) = Some w"
    by (simp add: RegisterActivity_typed_def RegisterActivityFn_def)
  have fn: "act_returns W shout [''hi''] ''hi!''" by (rule shout_returns)
  have p: "to_payload text_type ''hi!'' = Inr \<lparr>metadata = Map.empty, pdata = ''hi!''\<rparr>"
    "from_payload text_type \<lparr>metadata = Map.empty, pdata = ''hi!''\<rparr> = Inr ''hi!''" by (simp_all add: text_type_def)
  have live: "length (local_activities (scan ?r)) \<le> local_activity_seq ?r" by (simp add: new_runner_def empty_prescan_def)
  have c: "commands ?r = []" by (simp add: new_runner_def)
  from typed_local_activity_end_to_end [where E = E and opts = opts and str = str, OF args w fn p live] c w
  show "\<exists>w d r1. RegisterActivity_typed ''shout'' [from_payload text_type] (Some (to_payload text_type)) shout (Some ?w) = Some w
   \<and> commands r1 = [CmdRecordMarker ''LocalActivity'' d]
   \<and> (\<forall>m k thr. exec (workflow_env W str w E) (Suc m) (Context_ExecuteLocalActivity text_type opts ''shout'' [to_payload text_type ''hi''] k thr) ?r
        = exec (workflow_env W str w E) m (k ''hi!'') r1)"
    by (metis append_Nil)
qed

end
