(* ===== verification/Tracing.thy ===== *)
theory Tracing
  imports Data_Converter Runner
begin

text \<open>
  The tracing interceptor (\<^verbatim>\<open>src/interceptor/tracing.cpp\<close>): the header a span's context travels in, the
  wrappers around inbound and outbound calls, and the in-memory tracer. A tracer is a record of its
  methods over its state; the call a wrapper delegates to is a function of that state which
  returns or throws. The JSON library is a parameter with the two calls the code makes.
\<close>

section \<open>The header\<close>

type_synonym Header = "string \<rightharpoonup> Payload"
type_synonym tracer_data = "(string \<times> string) list"

text \<open>
  \<open>dump_object\<close>: the text of the JSON object of a map, \<open>None\<close> where it throws on a string that is no valid
  text. \<open>parse_object\<close>: the members of a parsed text, with the value of those that are strings; \<open>None\<close> for
  what is no JSON object.
\<close>

record object_lib =
  dump_object :: "tracer_data \<Rightarrow> string option"
  parse_object :: "string \<Rightarrow> (string \<times> string option) list option"

definition ascii_text :: "string \<Rightarrow> bool" where
  "ascii_text s \<longleftrightarrow> list_all (\<lambda>c. (32 :: nat) \<le> of_char c \<and> of_char c < (127 :: nat)) s"

definition object_laws :: "object_lib \<Rightarrow> bool" where
  "object_laws L \<longleftrightarrow>
     (\<forall>d. distinct (map fst d) \<and> list_all (\<lambda>(k, v). ascii_text k \<and> ascii_text v) d \<longrightarrow>
        (\<exists>t fs. dump_object L d = Some t \<and> parse_object L t = Some fs \<and> distinct (map fst fs)
           \<and> map_of fs = map_of (map (apsnd Some) d)))"

definition WriteToHeader :: "object_lib \<Rightarrow> string \<Rightarrow> tracer_data \<Rightarrow> Header \<Rightarrow> Header option" where
  "WriteToHeader L header_key data header =
     (if data = [] then Some header
      else map_option (\<lambda>t. header(header_key \<mapsto> \<lparr>metadata = [kEncoding \<mapsto> kJson], pdata = t\<rparr>)) (dump_object L data))"

fun string_fields :: "(string \<times> string option) list \<Rightarrow> tracer_data" where
  "string_fields [] = []"
| "string_fields ((k, Some v) # fs) = (k, v) # string_fields fs"
| "string_fields ((k, None) # fs) = string_fields fs"

definition ReadFromHeader :: "object_lib \<Rightarrow> string \<Rightarrow> Header \<Rightarrow> tracer_data" where
  "ReadFromHeader L header_key header =
     (case header header_key of
        None \<Rightarrow> []
      | Some p \<Rightarrow> (case parse_object L (pdata p) of None \<Rightarrow> [] | Some fs \<Rightarrow> string_fields fs))"

section \<open>Tracers and wrappers\<close>

record StartSpanOptions =
  so_operation :: string
  so_name :: string
  so_parent :: "tracer_data option"
  so_tags :: "string \<rightharpoonup> string"

record ('span, 'w) Tracer =
  StartSpan :: "StartSpanOptions \<Rightarrow> 'w \<Rightarrow> 'span \<times> 'w"
  Inject :: "'span \<Rightarrow> tracer_data"
  Extract :: "tracer_data \<Rightarrow> tracer_data option"
  EndSpan :: "'span \<Rightarrow> bool \<Rightarrow> 'w \<Rightarrow> 'w"
  span_context :: "'span \<Rightarrow> tracer_data"

text \<open>The interceptor: its tracer, its header key, the JSON library, and the exception that library throws.\<close>

record ('span, 'w, 'e) TracingInterceptor =
  tracer :: "('span, 'w) Tracer"
  header_key :: string
  json :: object_lib
  json_throws :: 'e

type_synonym ('w, 'e, 'r) traced = "'w \<Rightarrow> ('e + 'r) \<times> 'w"

text \<open>
  Every outbound wrapper starts a span, injects it into the header and delegates; the span ends when
  the call returns. There is no handler around the call.
\<close>

definition outbound ::
  "('span, 'w, 'e) TracingInterceptor \<Rightarrow> StartSpanOptions \<Rightarrow> Header \<Rightarrow> (Header \<Rightarrow> ('w, 'e, 'r) traced) \<Rightarrow> ('w, 'e, 'r) traced" where
  "outbound I opts header next_call w =
     (let (span, w1) = StartSpan (tracer I) opts w
      in case WriteToHeader (json I) (header_key I) (Inject (tracer I) span) header of
           None \<Rightarrow> (Inl (json_throws I), w1)
         | Some h \<Rightarrow> (case next_call h w1 of
              (Inl e, w2) \<Rightarrow> (Inl e, w2)
            | (Inr r, w2) \<Rightarrow> (Inr r, EndSpan (tracer I) span False w2)))"

text \<open>Every inbound wrapper ends its span on both ways out, with the error flag on a throw.\<close>

definition inbound ::
  "('span, 'w, 'e) TracingInterceptor \<Rightarrow> StartSpanOptions \<Rightarrow> (tracer_data \<Rightarrow> ('w, 'e, 'r) traced) \<Rightarrow> ('w, 'e, 'r) traced" where
  "inbound I opts next_call w =
     (let (span, w1) = StartSpan (tracer I) opts w
      in case next_call (span_context (tracer I) span) w1 of
           (Inr r, w2) \<Rightarrow> (Inr r, EndSpan (tracer I) span False w2)
         | (Inl e, w2) \<Rightarrow> (Inl e, EndSpan (tracer I) span True w2))"

definition ExtractParent :: "('span, 'w, 'e) TracingInterceptor \<Rightarrow> Header \<Rightarrow> tracer_data option" where
  "ExtractParent I header = Extract (tracer I) (ReadFromHeader (json I) (header_key I) header)"

definition workflow_tags :: "string \<Rightarrow> string \<Rightarrow> string \<rightharpoonup> string" where
  "workflow_tags wid rid = [''temporalWorkflowID'' \<mapsto> wid, ''temporalRunID'' \<mapsto> rid]"

text \<open>Calls a workflow makes: \<open>slot\<close> is the context of the workflow's own span while it runs.\<close>

definition StartAndInject_options :: "WorkflowInfo \<Rightarrow> tracer_data option \<Rightarrow> string \<Rightarrow> string \<Rightarrow> StartSpanOptions" where
  "StartAndInject_options wi slot operation name =
     \<lparr>so_operation = operation, so_name = name, so_parent = slot,
      so_tags = workflow_tags (wi_workflow_id wi) (wi_run_id wi)\<rparr>"

definition Outbound_ExecuteActivity ::
  "('span, 'w, 'e) TracingInterceptor \<Rightarrow> WorkflowInfo \<Rightarrow> tracer_data option \<Rightarrow> string \<Rightarrow> Header
   \<Rightarrow> (Header \<Rightarrow> ('w, 'e, 'r) traced) \<Rightarrow> ('w, 'e, 'r) traced" where
  "Outbound_ExecuteActivity I wi slot activity_type =
     outbound I (StartAndInject_options wi slot ''StartActivity'' activity_type)"

definition Outbound_ExecuteChildWorkflow ::
  "('span, 'w, 'e) TracingInterceptor \<Rightarrow> WorkflowInfo \<Rightarrow> tracer_data option \<Rightarrow> string \<Rightarrow> Header
   \<Rightarrow> (Header \<Rightarrow> ('w, 'e, 'r) traced) \<Rightarrow> ('w, 'e, 'r) traced" where
  "Outbound_ExecuteChildWorkflow I wi slot workflow_type =
     outbound I (StartAndInject_options wi slot ''StartChildWorkflow'' workflow_type)"

definition Outbound_SignalExternalWorkflow ::
  "('span, 'w, 'e) TracingInterceptor \<Rightarrow> WorkflowInfo \<Rightarrow> tracer_data option \<Rightarrow> string \<Rightarrow> Header
   \<Rightarrow> (Header \<Rightarrow> ('w, 'e, 'r) traced) \<Rightarrow> ('w, 'e, 'r) traced" where
  "Outbound_SignalExternalWorkflow I wi slot signal_name =
     outbound I (StartAndInject_options wi slot ''SignalExternalWorkflow'' signal_name)"

text \<open>Calls into a worker. \<^verbatim>\<open>ExecuteWorkflow\<close> hands its context to the outbound wrapper through the slot.\<close>

definition Inbound_ExecuteWorkflow ::
  "('span, 'w, 'e) TracingInterceptor \<Rightarrow> WorkflowInfo \<Rightarrow> Header \<Rightarrow> (tracer_data option \<Rightarrow> ('w, 'e, 'r) traced) \<Rightarrow> ('w, 'e, 'r) traced" where
  "Inbound_ExecuteWorkflow I wi header next_call =
     inbound I \<lparr>so_operation = ''RunWorkflow'', so_name = wi_workflow_type wi, so_parent = ExtractParent I header,
         so_tags = workflow_tags (wi_workflow_id wi) (wi_run_id wi)\<rparr> (\<lambda>c. next_call (Some c))"

definition Inbound_HandleSignal ::
  "('span, 'w, 'e) TracingInterceptor \<Rightarrow> string \<Rightarrow> Header \<Rightarrow> ('w, 'e, 'r) traced \<Rightarrow> ('w, 'e, 'r) traced" where
  "Inbound_HandleSignal I signal_name header next_call =
     inbound I \<lparr>so_operation = ''HandleSignal'', so_name = signal_name, so_parent = ExtractParent I header,
         so_tags = Map.empty\<rparr> (\<lambda>c. next_call)"

definition Inbound_HandleQuery ::
  "('span, 'w, 'e) TracingInterceptor \<Rightarrow> string \<Rightarrow> Header \<Rightarrow> ('w, 'e, 'r) traced \<Rightarrow> ('w, 'e, 'r) traced" where
  "Inbound_HandleQuery I query_type header next_call =
     inbound I \<lparr>so_operation = ''HandleQuery'', so_name = query_type, so_parent = ExtractParent I header,
         so_tags = Map.empty\<rparr> (\<lambda>c. next_call)"

definition Inbound_ExecuteActivity ::
  "('span, 'w, 'e) TracingInterceptor \<Rightarrow> ActivityInfo \<Rightarrow> Header \<Rightarrow> ('w, 'e, 'r) traced \<Rightarrow> ('w, 'e, 'r) traced" where
  "Inbound_ExecuteActivity I ai header next_call =
     inbound I \<lparr>so_operation = ''RunActivity'', so_name = ai_activity_type ai, so_parent = ExtractParent I header,
         so_tags = (workflow_tags (ai_workflow_id ai) (ai_run_id ai))(''temporalActivityID'' \<mapsto> ai_activity_id ai)\<rparr>
       (\<lambda>c. next_call)"

text \<open>Calls a client makes.\<close>

definition client_options :: "string \<Rightarrow> string \<Rightarrow> string \<Rightarrow> StartSpanOptions" where
  "client_options operation name wid =
     \<lparr>so_operation = operation, so_name = name, so_parent = None, so_tags = [''temporalWorkflowID'' \<mapsto> wid]\<rparr>"

definition Client_StartWorkflow ::
  "('span, 'w, 'e) TracingInterceptor \<Rightarrow> string \<Rightarrow> string \<Rightarrow> Header \<Rightarrow> (Header \<Rightarrow> ('w, 'e, 'r) traced) \<Rightarrow> ('w, 'e, 'r) traced" where
  "Client_StartWorkflow I wid workflow_type = outbound I (client_options ''StartWorkflow'' workflow_type wid)"

definition Client_SignalWorkflow ::
  "('span, 'w, 'e) TracingInterceptor \<Rightarrow> string \<Rightarrow> string \<Rightarrow> Header \<Rightarrow> (Header \<Rightarrow> ('w, 'e, 'r) traced) \<Rightarrow> ('w, 'e, 'r) traced" where
  "Client_SignalWorkflow I wid signal_name = outbound I (client_options ''SignalWorkflow'' signal_name wid)"

definition Client_QueryWorkflow ::
  "('span, 'w, 'e) TracingInterceptor \<Rightarrow> string \<Rightarrow> string \<Rightarrow> Header \<Rightarrow> (Header \<Rightarrow> ('w, 'e, 'r) traced) \<Rightarrow> ('w, 'e, 'r) traced" where
  "Client_QueryWorkflow I wid query_type = outbound I (client_options ''QueryWorkflow'' query_type wid)"

section \<open>The in-memory tracer\<close>

record span_record =
  sr_operation :: string
  sr_name :: string
  sr_trace_id :: string
  sr_span_id :: string
  sr_parent_span_id :: string
  sr_tags :: "string \<rightharpoonup> string"
  sr_ended :: bool
  sr_error :: bool

record InMemoryTracer =
  span_records :: "span_record list"
  next_trace_id :: nat
  next_span_id :: nat

type_synonym MemSpan = "nat \<times> tracer_data"

definition mem_StartSpan :: "StartSpanOptions \<Rightarrow> InMemoryTracer \<Rightarrow> MemSpan \<times> InMemoryTracer" where
  "mem_StartSpan opts w =
     (let data = (case so_parent opts of None \<Rightarrow> [] | Some d \<Rightarrow> d);
          inherited = (case map_of data ''trace_id'' of None \<Rightarrow> [] | Some t \<Rightarrow> t);
          parent_span = (case map_of data ''span_id'' of None \<Rightarrow> [] | Some s \<Rightarrow> s);
          fresh = (inherited = []);
          trace = (if fresh then ''t'' @ nat_to_string (next_trace_id w) else inherited);
          span = ''s'' @ nat_to_string (next_span_id w);
          rec = \<lparr>sr_operation = so_operation opts, sr_name = so_name opts, sr_trace_id = trace, sr_span_id = span,
                 sr_parent_span_id = parent_span, sr_tags = so_tags opts, sr_ended = False, sr_error = False\<rparr>
      in ((length (span_records w), [(''span_id'', span), (''trace_id'', trace)]),
          w\<lparr>span_records := span_records w @ [rec],
            next_trace_id := (if fresh then Suc (next_trace_id w) else next_trace_id w),
            next_span_id := Suc (next_span_id w)\<rparr>))"

definition mem_SetTag :: "MemSpan \<Rightarrow> string \<Rightarrow> string \<Rightarrow> InMemoryTracer \<Rightarrow> InMemoryTracer" where
  "mem_SetTag sp key val w =
     w\<lparr>span_records := (span_records w)[fst sp := (span_records w ! fst sp)\<lparr>sr_tags := (sr_tags (span_records w ! fst sp))(key \<mapsto> val)\<rparr>]\<rparr>"

definition mem_End :: "MemSpan \<Rightarrow> bool \<Rightarrow> InMemoryTracer \<Rightarrow> InMemoryTracer" where
  "mem_End sp err w =
     w\<lparr>span_records := (span_records w)[fst sp := (span_records w ! fst sp)\<lparr>sr_ended := True, sr_error := err\<rparr>]\<rparr>"

definition mem_Extract :: "tracer_data \<Rightarrow> tracer_data option" where
  "mem_Extract data =
     (if map_of data ''trace_id'' = None \<or> map_of data ''span_id'' = None then None else Some data)"

definition mem_tracer :: "(MemSpan, InMemoryTracer) Tracer" where
  "mem_tracer = \<lparr>StartSpan = mem_StartSpan, Inject = snd, Extract = mem_Extract, EndSpan = mem_End,
     span_context = snd\<rparr>"


section \<open>A span's context survives the header\<close>

lemma string_fields_map_of:
  "distinct (map fst fs) \<Longrightarrow> map_of (string_fields fs) k = (case map_of fs k of Some v \<Rightarrow> v | None \<Rightarrow> None)"
proof (induction fs rule: string_fields.induct)
  case (3 k' fs)
  then have "map_of fs k' = None" by (simp add: map_of_eq_None_iff)
  with 3 show ?case by (auto split: option.split)
qed (auto split: option.split)

lemma map_of_apsnd: "map_of (map (apsnd f) d) k = map_option f (map_of d k)"
  by (induction d) auto

lemma header_roundtrip:
  assumes "object_laws L" and "d \<noteq> []" and "distinct (map fst d)"
    and "list_all (\<lambda>(k, v). ascii_text k \<and> ascii_text v) d"
  shows "\<exists>h. WriteToHeader L key d hdr = Some h \<and> map_of (ReadFromHeader L key h) = map_of d
    \<and> (\<forall>k. k \<noteq> key \<longrightarrow> h k = hdr k)"
proof -
  obtain t fs where t: "dump_object L d = Some t" "parse_object L t = Some fs" "distinct (map fst fs)"
    and fs: "map_of fs = map_of (map (apsnd Some) d)"
    using assms unfolding object_laws_def by blast
  have "map_of (string_fields fs) = map_of d"
    by (rule ext) (simp add: string_fields_map_of [OF t(3)] fs map_of_apsnd split: option.split)
  with t assms(2) show ?thesis by (simp add: WriteToHeader_def ReadFromHeader_def)
qed

lemma ascii_id: "ascii_text (CHR ''t'' # nat_to_string n)" "ascii_text (CHR ''s'' # nat_to_string n)"
  "ascii_text ''trace_id''" "ascii_text ''span_id''"
proof -
  have "(32 :: nat) \<le> of_char c \<and> of_char c < (127 :: nat)" if "c \<in> set (nat_to_string n)" for c
    using nat_to_string_digits [OF that] by (auto simp: is_digit_def)
  then show "ascii_text (CHR ''t'' # nat_to_string n)" "ascii_text (CHR ''s'' # nat_to_string n)"
    "ascii_text ''trace_id''" "ascii_text ''span_id''"
    by (auto simp: ascii_text_def list_all_iff)
qed

section \<open>Spans of the in-memory tracer\<close>

text \<open>The record a started span leaves, and the identity it carries on.\<close>

definition span_of :: "span_record \<Rightarrow> tracer_data" where
  "span_of r = [(''span_id'', sr_span_id r), (''trace_id'', sr_trace_id r)]"

definition child_of :: "span_record \<Rightarrow> span_record \<Rightarrow> bool" where
  "child_of r c \<longleftrightarrow> sr_trace_id c = sr_trace_id r \<and> sr_parent_span_id c = sr_span_id r"

definition well_named :: "span_record \<Rightarrow> bool" where
  "well_named r \<longleftrightarrow> ascii_text (sr_span_id r) \<and> ascii_text (sr_trace_id r) \<and> sr_trace_id r \<noteq> []"

lemma mem_start:
  "\<exists>r v. mem_StartSpan opts w = ((length (span_records w), span_of r), v) \<and> span_records v = span_records w @ [r]
    \<and> \<not> sr_ended r \<and> \<not> sr_error r \<and> sr_tags r = so_tags opts
    \<and> (so_parent opts = None \<longrightarrow> well_named r \<and> sr_parent_span_id r = [])
    \<and> (\<forall>p d. so_parent opts = Some d \<and> map_of d = map_of (span_of p) \<and> well_named p \<longrightarrow> child_of p r \<and> well_named r)"
  by (auto simp: mem_StartSpan_def Let_def span_of_def child_of_def well_named_def ascii_id)

lemma mem_start_root:
  assumes "so_parent opts = None"
  obtains r v where "mem_StartSpan opts w = ((length (span_records w), span_of r), v)" "span_records v = span_records w @ [r]"
    "well_named r" "sr_parent_span_id r = []"
  using mem_start [of opts w] assms by blast

lemma mem_start_child:
  assumes "so_parent opts = Some d" and "map_of d = map_of (span_of p)" and "well_named p"
  obtains r v where "mem_StartSpan opts w = ((length (span_records w), span_of r), v)" "span_records v = span_records w @ [r]"
    "child_of p r" "well_named r"
  using mem_start [of opts w] assms by blast

lemma mem_End_last:
  "span_records w = rs @ [r] \<Longrightarrow> span_records (mem_End (length rs, d) e w) = rs @ [r\<lparr>sr_ended := True, sr_error := e\<rparr>]"
  by (simp add: mem_End_def)

lemma mem_End_within:
  "span_records w = rs @ r # later \<Longrightarrow> span_records (mem_End (length rs, d) e w) = rs @ r\<lparr>sr_ended := True, sr_error := e\<rparr> # later"
  by (simp add: mem_End_def)

lemma ending_keeps:
  "span_of (r\<lparr>sr_ended := b, sr_error := e\<rparr>) = span_of r" "well_named (r\<lparr>sr_ended := b, sr_error := e\<rparr>) = well_named r"
  "child_of (r\<lparr>sr_ended := b, sr_error := e\<rparr>) c = child_of r c" "child_of p (r\<lparr>sr_ended := b, sr_error := e\<rparr>) = child_of p r"
  by (simp_all add: span_of_def well_named_def child_of_def)

text \<open>A context read back from a header makes a child of the span that wrote it.\<close>

lemma extracted:
  assumes "map_of d = map_of (span_of p)"
  shows "\<exists>d'. mem_Extract d = Some d' \<and> map_of d' = map_of (span_of p)"
  using assms by (auto simp: mem_Extract_def span_of_def)

lemma outbound_mem:
  assumes "object_laws (json I)" and "tracer I = mem_tracer"
    and s: "mem_StartSpan opts w = ((length (span_records w), span_of r), w1)" "span_records w1 = span_records w @ [r]" "well_named r"
  shows "\<exists>h w2. outbound I opts hdr (\<lambda>h w. (Inr (g h), w)) w = (Inr (g h), w2)
    \<and> span_records w2 = span_records w @ [r\<lparr>sr_ended := True, sr_error := False\<rparr>]
    \<and> map_of (ReadFromHeader (json I) (header_key I) h) = map_of (span_of r)"
proof -
  have "span_of r \<noteq> []" "distinct (map fst (span_of r))"
    "list_all (\<lambda>(k, v). ascii_text k \<and> ascii_text v) (span_of r)"
    using s(3) by (simp_all add: span_of_def well_named_def ascii_id)
  from header_roundtrip [OF assms(1) this, of "header_key I" hdr]
  obtain h where "WriteToHeader (json I) (header_key I) (span_of r) hdr = Some h"
    "map_of (ReadFromHeader (json I) (header_key I) h) = map_of (span_of r)" by blast
  then show ?thesis
    using s(1) assms(2) mem_End_last [OF s(2)] by (auto simp: outbound_def mem_tracer_def)
qed

section \<open>Properties of tracing\<close>

text \<open>
  A workflow started by a traced client, which runs on a traced worker and schedules an activity there:
  each header goes where the service carries it.
\<close>

definition trace_through ::
  "('span, 'w, 'e) TracingInterceptor \<Rightarrow> string \<Rightarrow> WorkflowInfo \<Rightarrow> ActivityInfo \<Rightarrow> Header \<Rightarrow> Header
   \<Rightarrow> ('w, 'e, 'r) traced \<Rightarrow> ('w, 'e, 'r) traced" where
  "trace_through I wid wi ai client_header workflow_header body w =
     (case Client_StartWorkflow I wid (wi_workflow_type wi) client_header (\<lambda>h w. (Inr h, w)) w of
        (Inl e, w1) \<Rightarrow> (Inl e, w1)
      | (Inr h1, w1) \<Rightarrow>
          (case Inbound_ExecuteWorkflow I wi h1
                  (\<lambda>slot. Outbound_ExecuteActivity I wi slot (ai_activity_type ai) workflow_header (\<lambda>h w. (Inr h, w))) w1 of
             (Inl e, w2) \<Rightarrow> (Inl e, w2)
           | (Inr h2, w2) \<Rightarrow> Inbound_ExecuteActivity I ai h2 body w2))"

lemma workflow_span:
  assumes laws: "object_laws (json I)" and mem: "tracer I = mem_tracer"
    and up: "map_of (ReadFromHeader (json I) (header_key I) h1) = map_of (span_of c)" "well_named c"
  shows "\<exists>h2 wf sa w2. Inbound_ExecuteWorkflow I wi h1
        (\<lambda>slot. Outbound_ExecuteActivity I wi slot atype hdr (\<lambda>h w. (Inr h, w))) w1 = (Inr h2, w2)
    \<and> span_records w2 = span_records w1 @ [wf, sa] \<and> child_of c wf \<and> child_of wf sa \<and> well_named sa
    \<and> sr_ended wf \<and> sr_ended sa \<and> \<not> sr_error wf \<and> \<not> sr_error sa
    \<and> map_of (ReadFromHeader (json I) (header_key I) h2) = map_of (span_of sa)"
proof -
  let ?opts = "\<lparr>so_operation = ''RunWorkflow'', so_name = wi_workflow_type wi, so_parent = ExtractParent I h1,
         so_tags = workflow_tags (wi_workflow_id wi) (wi_run_id wi)\<rparr>"
  obtain d where d: "ExtractParent I h1 = Some d" "map_of d = map_of (span_of c)"
    using extracted [OF up(1)] mem by (auto simp: ExtractParent_def mem_tracer_def)
  obtain wf v where wf: "mem_StartSpan ?opts w1 = ((length (span_records w1), span_of wf), v)"
    "span_records v = span_records w1 @ [wf]" "child_of c wf" "well_named wf"
    by (rule mem_start_child [of ?opts d c w1]) (use d up(2) in auto)
  let ?inner = "StartAndInject_options wi (Some (span_of wf)) ''StartActivity'' atype"
  obtain sa u where sa: "mem_StartSpan ?inner v = ((length (span_records v), span_of sa), u)"
    "span_records u = span_records v @ [sa]" "child_of wf sa" "well_named sa"
    by (rule mem_start_child [of ?inner "span_of wf" wf v]) (use wf(4) in \<open>auto simp: StartAndInject_options_def\<close>)
  obtain h2 w2 where out: "outbound I ?inner hdr (\<lambda>h w. (Inr h, w)) v = (Inr h2, w2)"
    "span_records w2 = span_records v @ [sa\<lparr>sr_ended := True, sr_error := False\<rparr>]"
    "map_of (ReadFromHeader (json I) (header_key I) h2) = map_of (span_of sa)"
    using outbound_mem [OF laws mem sa(1,2,4), where g = "\<lambda>h. h"] by blast
  have "span_records w2 = span_records w1 @ wf # [sa\<lparr>sr_ended := True, sr_error := False\<rparr>]" using out(2) wf(2) by simp
  from mem_End_within [OF this] wf sa out mem show ?thesis
    by (simp add: Inbound_ExecuteWorkflow_def Outbound_ExecuteActivity_def inbound_def mem_tracer_def ending_keeps)
qed

text \<open>
  C28. One trace from client to activity: with the in-memory tracer on both sides, the spans of
  starting the workflow, running it, scheduling the activity and running it are four records of
  one trace, each the parent of the next, and all are ended; only the last one carries an error, and
  exactly when the activity threw. Headers the calls already had are no obstacle.
\<close>

theorem trace_reaches_activity:
  assumes "object_laws (json I)" and "tracer I = mem_tracer"
  shows "\<exists>c wf sa ra w'. trace_through I wid wi ai client_header workflow_header (\<lambda>w. (res, w)) w = (res, w')
    \<and> span_records w' = span_records w @ [c, wf, sa, ra]
    \<and> sr_parent_span_id c = [] \<and> child_of c wf \<and> child_of wf sa \<and> child_of sa ra
    \<and> list_all sr_ended [c, wf, sa, ra] \<and> \<not> sr_error c \<and> \<not> sr_error wf \<and> \<not> sr_error sa
    \<and> (sr_error ra \<longleftrightarrow> isl res)"
proof -
  let ?opts = "client_options ''StartWorkflow'' (wi_workflow_type wi) wid"
  obtain c v where c: "mem_StartSpan ?opts w = ((length (span_records w), span_of c), v)"
    "span_records v = span_records w @ [c]" "well_named c" "sr_parent_span_id c = []"
    by (rule mem_start_root [of ?opts w]) (auto simp: client_options_def)
  obtain h1 w1 where out: "outbound I ?opts client_header (\<lambda>h w. (Inr h, w)) w = (Inr h1, w1)"
    "span_records w1 = span_records w @ [c\<lparr>sr_ended := True, sr_error := False\<rparr>]"
    "map_of (ReadFromHeader (json I) (header_key I) h1) = map_of (span_of c)"
    using outbound_mem [OF assms c(1-3), where g = "\<lambda>h. h"] by blast
  obtain h2 wf sa w2 where wf: "Inbound_ExecuteWorkflow I wi h1 (\<lambda>slot. Outbound_ExecuteActivity I wi slot
        (ai_activity_type ai) workflow_header (\<lambda>h w. (Inr h, w))) w1 = (Inr h2, w2)"
    "span_records w2 = span_records w1 @ [wf, sa]" "child_of c wf" "child_of wf sa" "well_named sa"
    "sr_ended wf" "sr_ended sa" "\<not> sr_error wf" "\<not> sr_error sa"
    "map_of (ReadFromHeader (json I) (header_key I) h2) = map_of (span_of sa)"
    using workflow_span [OF assms out(3) c(3)] by blast
  let ?last = "\<lparr>so_operation = ''RunActivity'', so_name = ai_activity_type ai, so_parent = ExtractParent I h2,
         so_tags = (workflow_tags (ai_workflow_id ai) (ai_run_id ai))(''temporalActivityID'' \<mapsto> ai_activity_id ai)\<rparr>"
  obtain d where d: "ExtractParent I h2 = Some d" "map_of d = map_of (span_of sa)"
    using extracted [OF wf(10)] assms(2) by (auto simp: ExtractParent_def mem_tracer_def)
  obtain ra u where ra: "mem_StartSpan ?last w2 = ((length (span_records w2), span_of ra), u)"
    "span_records u = span_records w2 @ [ra]" "child_of sa ra"
    by (rule mem_start_child [of ?last d sa w2]) (use d wf(5) in auto)
  have run: "Inbound_ExecuteActivity I ai h2 (\<lambda>w. (res, w)) w2 = (res, mem_End (length (span_records w2), span_of ra) (isl res) u)"
    using ra(1) assms(2) by (simp add: Inbound_ExecuteActivity_def inbound_def mem_tracer_def split: sum.split)
  have "trace_through I wid wi ai client_header workflow_header (\<lambda>w. (res, w)) w
      = (res, mem_End (length (span_records w2), span_of ra) (isl res) u)"
    using out(1) wf(1) run by (simp add: trace_through_def Client_StartWorkflow_def)
  then show ?thesis
    using mem_End_last [OF ra(2)] wf out(2) ra(3) c(4)
    by (intro exI [of _ "c\<lparr>sr_ended := True, sr_error := False\<rparr>"] exI [of _ wf] exI [of _ sa]
        exI [of _ "ra\<lparr>sr_ended := True, sr_error := isl res\<rparr>"]
        exI [of _ "mem_End (length (span_records w2), span_of ra) (isl res) u"])
      (simp add: ending_keeps)
qed

text \<open>A library for the witnesses: strings ended by NUL.\<close>

fun pieces :: "string \<Rightarrow> string \<Rightarrow> string list" where
  "pieces acc [] = []"
| "pieces acc (c # s) = (if c = CHR 0x00 then rev acc # pieces [] s else pieces (c # acc) s)"

fun pair_up :: "string list \<Rightarrow> (string \<times> string option) list" where
  "pair_up (k # v # rest) = (k, Some v) # pair_up rest"
| "pair_up _ = []"

definition nul_lib :: object_lib where
  "nul_lib = \<lparr>dump_object = (\<lambda>d. Some (concat (map (\<lambda>(k, v). k @ [CHR 0x00] @ v @ [CHR 0x00]) d))),
     parse_object = (\<lambda>s. Some (pair_up (pieces [] s)))\<rparr>"

lemma pieces_until: "CHR 0x00 \<notin> set s \<Longrightarrow> pieces acc (s @ CHR 0x00 # t) = (rev acc @ s) # pieces [] t"
  by (induction s arbitrary: acc) auto

lemma ascii_no_nul: "ascii_text s \<Longrightarrow> CHR 0x00 \<notin> set s"
  by (auto simp: ascii_text_def list_all_iff)

lemma nul_laws: "object_laws nul_lib"
proof -
  have "pair_up (pieces [] (concat (map (\<lambda>(k, v). k @ [CHR 0x00] @ v @ [CHR 0x00]) d))) = map (apsnd Some) d"
    if "list_all (\<lambda>(k, v). ascii_text k \<and> ascii_text v) d" for d
    using that
  proof (induction d)
    case (Cons x d)
    then show ?case by (cases x) (simp add: pieces_until ascii_no_nul)
  qed simp
  then show ?thesis by (simp add: object_laws_def nul_lib_def comp_def)
qed

theorem trace_reaches_activity_witness:
  "\<forall>wi ai. \<exists>c wf sa ra w'. trace_through \<lparr>tracer = mem_tracer, header_key = ''_tracer-data'', json = nul_lib, json_throws = ()\<rparr>
      ''w'' wi ai Map.empty Map.empty (\<lambda>w. (Inr (), w)) \<lparr>span_records = [], next_trace_id = 1, next_span_id = 1\<rparr> = (Inr (), w')
    \<and> span_records w' = [c, wf, sa, ra] \<and> child_of c wf \<and> child_of wf sa \<and> child_of sa ra \<and> \<not> sr_error ra"
proof (intro allI)
  fix wi ai
  let ?I = "\<lparr>tracer = mem_tracer, header_key = ''_tracer-data'', json = nul_lib, json_throws = ()\<rparr>"
  have "object_laws (json ?I)" "tracer ?I = mem_tracer" by (simp_all add: nul_laws)
  from trace_reaches_activity [OF this, of "''w''" wi ai Map.empty Map.empty "Inr ()" "\<lparr>span_records = [], next_trace_id = 1, next_span_id = 1\<rparr>"]
  show "\<exists>c wf sa ra w'. trace_through ?I ''w'' wi ai Map.empty Map.empty (\<lambda>w. (Inr (), w))
        \<lparr>span_records = [], next_trace_id = 1, next_span_id = 1\<rparr> = (Inr (), w')
      \<and> span_records w' = [c, wf, sa, ra] \<and> child_of c wf \<and> child_of wf sa \<and> child_of sa ra \<and> \<not> sr_error ra" by auto
qed

lemma outbound_span:
  assumes "tracer I = mem_tracer" and "\<And>h v. prefix (span_records v) (span_records (snd (send h v)))"
  shows "\<exists>r later. span_records (snd (outbound I opts hdr send w)) = span_records w @ r # later
    \<and> sr_ended r = (\<not> isl (fst (outbound I opts hdr send w))) \<and> \<not> sr_error r"
proof -
  obtain r v where s: "mem_StartSpan opts w = ((length (span_records w), span_of r), v)" "span_records v = span_records w @ [r]"
    "\<not> sr_ended r" "\<not> sr_error r" using mem_start [of opts w] by blast
  show ?thesis
  proof (cases "WriteToHeader (json I) (header_key I) (span_of r) hdr")
    case None
    with s assms(1) show ?thesis by (simp add: outbound_def mem_tracer_def)
  next
    case (Some h)
    obtain res v2 where send: "send h v = (res, v2)" by fastforce
    obtain later where l: "span_records v2 = span_records w @ r # later"
      using assms(2) [where h = h and v = v] s(2) send by (auto elim: prefixE)
    show ?thesis
      using s assms(1) Some send l mem_End_within [OF l, of "span_of r" False]
      by (cases res) (simp_all add: outbound_def mem_tracer_def)
  qed
qed

lemma inbound_span:
  assumes "tracer I = mem_tracer" and "\<And>c v. prefix (span_records v) (span_records (snd (serve c v)))"
  shows "\<exists>r later. span_records (snd (inbound I opts serve w)) = span_records w @ r # later
    \<and> sr_ended r \<and> sr_error r = isl (fst (inbound I opts serve w))"
proof -
  obtain r v where s: "mem_StartSpan opts w = ((length (span_records w), span_of r), v)" "span_records v = span_records w @ [r]"
    using mem_start [of opts w] by blast
  obtain res v2 where serve: "serve (span_of r) v = (res, v2)" by fastforce
  obtain later where l: "span_records v2 = span_records w @ r # later"
    using assms(2) [where c = "span_of r" and v = v] s(2) serve by (auto elim: prefixE)
  show ?thesis
    using s assms(1) serve mem_End_within [OF l, of "span_of r" "isl res"]
    by (cases res) (simp_all add: inbound_def mem_tracer_def)
qed

text \<open>
  When spans end: whatever the wrapped call does to the tracer besides adding records, an inbound
  wrapper ends its span on every way out, with the error flag exactly when the call threw, but an
  outbound wrapper ends its span only when the call returns: a call that throws, such as a start that
  the server rejects, leaves the span open for ever.
\<close>

theorem outbound_throw_leaves_span_open:
  assumes "tracer I = mem_tracer" and "\<And>h v. prefix (span_records v) (span_records (snd (send h v)))"
    and "\<And>c v. prefix (span_records v) (span_records (snd (serve c v)))"
  shows "(\<exists>r later. span_records (snd (outbound I opts hdr send w)) = span_records w @ r # later
        \<and> sr_ended r = (\<not> isl (fst (outbound I opts hdr send w))) \<and> \<not> sr_error r)
    \<and> (\<exists>r later. span_records (snd (inbound I opts serve w)) = span_records w @ r # later
        \<and> sr_ended r \<and> sr_error r = isl (fst (inbound I opts serve w)))"
  by (intro conjI outbound_span inbound_span assms)

theorem outbound_throw_leaves_span_open_witness:
  "\<exists>r later. span_records (snd (outbound \<lparr>tracer = mem_tracer, header_key = ''k'', json = nul_lib, json_throws = ''json''\<rparr>
        (client_options ''StartWorkflow'' ''greet'' ''w'') Map.empty (\<lambda>h v. (Inl ''rejected'' :: string + unit, v))
        \<lparr>span_records = [], next_trace_id = 1, next_span_id = 1\<rparr>)) = r # later \<and> \<not> sr_ended r"
proof -
  let ?I = "\<lparr>tracer = mem_tracer, header_key = ''k'', json = nul_lib, json_throws = ''json''\<rparr>"
  let ?send = "\<lambda>h v. (Inl ''rejected'' :: string + unit, v :: InMemoryTracer)"
  have "isl (fst (outbound ?I o' Map.empty ?send w'))" for o' w'
    by (auto simp: outbound_def split: prod.split option.split)
  moreover have "tracer ?I = mem_tracer" "prefix (span_records v) (span_records (snd (?send h v)))" for h v by simp_all
  ultimately show ?thesis
    using outbound_throw_leaves_span_open [of ?I ?send ?send "client_options ''StartWorkflow'' ''greet'' ''w''" Map.empty
        "\<lparr>span_records = [], next_trace_id = 1, next_span_id = 1\<rparr>"] by fastforce
qed

end
