(* ===== verification/Interceptors.thy ===== *)
theory Interceptors
  imports Runner_Exec Client
begin

text \<open>
  Workflow interceptors (\<^verbatim>\<open>include/temporal/interceptor/interceptor.h\<close>) and how \<^verbatim>\<open>RunBody\<close> wires them: the
  chain of inbound interceptors around the workflow function, and the outbound chain that their
  \<^verbatim>\<open>Init\<close> methods build around a terminal that does nothing.

  An interceptor object is the record of its virtual methods. A method with a mutable reference
  returns the new value; \<^verbatim>\<open>None\<close> is a call through the null \<^verbatim>\<open>next_\<close> of an object that has none. Interceptors
  that throw out of an outbound method are not covered.
\<close>

section \<open>Inputs\<close>

type_synonym header = "string \<rightharpoonup> Payload"

record ExecuteActivityOutboundInput =
  oa_activity_type :: string
  oa_options :: ActivityOptions
  oa_args :: Payloads

record ExecuteChildWorkflowInput =
  oc_workflow_type :: string
  oc_options :: ChildWorkflowOptions
  oc_args :: Payloads

record SignalExternalWorkflowInput =
  os_workflow_id :: string
  os_run_id :: string
  os_signal_name :: string
  os_args :: Payloads

record CancelExternalWorkflowInput =
  ox_workflow_id :: string
  ox_run_id :: string

record UpsertSearchAttributesInput =
  ou_attributes :: "string \<rightharpoonup> Payload"

record HandleSignalInput =
  hs_signal_name :: string
  hs_args :: Payloads

record HandleQueryInput =
  hq_query_type :: string
  hq_args :: Payloads

section \<open>Outbound\<close>

record WorkflowOutboundInterceptor =
  wo_ExecuteActivity :: "ExecuteActivityOutboundInput \<Rightarrow> header \<Rightarrow> ExecuteActivityOutboundInput \<times> header"
  wo_ExecuteChildWorkflow :: "ExecuteChildWorkflowInput \<Rightarrow> header \<Rightarrow> ExecuteChildWorkflowInput \<times> header"
  wo_SignalExternalWorkflow :: "SignalExternalWorkflowInput \<Rightarrow> header \<Rightarrow> SignalExternalWorkflowInput \<times> header"
  wo_CancelExternalWorkflow :: "CancelExternalWorkflowInput \<Rightarrow> CancelExternalWorkflowInput"
  wo_UpsertSearchAttributes :: "UpsertSearchAttributesInput \<Rightarrow> UpsertSearchAttributesInput"

definition RootWorkflowOutbound :: WorkflowOutboundInterceptor where
  "RootWorkflowOutbound =
     \<lparr>wo_ExecuteActivity = (\<lambda>i h. (i, h)), wo_ExecuteChildWorkflow = (\<lambda>i h. (i, h)),
      wo_SignalExternalWorkflow = (\<lambda>i h. (i, h)), wo_CancelExternalWorkflow = (\<lambda>i. i),
      wo_UpsertSearchAttributes = (\<lambda>i. i)\<rparr>"

text \<open>The methods a subclass does not override.\<close>

definition WorkflowOutboundInterceptorBase :: "WorkflowOutboundInterceptor \<Rightarrow> WorkflowOutboundInterceptor" where
  "WorkflowOutboundInterceptorBase next =
     \<lparr>wo_ExecuteActivity = (\<lambda>i h. wo_ExecuteActivity next i h),
      wo_ExecuteChildWorkflow = (\<lambda>i h. wo_ExecuteChildWorkflow next i h),
      wo_SignalExternalWorkflow = (\<lambda>i h. wo_SignalExternalWorkflow next i h),
      wo_CancelExternalWorkflow = (\<lambda>i. wo_CancelExternalWorkflow next i),
      wo_UpsertSearchAttributes = (\<lambda>i. wo_UpsertSearchAttributes next i)\<rparr>"

section \<open>Inbound\<close>

text \<open>\<^verbatim>\<open>Init\<close> gives what it stores in the \<^verbatim>\<open>outbound_\<close> of the terminal, if anything.\<close>

record 's WorkflowInboundInterceptor =
  in_Init :: "WorkflowOutboundInterceptor \<Rightarrow> WorkflowOutboundInterceptor option"
  in_ExecuteWorkflow :: "Payloads \<Rightarrow> header \<Rightarrow> 's body option"
  in_HandleSignal :: "HandleSignalInput \<Rightarrow> header \<Rightarrow> 's body option"
  in_HandleQuery :: "HandleQueryInput \<Rightarrow> header \<Rightarrow> 's body option"

definition WorkflowInboundInterceptorBase ::
  "'s WorkflowInboundInterceptor option \<Rightarrow> 's WorkflowInboundInterceptor" where
  "WorkflowInboundInterceptorBase next =
     \<lparr>in_Init = (\<lambda>ob. case next of None \<Rightarrow> None | Some n \<Rightarrow> in_Init n ob),
      in_ExecuteWorkflow = (\<lambda>args h. case next of None \<Rightarrow> None | Some n \<Rightarrow> in_ExecuteWorkflow n args h),
      in_HandleSignal = (\<lambda>i h. case next of None \<Rightarrow> None | Some n \<Rightarrow> in_HandleSignal n i h),
      in_HandleQuery = (\<lambda>i h. case next of None \<Rightarrow> None | Some n \<Rightarrow> in_HandleQuery n i h)\<rparr>"

definition RootWorkflowInbound :: "(Payloads \<Rightarrow> 's body) \<Rightarrow> 's WorkflowInboundInterceptor" where
  "RootWorkflowInbound fn =
     (WorkflowInboundInterceptorBase None)\<lparr>in_Init := Some, in_ExecuteWorkflow := (\<lambda>args h. Some (fn args))\<rparr>"

text \<open>A factory is its \<^verbatim>\<open>InterceptWorkflow\<close>.\<close>

type_synonym 's intercept_workflow = "'s WorkflowInboundInterceptor \<Rightarrow> 's WorkflowInboundInterceptor option"

definition BuildWorkflowInboundChain ::
  "'s intercept_workflow list \<Rightarrow> 's WorkflowInboundInterceptor \<Rightarrow> 's WorkflowInboundInterceptor" where
  "BuildWorkflowInboundChain factories terminal = build_chain_loop (rev factories) terminal"

text \<open>
  The first half of \<^verbatim>\<open>RunBody\<close>: the environment in which the workflow's calls are made and the body that
  runs. The runner's \<^verbatim>\<open>ScheduleActivity\<close> keeps the header of the outbound call and drops its input.
\<close>

definition outbound_of :: "WorkflowOutboundInterceptor \<Rightarrow> outbound_chain" where
  "outbound_of ob = (\<lambda>type opts args h.
     snd (wo_ExecuteActivity ob \<lparr>oa_activity_type = type, oa_options = opts, oa_args = args\<rparr> h))"

definition RunBody_start ::
  "env \<Rightarrow> 's intercept_workflow list \<Rightarrow> 's WorkflowRunner \<Rightarrow> (env \<times> 's body) option" where
  "RunBody_start E factories r =
     (let head = BuildWorkflowInboundChain factories (RootWorkflowInbound (workflow_fn r));
          E' = E\<lparr>interceptor_chain := map_option outbound_of (in_Init head RootWorkflowOutbound)\<rparr>
      in map_option (\<lambda>b. (E', b)) (in_ExecuteWorkflow head (input r) (wi_headers (info r))))"

section \<open>Interceptors that delegate\<close>

text \<open>
  An interceptor as the framework expects one: it may decline to wrap; its inbound method changes the
  arguments and runs code around the rest of the chain; its outbound method changes the input and the
  header and delegates.
\<close>

record 's interceptor =
  wraps :: bool
  on_args :: "Payloads \<Rightarrow> Payloads"
  around :: "header \<Rightarrow> 's body \<Rightarrow> 's body"
  on_activity :: "ExecuteActivityOutboundInput \<times> header \<Rightarrow> ExecuteActivityOutboundInput \<times> header"

definition outbound_wrapper :: "'s interceptor \<Rightarrow> WorkflowOutboundInterceptor \<Rightarrow> WorkflowOutboundInterceptor" where
  "outbound_wrapper x next =
     (WorkflowOutboundInterceptorBase next)
       \<lparr>wo_ExecuteActivity := (\<lambda>i h. case on_activity x (i, h) of (i', h') \<Rightarrow> wo_ExecuteActivity next i' h')\<rparr>"

definition InterceptWorkflow :: "'s interceptor \<Rightarrow> 's intercept_workflow" where
  "InterceptWorkflow x next =
     (if wraps x
      then Some ((WorkflowInboundInterceptorBase (Some next))
             \<lparr>in_Init := (\<lambda>ob. in_Init next (outbound_wrapper x ob)),
              in_ExecuteWorkflow := (\<lambda>args h. map_option (around x h) (in_ExecuteWorkflow next (on_args x args) h))\<rparr>)
      else None)"

lemma workflow_chain_Cons:
  "BuildWorkflowInboundChain (f # fs) t
     = (case f (BuildWorkflowInboundChain fs t) of Some w \<Rightarrow> w | None \<Rightarrow> BuildWorkflowInboundChain fs t)"
  by (simp add: BuildWorkflowInboundChain_def build_chain_append split: option.split)

lemma workflow_chain_Nil: "BuildWorkflowInboundChain [] t = t"
  by (simp add: BuildWorkflowInboundChain_def)

lemmas workflow_chain_simps = workflow_chain_Nil workflow_chain_Cons

lemma outbound_base_is_next: "WorkflowOutboundInterceptorBase n = n"
  by (simp add: WorkflowOutboundInterceptorBase_def)

lemma inbound_base_is_next: "WorkflowInboundInterceptorBase (Some n) = n"
  by (simp add: WorkflowInboundInterceptorBase_def)

lemma root_inbound_simps [simp]:
  "in_Init (RootWorkflowInbound fn) ob = Some ob"
  "in_ExecuteWorkflow (RootWorkflowInbound fn) args h = Some (fn args)"
  "in_HandleSignal (RootWorkflowInbound fn) si h = None"
  "in_HandleQuery (RootWorkflowInbound fn) qi h = None"
  by (simp_all add: RootWorkflowInbound_def WorkflowInboundInterceptorBase_def)

lemma intercepted_execute:
  "in_ExecuteWorkflow (BuildWorkflowInboundChain (map InterceptWorkflow xs) t) args h
     = map_option (\<lambda>b. foldr (\<lambda>x. around x h) (filter wraps xs) b)
         (in_ExecuteWorkflow t (fold on_args (filter wraps xs) args) h)"
  by (induction xs arbitrary: args)
    (auto simp: workflow_chain_simps InterceptWorkflow_def option.map_comp o_def option.map_id0)

lemma intercepted_init:
  "in_Init (BuildWorkflowInboundChain (map InterceptWorkflow xs) t) ob
     = in_Init t (fold outbound_wrapper (filter wraps xs) ob)"
  by (induction xs arbitrary: ob) (auto simp: workflow_chain_simps InterceptWorkflow_def)

text \<open>The outbound wrappers run in the opposite order: the last interceptor's first.\<close>

lemma wrapped_activity:
  "wo_ExecuteActivity (fold outbound_wrapper xs ob) i h
     = case_prod (wo_ExecuteActivity ob) (foldr on_activity xs (i, h))"
  by (induction xs arbitrary: ob) (auto simp: outbound_wrapper_def split: prod.split)

section \<open>Activities and clients\<close>

text \<open>An activity-inbound object has one method, so it is that method; \<open>inbound\<close> is its type.\<close>

definition ActivityInboundInterceptorBase :: "inbound \<Rightarrow> inbound" where
  "ActivityInboundInterceptorBase next = (\<lambda>ai args h. next ai args h)"

record SignalWorkflowInput =
  cs_workflow_id :: string
  cs_run_id :: string
  cs_signal_name :: string
  cs_args :: Payloads

record QueryWorkflowInput =
  cq_workflow_id :: string
  cq_run_id :: string
  cq_query_type :: string
  cq_args :: Payloads

record 'w ClientOutboundInterceptor =
  cl_StartWorkflow :: "'w client_outbound"
  cl_SignalWorkflow :: "(SignalWorkflowInput \<Rightarrow> header \<Rightarrow> ('w, unit) io) option"
  cl_QueryWorkflow :: "(QueryWorkflowInput \<Rightarrow> header \<Rightarrow> ('w, Payloads) io) option"

definition ClientOutboundInterceptorBase :: "'w ClientOutboundInterceptor \<Rightarrow> 'w ClientOutboundInterceptor" where
  "ClientOutboundInterceptorBase next =
     \<lparr>cl_StartWorkflow = (\<lambda>i h. cl_StartWorkflow next i h), cl_SignalWorkflow = cl_SignalWorkflow next,
      cl_QueryWorkflow = cl_QueryWorkflow next\<rparr>"

text \<open>The client's terminal issues the start; its two other methods are those of a base with a null \<^verbatim>\<open>next_\<close>.\<close>

definition RootClientOutbound :: "'w client_outbound \<Rightarrow> 'w ClientOutboundInterceptor" where
  "RootClientOutbound start = \<lparr>cl_StartWorkflow = start, cl_SignalWorkflow = None, cl_QueryWorkflow = None\<rparr>"

text \<open>A factory that overrides the start only, and the chain of objects: it starts as the chain of \<open>Client\<close> does.\<close>

definition start_factory ::
  "('w client_outbound \<Rightarrow> 'w client_outbound option) \<Rightarrow> 'w ClientOutboundInterceptor \<Rightarrow> 'w ClientOutboundInterceptor option" where
  "start_factory f next =
     map_option (\<lambda>m. (ClientOutboundInterceptorBase next)\<lparr>cl_StartWorkflow := m\<rparr>) (f (cl_StartWorkflow next))"

lemma start_of_object_chain:
  "cl_StartWorkflow (build_chain_loop (map start_factory gs) n) = build_chain_loop gs (cl_StartWorkflow n)"
  by (induction gs arbitrary: n) (auto simp: start_factory_def split: option.split)

lemma client_chain_of_objects:
  "cl_StartWorkflow (BuildClientOutboundChain (map start_factory fs) (RootClientOutbound start))
     = BuildClientOutboundChain fs start"
  by (simp add: BuildClientOutboundChain_def RootClientOutbound_def rev_map start_of_object_chain)

section \<open>The chain object\<close>

text \<open>
  \<^verbatim>\<open>Interceptor\<close> has a factory method per kind of chain; the ones a subclass does not override decline. \<open>'a\<close> and \<open>'c\<close>
  are the activity-inbound and the client-outbound objects.
\<close>

record ('s, 'a, 'c) Interceptor =
  i_InterceptWorkflow :: "'s intercept_workflow"
  i_InterceptActivity :: "'a \<Rightarrow> 'a option"
  i_InterceptClient :: "'c \<Rightarrow> 'c option"

definition InterceptorBase :: "('s, 'a, 'c) Interceptor" where
  "InterceptorBase = \<lparr>i_InterceptWorkflow = (\<lambda>next. None), i_InterceptActivity = (\<lambda>next. None), i_InterceptClient = (\<lambda>next. None)\<rparr>"

text \<open>\<^verbatim>\<open>InterceptorChain\<close> owns the wrappers the builder made; \<^verbatim>\<open>head_\<close> is null until the builder is done.\<close>

record 'i InterceptorChain =
  chain_head :: "'i option"
  chain_owned :: "'i list"

definition empty_chain :: "'i InterceptorChain" where
  "empty_chain = \<lparr>chain_head = None, chain_owned = []\<rparr>"

definition set_head :: "'i \<Rightarrow> 'i InterceptorChain \<Rightarrow> 'i InterceptorChain" where
  "set_head x c = c\<lparr>chain_head := Some x\<rparr>"

definition adopt :: "'i \<Rightarrow> 'i InterceptorChain \<Rightarrow> 'i InterceptorChain" where
  "adopt w c = c\<lparr>chain_owned := chain_owned c @ [w]\<rparr>"

fun build_chain :: "('i \<Rightarrow> 'i option) list \<Rightarrow> 'i \<Rightarrow> 'i InterceptorChain \<Rightarrow> 'i InterceptorChain" where
  "build_chain [] next c = set_head next c"
| "build_chain (f # fs) next c =
     (case f next of Some wrapper \<Rightarrow> build_chain fs wrapper (adopt wrapper c) | None \<Rightarrow> build_chain fs next c)"

lemma build_chain_head: "chain_head (build_chain fs t c) = Some (build_chain_loop fs t)"
  by (induction fs t c rule: build_chain.induct) (auto simp: set_head_def split: option.split)

definition linked :: "('i \<Rightarrow> 'i option) list \<Rightarrow> 'i \<Rightarrow> 'i list \<Rightarrow> bool" where
  "linked fs t own \<longleftrightarrow> (\<forall>i < length own. \<exists>f \<in> set fs. f ((t # own) ! i) = Some (own ! i))"

lemma linked_adopt:
  assumes "linked gs t own" and "f (last (t # own)) = Some w" and "f \<in> set gs"
  shows "linked gs t (own @ [w])"
  unfolding linked_def
proof (intro allI impI)
  fix i
  assume "i < length (own @ [w])"
  then consider "i < length own" | "i = length own" by fastforce
  then show "\<exists>f \<in> set gs. f ((t # own @ [w]) ! i) = Some ((own @ [w]) ! i)"
  proof cases
    case 1
    then have "(t # own @ [w]) ! i = (t # own) ! i" by (metis Cons_eq_appendI length_Cons less_SucI nth_append)
    with 1 assms(1) show ?thesis by (simp add: linked_def nth_append)
  next
    case 2
    then have "(t # own @ [w]) ! i = last (t # own)" by (simp add: last_conv_nth nth_Cons' nth_append)
    with 2 assms(2,3) show ?thesis by (auto simp: nth_append)
  qed
qed

lemma build_chain_linked:
  assumes "set fs \<subseteq> set gs" and "linked gs t (chain_owned c)" and "next = last (t # chain_owned c)"
  shows "linked gs t (chain_owned (build_chain fs next c)) \<and> build_chain_loop fs next = last (t # chain_owned (build_chain fs next c))"
  using assms
proof (induction fs "next" c rule: build_chain.induct)
  case (2 f fs "next" c)
  show ?case
  proof (cases "f next")
    case (Some w)
    have "linked gs t (chain_owned (adopt w c))" using linked_adopt [of gs t "chain_owned c" f w] 2 Some by (simp add: adopt_def)
    with 2 Some show ?thesis by (simp add: adopt_def)
  qed (use 2 in simp)
qed (simp add: set_head_def)

text \<open>
  A chain keeps everything it calls alive: the head the builder sets is the head of the chain without
  ownership; it is the terminal or a wrapper the chain owns; and every wrapper it owns was made by one of the
  factories around the terminal or around the wrapper it owns just before. Interceptors that override
  nothing leave no trace in the chain.
\<close>

theorem chain_owns_its_wrappers:
  "chain_head (build_chain (rev fs) t empty_chain) = Some (BuildWorkflowInboundChain fs t)
   \<and> BuildWorkflowInboundChain fs t = last (t # chain_owned (build_chain (rev fs) t empty_chain))
   \<and> linked fs t (chain_owned (build_chain (rev fs) t empty_chain))
   \<and> BuildWorkflowInboundChain (fs @ i_InterceptWorkflow InterceptorBase # gs) t = BuildWorkflowInboundChain (fs @ gs) t"
  using build_chain_linked [of "rev fs" fs t empty_chain t]
  by (simp add: build_chain_head BuildWorkflowInboundChain_def empty_chain_def linked_def InterceptorBase_def build_chain_append)

section \<open>Order\<close>

text \<open>
  C11. Interceptors around a workflow. With any list of delegating interceptors the workflow runs
  inside the inbound wrappers in the order of the list, the first outermost, on the arguments
  changed in that order; an activity the workflow schedules carries the header made by the outbound
  wrappers in the opposite order, the last one's first, starting from the workflow's own headers;
  those that decline to wrap are skipped; and whatever the wrappers do to the type, the options or
  the arguments of the call, the command has those the workflow gave.
\<close>

theorem interceptors_around_workflow:
  assumes "activity_known (scan r') (nat_to_string (activity_seq r')) = False" and "outbound_active r'"
  shows "\<exists>E'. RunBody_start E (map InterceptWorkflow xs) r
      = Some (E', foldr (\<lambda>x. around x (wi_headers (info r))) (filter wraps xs)
                    (workflow_fn r (fold on_args (filter wraps xs) (input r))))
    \<and> commands (snd (ScheduleActivity E' type args opts r'))
      = commands r' @ [CmdScheduleActivityTask
          (activity_attributes (info r') (nat_to_string (activity_seq r')) type args opts
            (snd (foldr on_activity (filter wraps xs)
               (\<lparr>oa_activity_type = type, oa_options = opts, oa_args = args\<rparr>, wi_headers (info r')))))]"
  using assms
  by (simp add: RunBody_start_def Let_def intercepted_execute intercepted_init ScheduleActivity_sent
      outbound_header_def outbound_of_def wrapped_activity RootWorkflowOutbound_def case_prod_unfold)

definition stamp :: "string \<Rightarrow> 's interceptor" where
  "stamp name = \<lparr>wraps = True, on_args = (\<lambda>ps. \<lparr>metadata = Map.empty, pdata = name\<rparr> # ps), around = (\<lambda>h b. b),
     on_activity = (\<lambda>(i, h). (i\<lparr>oa_activity_type := name\<rparr>, h(''by'' \<mapsto> \<lparr>metadata = Map.empty, pdata = name\<rparr>)))\<rparr>"

theorem interceptors_around_workflow_witness:
  "\<forall>E wi opts. \<exists>E'.
     RunBody_start E (map InterceptWorkflow [stamp ''first'', stamp ''second''])
       (new_runner E wi False (ScanHistory []) (\<lambda>ps. Finish (Returned ps)) [] ())
     = Some (E', Finish (Returned [\<lparr>metadata = Map.empty, pdata = ''second''\<rparr>, \<lparr>metadata = Map.empty, pdata = ''first''\<rparr>]))
   \<and> (\<exists>sa. commands (snd (ScheduleActivity E' ''pay'' [] opts
          ((new_runner E wi False (ScanHistory []) (\<lambda>ps. Finish (Returned ps)) [] ())\<lparr>outbound_active := True\<rparr>)))
        = [CmdScheduleActivityTask sa] \<and> sa_activity_type sa = ''pay''
      \<and> sa = activity_attributes (wi\<lparr>wi_headers := Map.empty\<rparr>) ''0'' ''pay'' [] opts
              [''by'' \<mapsto> \<lparr>metadata = Map.empty, pdata = ''first''\<rparr>])"
proof (intro allI)
  fix E wi opts
  let ?r = "new_runner E wi False (ScanHistory []) (\<lambda>ps. Finish (Returned ps)) [] () :: unit WorkflowRunner"
  have "activity_known (scan (?r\<lparr>outbound_active := True\<rparr>)) (nat_to_string (activity_seq (?r\<lparr>outbound_active := True\<rparr>))) = False"
    by (simp add: new_runner_def ScanHistory_def empty_prescan_def activity_known_def)
  from interceptors_around_workflow [OF this, of E "[stamp ''first'', stamp ''second'']" ?r "''pay''" "[]" opts]
  show "\<exists>E'. RunBody_start E (map InterceptWorkflow [stamp ''first'', stamp ''second'']) ?r
     = Some (E', Finish (Returned [\<lparr>metadata = Map.empty, pdata = ''second''\<rparr>, \<lparr>metadata = Map.empty, pdata = ''first''\<rparr>]))
   \<and> (\<exists>sa. commands (snd (ScheduleActivity E' ''pay'' [] opts (?r\<lparr>outbound_active := True\<rparr>)))
        = [CmdScheduleActivityTask sa] \<and> sa_activity_type sa = ''pay''
      \<and> sa = activity_attributes (wi\<lparr>wi_headers := Map.empty\<rparr>) ''0'' ''pay'' [] opts
              [''by'' \<mapsto> \<lparr>metadata = Map.empty, pdata = ''first''\<rparr>])"
    by (auto simp: stamp_def new_runner_def ScanHistory_def empty_prescan_def digit_char_def)
qed

end
