(* ===== verification/Tracing_Chain.thy ===== *)
theory Tracing_Chain
  imports Tracing Interceptors
begin

text \<open>
  The tracing interceptor as the framework sees it (\<^verbatim>\<open>include/temporal/interceptor/tracing.h\<close>,
  \<^verbatim>\<open>src/interceptor/tracing.cpp\<close>): its three factory methods, which make interceptor objects out of the wrappers of
  \<open>Tracing\<close>, the slot through which the inbound object of a workflow hands its span to the outbound one,
  and the tracer that does nothing. An object is the record of its methods over a state; a method
  returns or throws.
\<close>

section \<open>The default tracer\<close>

definition NoopTracer :: "(unit, 'w) Tracer" where
  "NoopTracer = \<lparr>StartSpan = (\<lambda>opts w. ((), w)), Inject = (\<lambda>span. []), Extract = (\<lambda>data. None),
     EndSpan = (\<lambda>span err w. w), span_context = (\<lambda>span. [])\<rparr>"

section \<open>Activities and clients\<close>

type_synonym ('w, 'e) activity_object = "ActivityInfo \<Rightarrow> Payloads \<Rightarrow> Header \<Rightarrow> ('w, 'e, Payloads) traced"

definition Tracing_InterceptActivity ::
  "('span, 'w, 'e) TracingInterceptor \<Rightarrow> ('w, 'e) activity_object \<Rightarrow> ('w, 'e) activity_object option" where
  "Tracing_InterceptActivity I next = Some (\<lambda>ai args header. Inbound_ExecuteActivity I ai header (next ai args header))"

record ('w, 'e) client_object =
  co_StartWorkflow :: "StartWorkflowInput \<Rightarrow> Header \<Rightarrow> ('w, 'e, string) traced"
  co_SignalWorkflow :: "SignalWorkflowInput \<Rightarrow> Header \<Rightarrow> ('w, 'e, unit) traced"
  co_QueryWorkflow :: "QueryWorkflowInput \<Rightarrow> Header \<Rightarrow> ('w, 'e, Payloads) traced"

definition Tracing_InterceptClient ::
  "('span, 'w, 'e) TracingInterceptor \<Rightarrow> ('w, 'e) client_object \<Rightarrow> ('w, 'e) client_object option" where
  "Tracing_InterceptClient I next =
     Some \<lparr>co_StartWorkflow = (\<lambda>i h. Client_StartWorkflow I (sw_id (si_options i)) (si_workflow_type i) h (co_StartWorkflow next i)),
           co_SignalWorkflow = (\<lambda>i h. Client_SignalWorkflow I (cs_workflow_id i) (cs_signal_name i) h (co_SignalWorkflow next i)),
           co_QueryWorkflow = (\<lambda>i h. Client_QueryWorkflow I (cq_workflow_id i) (cq_query_type i) h (co_QueryWorkflow next i))\<rparr>"

section \<open>Workflows\<close>

text \<open>
  The state of the tracer together with the slots: \<^verbatim>\<open>WorkflowSpanSlot\<close> holds the context of the running
  workflow's span, or null. Each inbound object has a slot of its own, named by a number here; the
  tracer does not touch the slots.
\<close>

record 'w slotted =
  slots :: "nat \<Rightarrow> tracer_data option"
  tracer_state :: 'w

definition over_slots :: "('span, 'w) Tracer \<Rightarrow> ('span, 'w slotted) Tracer" where
  "over_slots T =
     \<lparr>StartSpan = (\<lambda>opts s. let (span, w) = StartSpan T opts (tracer_state s) in (span, s\<lparr>tracer_state := w\<rparr>)),
      Inject = Inject T, Extract = Extract T,
      EndSpan = (\<lambda>span err s. s\<lparr>tracer_state := EndSpan T span err (tracer_state s)\<rparr>),
      span_context = span_context T\<rparr>"

definition set_slot :: "nat \<Rightarrow> tracer_data option \<Rightarrow> 'w slotted \<Rightarrow> 'w slotted" where
  "set_slot k c s = s\<lparr>slots := (slots s)(k := c)\<rparr>"

text \<open>An outbound method returns the input and the header it was given by reference.\<close>

record ('w, 'e) outbound_object =
  to_ExecuteActivity :: "WorkflowInfo \<Rightarrow> ExecuteActivityOutboundInput \<Rightarrow> Header
    \<Rightarrow> ('w, 'e, ExecuteActivityOutboundInput \<times> Header) traced"
  to_ExecuteChildWorkflow :: "WorkflowInfo \<Rightarrow> ExecuteChildWorkflowInput \<Rightarrow> Header
    \<Rightarrow> ('w, 'e, ExecuteChildWorkflowInput \<times> Header) traced"
  to_SignalExternalWorkflow :: "WorkflowInfo \<Rightarrow> SignalExternalWorkflowInput \<Rightarrow> Header
    \<Rightarrow> ('w, 'e, SignalExternalWorkflowInput \<times> Header) traced"
  to_CancelExternalWorkflow :: "WorkflowInfo \<Rightarrow> CancelExternalWorkflowInput \<Rightarrow> ('w, 'e, CancelExternalWorkflowInput) traced"
  to_UpsertSearchAttributes :: "WorkflowInfo \<Rightarrow> UpsertSearchAttributesInput \<Rightarrow> ('w, 'e, UpsertSearchAttributesInput) traced"

definition Tracing_WorkflowOutbound ::
  "('span, 'w slotted, 'e) TracingInterceptor \<Rightarrow> nat \<Rightarrow> ('w slotted, 'e) outbound_object \<Rightarrow> ('w slotted, 'e) outbound_object" where
  "Tracing_WorkflowOutbound I k next =
     next\<lparr>to_ExecuteActivity := (\<lambda>wi i h s. Outbound_ExecuteActivity I wi (slots s k) (oa_activity_type i) h (to_ExecuteActivity next wi i) s),
          to_ExecuteChildWorkflow := (\<lambda>wi i h s.
            Outbound_ExecuteChildWorkflow I wi (slots s k) (oc_workflow_type i) h (to_ExecuteChildWorkflow next wi i) s),
          to_SignalExternalWorkflow := (\<lambda>wi i h s.
            Outbound_SignalExternalWorkflow I wi (slots s k) (os_signal_name i) h (to_SignalExternalWorkflow next wi i) s)\<rparr>"

record ('w, 'e) inbound_object =
  ti_Init :: "('w, 'e) outbound_object \<Rightarrow> ('w, 'e) outbound_object"
  ti_ExecuteWorkflow :: "WorkflowInfo \<Rightarrow> Payloads \<Rightarrow> Header \<Rightarrow> ('w, 'e, Payloads) traced"
  ti_HandleSignal :: "HandleSignalInput \<Rightarrow> Header \<Rightarrow> ('w, 'e, unit) traced"
  ti_HandleQuery :: "HandleQueryInput \<Rightarrow> Header \<Rightarrow> ('w, 'e, Payloads) traced"

definition Slot_ExecuteWorkflow ::
  "('span, 'w slotted, 'e) TracingInterceptor \<Rightarrow> nat \<Rightarrow> WorkflowInfo \<Rightarrow> Header \<Rightarrow> ('w slotted, 'e, 'r) traced
   \<Rightarrow> ('w slotted, 'e, 'r) traced" where
  "Slot_ExecuteWorkflow I k wi header next =
     Inbound_ExecuteWorkflow I wi header
       (\<lambda>context s. apsnd (set_slot k None) (next (set_slot k context s)))"

definition Tracing_InterceptWorkflow ::
  "('span, 'w slotted, 'e) TracingInterceptor \<Rightarrow> nat \<Rightarrow> ('w slotted, 'e) inbound_object \<Rightarrow> ('w slotted, 'e) inbound_object option" where
  "Tracing_InterceptWorkflow I k next =
     Some \<lparr>ti_Init = (\<lambda>ob. ti_Init next (Tracing_WorkflowOutbound I k ob)),
           ti_ExecuteWorkflow = (\<lambda>wi args h. Slot_ExecuteWorkflow I k wi h (ti_ExecuteWorkflow next wi args h)),
           ti_HandleSignal = (\<lambda>i h. Inbound_HandleSignal I (hs_signal_name i) h (ti_HandleSignal next i h)),
           ti_HandleQuery = (\<lambda>i h. Inbound_HandleQuery I (hq_query_type i) h (ti_HandleQuery next i h))\<rparr>"

section \<open>A tracer that does nothing\<close>

lemma noop_outbound: "tracer I = NoopTracer \<Longrightarrow> outbound I opts h next w = next h w"
  by (simp add: outbound_def NoopTracer_def WriteToHeader_def split: prod.split sum.split)

lemma noop_inbound: "tracer I = NoopTracer \<Longrightarrow> inbound I opts next w = next [] w"
  by (simp add: inbound_def NoopTracer_def split: prod.split sum.split)

lemmas outbound_wrappers = Outbound_ExecuteActivity_def Outbound_ExecuteChildWorkflow_def Outbound_SignalExternalWorkflow_def
  Client_StartWorkflow_def Client_SignalWorkflow_def Client_QueryWorkflow_def

lemma noop_objects:
  assumes "tracer I = NoopTracer"
  shows "Tracing_InterceptActivity I next_activity = Some next_activity"
    and "Tracing_InterceptClient I next_client = Some next_client"
  using assms
  by (simp_all add: Tracing_InterceptActivity_def Tracing_InterceptClient_def Inbound_ExecuteActivity_def outbound_wrappers
      noop_outbound noop_inbound fun_eq_iff)

lemma noop_workflow_outbound:
  "tracer I = over_slots NoopTracer \<Longrightarrow> Tracing_WorkflowOutbound I k next = next"
  by (simp add: Tracing_WorkflowOutbound_def outbound_wrappers outbound_def over_slots_def NoopTracer_def WriteToHeader_def
      fun_eq_iff split: prod.split sum.split)

lemma chain_skips:
  "(\<And>n. f n = Some n) \<Longrightarrow> build_chain_loop (xs @ f # ys) t = build_chain_loop (xs @ ys) t"
  by (simp add: build_chain_append)

text \<open>
  C29. Tracing that is switched on without a backend changes nothing. With the default tracer, a tracing
  interceptor at any place of an activity-inbound or of a client-outbound chain gives the chain
  without it: the same calls with the same arguments and headers, the same results and throws, the
  same state; and its workflow-outbound object is the one it wraps.
\<close>

theorem noop_tracing_changes_nothing:
  assumes "tracer I = NoopTracer" and "tracer S = over_slots NoopTracer"
  shows "BuildActivityInboundChain (xs @ Tracing_InterceptActivity I # ys) t = BuildActivityInboundChain (xs @ ys) t
    \<and> BuildClientOutboundChain (us @ Tracing_InterceptClient I # vs) c = BuildClientOutboundChain (us @ vs) c
    \<and> Tracing_WorkflowOutbound S k ob = ob"
  using noop_objects [OF assms(1)] noop_workflow_outbound [OF assms(2)]
  by (simp add: BuildActivityInboundChain_def BuildClientOutboundChain_def chain_skips)

theorem noop_tracing_changes_nothing_witness:
  "\<forall>ai args. BuildActivityInboundChain [Tracing_InterceptActivity \<lparr>tracer = NoopTracer, header_key = ''k'', json = nul_lib, json_throws = ()\<rparr>]
     (\<lambda>ai args h (w :: nat). (if h ''a'' = None then Inl () else Inr args, Suc w)) ai args Map.empty 4 = (Inl (), 5)"
proof -
  let ?I = "\<lparr>tracer = NoopTracer, header_key = ''k'', json = nul_lib, json_throws = ()\<rparr> :: (unit, nat, unit) TracingInterceptor"
  let ?S = "\<lparr>tracer = over_slots NoopTracer, header_key = ''k'', json = nul_lib, json_throws = ()\<rparr> :: (unit, nat slotted, unit) TracingInterceptor"
  let ?t = "\<lambda>ai args h (w :: nat). (if h ''a'' = None then Inl () else Inr args, Suc w)"
  have "BuildActivityInboundChain ([] @ Tracing_InterceptActivity ?I # []) ?t = BuildActivityInboundChain ([] @ []) ?t"
    by (rule noop_tracing_changes_nothing [of ?I ?S, THEN conjunct1]) simp_all
  then show ?thesis by (simp add: BuildActivityInboundChain_def)
qed

section \<open>The slot\<close>

lemma slot_closed:
  assumes "tracer I = over_slots T"
  shows "slots (snd (Slot_ExecuteWorkflow I k wi h body s)) k = None"
  using assms
  by (auto simp: Slot_ExecuteWorkflow_def Inbound_ExecuteWorkflow_def inbound_def set_slot_def apsnd_def map_prod_def
      over_slots_def split: prod.split sum.split)

text \<open>A call made while the workflow runs is given the workflow's span as its parent.\<close>

lemma slot_open:
  "Slot_ExecuteWorkflow I k wi h (to_ExecuteActivity (Tracing_WorkflowOutbound I k ob) wi i h') s
   = Inbound_ExecuteWorkflow I wi h (\<lambda>c s. apsnd (set_slot k None)
       (Outbound_ExecuteActivity I wi c (oa_activity_type i) h' (to_ExecuteActivity ob wi i) (set_slot k c s))) s"
  by (simp add: Slot_ExecuteWorkflow_def Tracing_WorkflowOutbound_def set_slot_def)

section \<open>A traced client\<close>

text \<open>The start method of the tracing client object, as a factory of the client's own chain.\<close>

definition Tracing_start :: "('span, 'w, client_error) TracingInterceptor \<Rightarrow> 'w client_outbound \<Rightarrow> 'w client_outbound option" where
  "Tracing_start I next =
     Some (\<lambda>i h. Client_StartWorkflow I (sw_id (si_options i)) (si_workflow_type i) h (next i))"

lemma outbound_mem_send:
  assumes "object_laws (json I)" and "tracer I = mem_tracer" and "so_parent opts = None"
  shows "\<exists>h c w2. outbound I opts hdr (\<lambda>h w. (Inr (g h), w)) w = (Inr (g h), w2)
    \<and> span_records w2 = span_records w @ [c] \<and> sr_ended c \<and> \<not> sr_error c \<and> sr_tags c = so_tags opts
    \<and> map_of (ReadFromHeader (json I) (header_key I) h) = map_of (span_of c)"
proof -
  obtain c v where c: "mem_StartSpan opts w = ((length (span_records w), span_of c), v)" "span_records v = span_records w @ [c]"
    "well_named c" "sr_tags c = so_tags opts"
    using mem_start [of opts w] assms(3) by blast
  from outbound_mem [OF assms(1,2) c(1-3), where g = g and hdr = hdr] obtain h w2 where
    "outbound I opts hdr (\<lambda>h w. (Inr (g h), w)) w = (Inr (g h), w2)"
    "span_records w2 = span_records w @ [c\<lparr>sr_ended := True, sr_error := False\<rparr>]"
    "map_of (ReadFromHeader (json I) (header_key I) h) = map_of (span_of c)" by blast
  then show ?thesis
    by (intro exI [of _ h] exI [of _ "c\<lparr>sr_ended := True, sr_error := False\<rparr>"] exI [of _ w2]) (simp add: ending_keeps c(4))
qed

text \<open>
  A traced client. Starting a workflow through a client with a tracing interceptor, over the in-memory
  tracer, sends a request \<open>q\<close> (the server's answer \<open>f q\<close> is the run id of the handle) whose header carries the
  one span of the call, which is ended and tagged with the id the workflow has on the server, also
  when the client generated it.
\<close>

theorem traced_start_carries_span:
  assumes "object_laws (json I)" and "tracer I = mem_tracer"
  shows "\<exists>q c w'. StartWorkflowPayloads cl u1 u2 [Tracing_start I] (\<lambda>q w. (RpcOk (f q), w)) opts type args w
      = (Inr (GetHandle (c_ns cl) (st_workflow_id q) (f q)), w')
    \<and> span_records w' = span_records w @ [c] \<and> sr_ended c \<and> \<not> sr_error c
    \<and> sr_tags c = [''temporalWorkflowID'' \<mapsto> st_workflow_id q] \<and> st_workflow_id q = (if sw_id opts = [] then u1 else sw_id opts)
    \<and> map_of (ReadFromHeader (json I) (header_key I) (map_option FromProtoPayload \<circ> st_header q)) = map_of (span_of c)"
proof -
  let ?i = "\<lparr>si_workflow_type = type, si_options = opts\<lparr>sw_id := start_id u1 opts\<rparr>, si_args = args\<rparr>"
  let ?q = "\<lambda>h. \<lparr>st_ns = c_ns cl, st_workflow_id = start_id u1 opts, st_workflow_type = type,
        st_task_queue = sw_task_queue opts, st_input = payloads_or_unset args, st_signal = None,
        st_identity = c_identity cl, st_request_id = u2,
        st_execution_timeout = timeout_or_unset (sw_execution_timeout opts),
        st_run_timeout = timeout_or_unset (sw_run_timeout opts),
        st_task_timeout = timeout_or_unset (sw_task_timeout opts),
        st_retry_policy = map_option ToProtoRetryPolicy (sw_retry_policy opts),
        st_memo = map_option ToProtoPayload \<circ> sw_memo opts,
        st_search_attributes = map_option ToProtoPayload \<circ> sw_search_attributes opts,
        st_header = map_option ToProtoPayload \<circ> h\<rparr>"
  let ?opts = "client_options ''StartWorkflow'' type (start_id u1 opts)"
  have send: "do_start cl u2 (\<lambda>q w. (RpcOk (f q), w)) (start_id u1 opts) ?i = (\<lambda>h w. (Inr (f (?q h)), w))"
    by (simp add: do_start_def rpc_call_def fun_eq_iff)
  obtain h c w2 where out: "outbound I ?opts (sw_headers opts) (\<lambda>h w. (Inr (f (?q h)), w)) w = (Inr (f (?q h)), w2)"
    "span_records w2 = span_records w @ [c]" "sr_ended c" "\<not> sr_error c" "sr_tags c = so_tags ?opts"
    "map_of (ReadFromHeader (json I) (header_key I) h) = map_of (span_of c)"
    using outbound_mem_send [OF assms, of ?opts "sw_headers opts" "\<lambda>h. f (?q h)" w] by (auto simp: client_options_def)
  have "map_option FromProtoPayload \<circ> st_header (?q h) = h" by (simp add: option.map_comp o_def option.map_ident)
  moreover have "StartWorkflowPayloads cl u1 u2 [Tracing_start I] (\<lambda>q w. (RpcOk (f q), w)) opts type args w
      = (Inr (GetHandle (c_ns cl) (st_workflow_id (?q h)) (f (?q h))), w2)"
    using out(1)
    by (simp add: StartWorkflowPayloads_def BuildClientOutboundChain_def Tracing_start_def Client_StartWorkflow_def send io_map_def Let_def)
  ultimately show ?thesis
    using out by (intro exI [of _ "?q h"] exI [of _ c] exI [of _ w2]) (simp add: client_options_def start_id_def)
qed

section \<open>How a workflow leaves its span\<close>

text \<open>
  A body that returns gives its result; one that throws, \<^verbatim>\<open>ContinueAsNewRequested\<close> included, lets \<^verbatim>\<open>ExecuteWorkflow\<close>
  throw the same.
\<close>

definition leaves :: "outcome \<Rightarrow> outcome + Payloads" where
  "leaves out = (case out of Returned p \<Rightarrow> Inr p | _ \<Rightarrow> Inl out)"

lemma inbound_result:
  assumes "\<And>c v. fst (serve c v) = x"
  shows "fst (inbound I opts serve w) = x"
proof -
  obtain span w1 where s: "StartSpan (tracer I) opts w = (span, w1)" by fastforce
  obtain w2 where "serve (span_context (tracer I) span) w1 = (x, w2)"
    using assms [of "span_context (tracer I) span" w1] by (metis prod.collapse)
  with s show ?thesis by (cases x) (simp_all add: inbound_def)
qed

text \<open>
  C30. What a trace says of the end of a run and what the server is told. For a workflow traced in memory whose body ends in
  any way, the tracing wrapper passes that end on, and the span of the run is ended, with the error flag exactly if
  the body did not return. The server is told that the run completed, failed or continues as new. So a run
  that continues as new, a regular end for the server, is traced as an error, as a failed one is.
\<close>

theorem regular_ends_traced_as_errors:
  assumes "tracer I = mem_tracer" and "\<And>c v. prefix (span_records v) (span_records (snd (body c v)))"
    and "\<And>c v. fst (body c v) = leaves out" and "status rn = Blocked"
  shows "fst (Inbound_ExecuteWorkflow I wi h body w) = leaves out
    \<and> (\<exists>r later. span_records (snd (Inbound_ExecuteWorkflow I wi h body w)) = span_records w @ r # later \<and> sr_ended r
        \<and> sr_error r = (case out of Returned p \<Rightarrow> False | ContinueAsNewRequested type inp \<Rightarrow> True | Threw e \<Rightarrow> True))
    \<and> terminal_commands (RunBody_end E out rn)
      = (case out of
           Returned p \<Rightarrow> [CmdCompleteWorkflowExecution (payloads_or_unset p)]
         | ContinueAsNewRequested type inp \<Rightarrow> [CmdContinueAsNew type (payloads_or_unset inp)]
         | Threw e \<Rightarrow> if e = OtherThrow then [] else [CmdFailWorkflowExecution (body_failure E e)])"
proof -
  have res: "fst (Inbound_ExecuteWorkflow I wi h body w) = leaves out"
    by (simp add: Inbound_ExecuteWorkflow_def inbound_result assms(3))
  moreover have "\<exists>r later. span_records (snd (Inbound_ExecuteWorkflow I wi h body w)) = span_records w @ r # later
      \<and> sr_ended r \<and> sr_error r = isl (fst (Inbound_ExecuteWorkflow I wi h body w))"
    unfolding Inbound_ExecuteWorkflow_def by (rule inbound_span [OF assms(1)]) (rule assms(2))
  moreover have "isl (leaves out) = (case out of Returned p \<Rightarrow> False | ContinueAsNewRequested type inp \<Rightarrow> True | Threw e \<Rightarrow> True)"
    by (simp add: leaves_def split: outcome.split)
  ultimately show ?thesis using assms(4) by (cases out) (simp_all add: terminal_commands_def push_produced_def)
qed

theorem regular_ends_traced_as_errors_witness:
  "\<forall>E wi. \<exists>r. span_records (snd (Inbound_ExecuteWorkflow \<lparr>tracer = mem_tracer, header_key = ''k'', json = nul_lib, json_throws = Threw OtherThrow\<rparr>
      wi Map.empty (\<lambda>c v. (leaves (ContinueAsNewRequested ''next'' []), v)) \<lparr>span_records = [], next_trace_id = 1, next_span_id = 1\<rparr>)) = [r]
    \<and> sr_error r
    \<and> terminal_commands (RunBody_end E (ContinueAsNewRequested ''next'' [])
        (new_runner E wi False empty_prescan (\<lambda>ps. Finish (Returned ps)) [] ())) = [CmdContinueAsNew ''next'' None]"
proof (intro allI)
  fix E wi
  let ?I = "\<lparr>tracer = mem_tracer, header_key = ''k'', json = nul_lib, json_throws = Threw OtherThrow\<rparr>"
  let ?out = "ContinueAsNewRequested ''next'' []"
  let ?body = "\<lambda>c v. (leaves ?out, v :: InMemoryTracer)"
  let ?w = "\<lparr>span_records = [], next_trace_id = 1, next_span_id = 1\<rparr>"
  let ?rn = "new_runner E wi False empty_prescan (\<lambda>ps. Finish (Returned ps)) [] ()"
  have blocked: "status ?rn = Blocked" by (simp add: new_runner_def)
  note end_of_run = regular_ends_traced_as_errors [where I = ?I and body = ?body and w = ?w and wi = wi and h = Map.empty and E = E,
      OF _ _ _ blocked, of ?out, simplified]
  moreover have "length (span_records (snd (Inbound_ExecuteWorkflow ?I wi Map.empty ?body ?w))) = 1"
    by (simp add: Inbound_ExecuteWorkflow_def inbound_def mem_tracer_def mem_StartSpan_def mem_End_def leaves_def Let_def)
  ultimately show "\<exists>r. span_records (snd (Inbound_ExecuteWorkflow ?I wi Map.empty ?body ?w)) = [r] \<and> sr_error r
      \<and> terminal_commands (RunBody_end E ?out ?rn) = [CmdContinueAsNew ''next'' None]"
    by (auto simp: payloads_or_unset_def)
qed

end
