(* ===== verification/Typed_Messages.thy ===== *)
theory Typed_Messages
  imports Typed_Api Task_Handler
begin

text \<open>
  Typed signals, queries and updates: the handles of \<^verbatim>\<open>include/temporal/typed_handles.h\<close>, the overloads of
  \<^verbatim>\<open>client.h\<close> and \<^verbatim>\<open>context.h\<close> that take one, the channel a signal is received from (\<^verbatim>\<open>channel.h\<close>), and the path of a
  typed value from the client through the worker's handlers and back.
\<close>

section \<open>Handles\<close>

record 't SignalRef =
  sref_name :: string
  sref_value_type :: "'t typed"

record 'r QueryRef =
  qref_name :: string
  qref_result_type :: "'r typed"

record 'r UpdateRef =
  uref_name :: string
  uref_result_type :: "'r typed"

text \<open>The client's overloads. A result type that is not \<^verbatim>\<open>void\<close> is decoded from the first payload.\<close>

definition Signal_ref ::
  "string \<Rightarrow> string \<Rightarrow> (signal_request, unit, 'w) stub \<Rightarrow> WorkflowHandle \<Rightarrow> 't SignalRef \<Rightarrow> 't \<Rightarrow> ('w, unit) tio" where
  "Signal_ref identity uuid stub h ref v =
     Signal_args identity uuid stub h (sref_name ref) [to_payload (sref_value_type ref) v]"


definition Update_ref ::
  "string \<Rightarrow> (update_request, Failure + proto_payload list, 'w) stub \<Rightarrow> WorkflowHandle \<Rightarrow> 'r UpdateRef
   \<Rightarrow> (wf_error + Payload) list \<Rightarrow> ('w, 'r) tio" where
  "Update_ref uuid stub h ref es = Update (decode_first (uref_result_type ref)) uuid stub h (uref_name ref) es"

text \<open>The context's overloads: they register under the handle's name; the types are checked when compiling.\<close>

definition SetQueryHandler_ref ::
  "'r QueryRef \<Rightarrow> (Payload \<Rightarrow> wf_error + 'v) list \<Rightarrow> ('v list \<Rightarrow> ('r, 's) member) \<Rightarrow> (unit \<Rightarrow> 's body) \<Rightarrow> 's body" where
  "SetQueryHandler_ref ref ds handler k =
     SetQueryHandler (qref_name ref) (MakeQueryFn ds (Some (to_payload (qref_result_type ref))) handler) k"

definition SetUpdateHandler_ref ::
  "'r UpdateRef \<Rightarrow> (Payload \<Rightarrow> wf_error + 'v) list \<Rightarrow> ('v list \<Rightarrow> ('r, 's) member) \<Rightarrow> (unit \<Rightarrow> 's body) \<Rightarrow> 's body" where
  "SetUpdateHandler_ref ref ds handler k =
     SetUpdateHandler (uref_name ref) (MakeQueryFn ds (Some (to_payload (uref_result_type ref))) handler) None k"

section \<open>Channels\<close>

record 't ReceiveChannel =
  rc_name :: string
  rc_type :: "'t typed"

definition GetSignalChannel :: "'t typed \<Rightarrow> string \<Rightarrow> 't ReceiveChannel" where
  "GetSignalChannel ty name = \<lparr>rc_name = name, rc_type = ty\<rparr>"

definition GetSignalChannel_ref :: "'t SignalRef \<Rightarrow> 't ReceiveChannel" where
  "GetSignalChannel_ref ref = GetSignalChannel (sref_value_type ref) (sref_name ref)"

definition channel_Receive :: "'t ReceiveChannel \<Rightarrow> ('t, 's) member" where
  "channel_Receive ch = Receive (rc_type ch) (rc_name ch)"

text \<open>The form with an out-parameter: it keeps the old value when there is no signal.\<close>

definition ReceiveAsync_out :: "'t typed \<Rightarrow> string \<Rightarrow> 't \<Rightarrow> (bool \<times> 't, 's) member" where
  "ReceiveAsync_out ty name out k thr =
     Invoke (DoTryConsumeSignal name)
       (\<lambda>v. case consumed v of
          Some ps \<Rightarrow> decoded_or (Decode_signal ty ps) (\<lambda>x. k (True, x)) thr
        | None \<Rightarrow> k (False, out))"

lemma ReceiveAsync_out_optional:
  "ReceiveAsync_out ty name out k thr
     = ReceiveAsync ty name (\<lambda>v. k (case v of Some x \<Rightarrow> (True, x) | None \<Rightarrow> (False, out))) thr"
  by (simp add: ReceiveAsync_out_def ReceiveAsync_def cong: option.case_cong)

section \<open>Tasks without a value\<close>

text \<open>\<^verbatim>\<open>workflow_task<void>\<close>: the promise keeps an error only.\<close>

definition return_void :: "thrown option \<Rightarrow> thrown option" where
  "return_void pr = pr"

definition unhandled_exception_void :: "thrown \<Rightarrow> thrown option \<Rightarrow> thrown option" where
  "unhandled_exception_void e pr = Some e"

definition task_get_void :: "thrown option \<Rightarrow> (unit, 's) member" where
  "task_get_void pr k thr = (case pr of Some e \<Rightarrow> thr e | None \<Rightarrow> k ())"

definition run_task_void :: "(unit, 's) member \<Rightarrow> (thrown option \<Rightarrow> 's body) \<Rightarrow> 's body" where
  "run_task_void code finished =
     code (\<lambda>_. finished (return_void None)) (\<lambda>e. finished (unhandled_exception_void e None))"

text \<open>A task without a value is a task with a value of the unit type.\<close>

lemma void_task_is_unit_task:
  "run_task_void code (\<lambda>pr. task_get_void pr k thr) = run_task () code (\<lambda>pr. task_get pr k thr)"
  by (simp add: run_task_void_def run_task_def task_get_void_def task_get_def return_void_def return_value_def
      unhandled_exception_void_def unhandled_exception_def Let_def)

section \<open>The service between client and worker\<close>

text \<open>
  The service is not part of the code: it is the stub of a client call, with the law that the documented protocol
  gives. \<open>run w wid\<close> is the runner a worker has for a workflow when the service is in the state \<open>w\<close>. A query is handed
  to the worker and its answer handed back; an answer that is an error fails the call with its text. An update is handed
  to the worker in a message with ids of the service's choice; the outcome it reports is handed back. What the
  service does when the worker does not answer is left open.
\<close>

definition args_of :: "proto_payload list option \<Rightarrow> proto_payload list" where
  "args_of ps = (case ps of None \<Rightarrow> [] | Some p \<Rightarrow> p)"

definition query_service ::
  "env \<Rightarrow> nat \<Rightarrow> ('w \<Rightarrow> string \<Rightarrow> 's WorkflowRunner) \<Rightarrow> (query_request, proto_payload list, 'w) stub \<Rightarrow> bool" where
  "query_service E n run stub \<longleftrightarrow>
     (\<forall>q w. case answer_query E n (qr_type q, args_of (qr_args q)) (run w (qr_workflow_id q)) of
        Ok (Answered ps, r) \<Rightarrow> \<exists>w'. stub q w = (RpcOk (args_of ps), w') \<and> run w' (qr_workflow_id q) = r
      | Ok (QueryFailed m, r) \<Rightarrow> \<exists>w'. stub q w = (RpcFail OtherCode m, w') \<and> run w' (qr_workflow_id q) = r
      | _ \<Rightarrow> True)"

fun outcome_of :: "out_message list \<Rightarrow> Failure + proto_payload list" where
  "outcome_of [] = Inr []"
| "outcome_of (m # ms) =
     (case om_body m of
        Response inst idn (Success ps) \<Rightarrow> Inr ps
      | Response inst idn (UpdateFailure f) \<Rightarrow> Inl f
      | Rejection i e req f \<Rightarrow> Inl f
      | Acceptance i e req \<Rightarrow> outcome_of ms)"

definition update_service ::
  "env \<Rightarrow> nat \<Rightarrow> ('w \<Rightarrow> string \<Rightarrow> 's WorkflowRunner) \<Rightarrow> (update_request, Failure + proto_payload list, 'w) stub \<Rightarrow> bool" where
  "update_service E n run stub \<longleftrightarrow>
     (\<forall>q w. \<exists>idn msg. um_request msg = Some (ur_name q, args_of (ur_args q))
        \<and> (case process_update E n idn msg (run w (ur_workflow_id q)) of
             Ok (ms, r) \<Rightarrow> \<exists>w'. stub q w = (RpcOk (outcome_of ms), w') \<and> run w' (ur_workflow_id q) = r
           | _ \<Rightarrow> True))"

text \<open>Services for one workflow that meet the laws: their state is the runner.\<close>

definition query_route :: "env \<Rightarrow> nat \<Rightarrow> (query_request, proto_payload list, 's WorkflowRunner) stub" where
  "query_route E n q r =
     (case answer_query E n (qr_type q, args_of (qr_args q)) r of
        Ok (Answered ps, r') \<Rightarrow> (RpcOk (args_of ps), r')
      | Ok (QueryFailed m, r') \<Rightarrow> (RpcFail OtherCode m, r')
      | _ \<Rightarrow> (RpcFail DEADLINE_EXCEEDED ''no worker'', r))"

definition update_route ::
  "env \<Rightarrow> nat \<Rightarrow> (update_request, Failure + proto_payload list, 's WorkflowRunner) stub" where
  "update_route E n q r =
     (case process_update E n [] \<lparr>um_id = ur_update_id q, um_protocol_instance_id = ur_update_id q, um_event_id = 0,
               um_request = Some (ur_name q, args_of (ur_args q))\<rparr> r of
        Ok (ms, r') \<Rightarrow> (RpcOk (outcome_of ms), r')
      | _ \<Rightarrow> (RpcFail DEADLINE_EXCEEDED ''no worker'', r))"

lemma routes_meet_laws:
  "query_service E n (\<lambda>r wid. r) (query_route E n)" "update_service E n (\<lambda>r wid. r) (update_route E n)"
proof -
  show "query_service E n (\<lambda>r wid. r) (query_route E n)"
    by (simp add: query_service_def query_route_def split: flow.split prod.split query_result.split)
  have "\<exists>idn msg. um_request msg = Some (ur_name q, args_of (ur_args q))
      \<and> (case process_update E n idn msg r of
           Ok (ms, r') \<Rightarrow> \<exists>w'. update_route E n q r = (RpcOk (outcome_of ms), w') \<and> w' = r' | _ \<Rightarrow> True)" for q r
    by (intro exI [of _ "[]"] exI [of _ "\<lparr>um_id = ur_update_id q, um_protocol_instance_id = ur_update_id q, um_event_id = 0,
          um_request = Some (ur_name q, args_of (ur_args q))\<rparr>"]) (simp add: update_route_def split: flow.split)
  then show "update_service E n (\<lambda>r wid. r) (update_route E n)" unfolding update_service_def by blast
qed


lemma service_updates:
  assumes "update_service E n run stub"
  shows "\<exists>idn msg. um_request msg = Some (ur_name q, args_of (ur_args q))
    \<and> (\<forall>ms r. process_update E n idn msg (run w (ur_workflow_id q)) = Ok (ms, r) \<longrightarrow>
        (\<exists>w'. stub q w = (RpcOk (outcome_of ms), w') \<and> run w' (ur_workflow_id q) = r))"
proof -
  from assms obtain idn msg where "um_request msg = Some (ur_name q, args_of (ur_args q))"
    and "case process_update E n idn msg (run w (ur_workflow_id q)) of
        Ok (ms, r) \<Rightarrow> \<exists>w'. stub q w = (RpcOk (outcome_of ms), w') \<and> run w' (ur_workflow_id q) = r | _ \<Rightarrow> True"
    unfolding update_service_def by blast
  then show ?thesis by (intro exI [of _ idn] exI [of _ msg]) auto
qed

lemma args_of_Some [simp]: "args_of (Some ps) = ps"
  by (simp add: args_of_def)

lemma args_of_unset [simp]: "FromProtoPayloads (args_of (payloads_or_unset ps)) = ps"
  by (cases ps) (simp_all add: args_of_def payloads_or_unset_def FromProtoPayloads_def ToProtoPayloads_def o_def)

text \<open>A typed handler on arguments that decode runs the function and encodes what it returns.\<close>

lemma run_typed_handler:
  assumes "args_roundtrip es vs ds" and "ToPayloads es = Inr ps"
    and "\<And>k. exec E n (handler vs k uncaught) r = exec E (Suc m) (k x) r1" and "to_payload rty x = Inr p"
  shows "run_handler E n (MakeQueryFn ds (Some (to_payload rty)) handler) ps r = Ok (Inr [p], r1)"
  using args_roundtrip_decode [OF assms(1,2)] assms(3) [of "encode_result (Some (to_payload rty))"] assms(4)
  by (simp add: run_handler_def MakeQueryFn_def decoded_or_def encode_result_def)




section \<open>Updates\<close>

text \<open>
  C5. A typed update from the client to the handler and back, through any service that meets the law above. The
  workflow has registered a typed handler with a validator. If the arguments and the result decode from their encodings
  and the validator, given exactly the client's arguments, lets them pass, the handler runs on them and the
  client's call returns what it returned. If the validator throws, the handler does not run, nothing is accepted,
  and the call fails with the validator's message.
\<close>

theorem typed_update_end_to_end:
  assumes "update_service E n run stub" and "args_roundtrip es vs ds"
    and "update_handlers (run w (wh_workflow_id h)) (uref_name ref)
      = Some (MakeQueryFn ds (Some (to_payload (uref_result_type ref))) handler)"
    and "update_validators (run w (wh_workflow_id h)) (uref_name ref) = Some (MakeValidatorFn ds validator)"
    and "\<And>k. exec E n (validator vs k uncaught) (run w (wh_workflow_id h))
      = exec E (Suc m0) (case verdict of None \<Rightarrow> k () | Some e \<Rightarrow> uncaught (Thrown e)) r0"
    and "update_handlers r0 = update_handlers (run w (wh_workflow_id h))" and "verdict \<noteq> Some OtherThrow"
    and "\<And>k. exec E n (handler vs k uncaught) r0 = exec E (Suc m) (k x) r1"
    and "to_payload (uref_result_type ref) x = Inr p" and "from_payload (uref_result_type ref) p = Inr x"
  shows "\<exists>w'. Update_ref uuid stub h ref es w
        = (case verdict of None \<Rightarrow> Inr x | Some e \<Rightarrow> Inl (CallFailed (WorkflowFailedError (''update failed: '' @ what e) [])), w')
      \<and> run w' (wh_workflow_id h) = (case verdict of None \<Rightarrow> r1 | Some e \<Rightarrow> r0)"
proof -
  obtain ps where ps: "ToPayloads es = Inr ps" using args_roundtrip_encode [OF assms(2)] by blast
  let ?r = "run w (wh_workflow_id h)"
  let ?q = "\<lparr>ur_ns = wh_ns h, ur_workflow_id = wh_workflow_id h, ur_run_id = wh_run_id h, ur_update_id = uuid,
      ur_name = uref_name ref, ur_args = payloads_or_unset ps\<rparr>"
  obtain idn msg where msg: "um_request msg = Some (uref_name ref, args_of (payloads_or_unset ps))"
    and serve: "\<And>ms r. process_update E n idn msg ?r = Ok (ms, r)
      \<Longrightarrow> \<exists>w'. stub ?q w = (RpcOk (outcome_of ms), w') \<and> run w' (wh_workflow_id h) = r"
    using service_updates [OF assms(1), of ?q w] by (simp only: update_request.simps) blast
  have v: "run_handler E n (MakeValidatorFn ds validator) ps ?r = Ok (case verdict of None \<Rightarrow> Inr [] | Some e \<Rightarrow> Inl e, r0)"
    using args_roundtrip_decode [OF assms(2) ps] assms(5) [of "\<lambda>_. Finish (Returned [])"]
    by (cases verdict) (simp_all add: run_handler_def MakeValidatorFn_def decoded_or_def)
  have answer: "\<exists>ms. process_update E n idn msg ?r = Ok (ms, case verdict of None \<Rightarrow> r1 | Some e \<Rightarrow> r0)
      \<and> outcome_of ms = (case verdict of None \<Rightarrow> Inr (ToProtoPayloads [p])
          | Some e \<Rightarrow> Inl (MakeApplicationFailure (what e) ''UpdateValidationRejected'' False))"
  proof (cases verdict)
    case None
    with v run_typed_handler [where handler = handler and x = x, OF assms(2) ps assms(8,9)] assms(3,4,6) msg show ?thesis
      by (simp add: process_update_def ValidateUpdate_def accept_update_def RunUpdate_def Let_def)
  next
    case (Some e)
    with v assms(4,7) msg show ?thesis by (cases e) (simp_all add: process_update_def ValidateUpdate_def Let_def)
  qed
  then show ?thesis using assms(10)
    by (cases verdict) (auto dest!: serve simp: Update_ref_def Update_def with_args_def ps decode_io_def call_io_def UpdatePayloads_def io_bind_def
        rpc_call_def decode_first_def payload_at_def MakeApplicationFailure_def)
qed

theorem typed_update_end_to_end_witness:
  "\<forall>E wi h. fst (Update_ref ''u'' (update_route E 2) h \<lparr>uref_name = ''set'', uref_result_type = text_type\<rparr> [to_payload text_type ''hi'']
      ((new_runner E wi False (ScanHistory []) (\<lambda>ps. Finish (Returned [])) [] ())
        \<lparr>update_handlers := [''set'' \<mapsto> MakeQueryFn [from_payload text_type] (Some (to_payload text_type)) (\<lambda>vs k thr. k (hd vs @ ''!''))],
         update_validators := [''set'' \<mapsto> MakeValidatorFn [from_payload text_type]
            (\<lambda>vs k thr. if hd vs = ''hi'' then thr (Thrown (StdError ''too short'')) else k ())]\<rparr>))
    = Inl (CallFailed (WorkflowFailedError ''update failed: too short'' []))"
proof (intro allI)
  fix E wi h
  let ?ref = "\<lparr>uref_name = ''set'', uref_result_type = text_type\<rparr>"
  let ?h = "\<lambda>vs k thr. k (hd vs @ ''!'') :: unit body"
  let ?v = "\<lambda>vs k thr. (if hd vs = ''hi'' then thr (Thrown (StdError ''too short'')) else k ()) :: unit body"
  let ?r = "(new_runner E wi False (ScanHistory []) (\<lambda>ps. Finish (Returned [])) [] ())
        \<lparr>update_handlers := [''set'' \<mapsto> MakeQueryFn [from_payload text_type] (Some (to_payload text_type)) ?h],
         update_validators := [''set'' \<mapsto> MakeValidatorFn [from_payload text_type] ?v]\<rparr>"
  have "\<exists>w'. Update_ref ''u'' (update_route E 2) h ?ref [to_payload text_type ''hi''] ?r
      = (case Some (StdError ''too short'') of None \<Rightarrow> Inr ''hi!''
           | Some e \<Rightarrow> Inl (CallFailed (WorkflowFailedError (''update failed: '' @ what e) [])), w')
      \<and> w' = (case Some (StdError ''too short'') of None \<Rightarrow> ?r | Some e \<Rightarrow> ?r)"
    by (rule typed_update_end_to_end [where run = "\<lambda>r wid. r" and vs = "[''hi'']" and ds = "[from_payload text_type]" and handler = ?h
          and validator = ?v and m = 1 and ?m0.0 = 1 and p = "\<lparr>metadata = Map.empty, pdata = ''hi!''\<rparr>", OF routes_meet_laws(2)])
      (simp_all add: args_roundtrip_def text_type_def numeral_2_eq_2)
  then show "fst (Update_ref ''u'' (update_route E 2) h ?ref [to_payload text_type ''hi''] ?r)
      = Inl (CallFailed (WorkflowFailedError ''update failed: too short'' []))" by auto
qed

text \<open>
  A handler registered again without a validator is still guarded by the validator of the earlier
  registration: registering a handler does not touch the validators.
\<close>

theorem earlier_validator_stays:
  "\<exists>r'. (\<forall>n. exec E (n + 3) (SetUpdateHandler name h1 (Some v) (\<lambda>_. SetUpdateHandler name h2 None (\<lambda>_. k))) r = exec E n k r')
    \<and> update_handlers r' name = Some h2 \<and> update_validators r' name = Some v"
  by (intro exI [of _ "RegisterHandler UpdateHandler name h2 (RegisterHandler UpdateHandler name h1 (RegisterHandler UpdateValidator name v r))"])
    (simp add: SetUpdateHandler_def eval_nat_numeral)

section \<open>Signals\<close>

text \<open>
  A typed signal from the client to the workflow. What a client sends with a handle, once the service has put it into
  an event of the history and the worker applies that event to the waiting workflow, is what the
  channel of that handle receives next, if no other signal of the name waits before it.
\<close>

theorem typed_signal_end_to_end:
  assumes "Signal_ref identity uuid (\<lambda>q w. (RpcOk (), w @ [q])) h ref v [] = (Inr (), [q])"
    and "and_then (to_payload (sref_value_type ref) v) (from_payload (sref_value_type ref)) = Inr v"
    and "attrs ev = WorkflowExecutionSignaled (sg_name q) (args_of (sg_input q))" and "last_event_id (scan r) < event_id ev"
    and "cursor_ok (sref_name ref) r" and "pending (sref_name ref) r = []"
  shows "\<exists>r'. pending (sref_name ref) r' = []
    \<and> (\<forall>m k thr. exec E (Suc m) (channel_Receive (GetSignalChannel_ref ref) k thr) (ApplyEvents [ev] r) = exec E m (k v) r')"
proof -
  obtain p where p: "to_payload (sref_value_type ref) v = Inr p" "from_payload (sref_value_type ref) p = Inr v"
    using assms(2) by (auto simp: and_then_Inr)
  with assms(1) have q: "sg_name q = sref_name ref" "FromProtoPayloads (args_of (sg_input q)) = [p]"
    by (auto simp: Signal_ref_def Signal_args_def with_args_def call_io_def Signal_def rpc_call_def)
  have "pending (sref_name ref) (ApplyEvents [ev] r) = [[p]]" "cursor_ok (sref_name ref) (ApplyEvents [ev] r)"
    using assms(3-6) q
    by (auto simp: ApplyEventToState_def push_signal_def pending_def cursor_ok_def queue_of_def map_at_def Let_def split: option.splits)
  from exec_receive_ready [OF this, of E] obtain r' where r': "pending (sref_name ref) r' = []"
    and e: "exec E (Suc m) (receive_loop False (sref_name ref) k) (ApplyEvents [ev] r) = exec E m (k [p]) r'" for m k
    by (auto simp del: exec.simps ApplyEvents.simps)
  have "exec E (Suc m) (channel_Receive (GetSignalChannel_ref ref) k thr) (ApplyEvents [ev] r) = exec E m (k v) r'" for m k thr
    unfolding channel_Receive_def GetSignalChannel_ref_def GetSignalChannel_def Receive_def
    using p(2) by (simp add: e Decode_signal_def decoded_or_def del: exec.simps ApplyEvents.simps)
  with r' show ?thesis by blast
qed

end
