(* ===== verification/Grpc_Client.thy ===== *)
theory Grpc_Client
  imports Client
begin

text \<open>
  The connection every component shares (\<^verbatim>\<open>src/internal/grpc_client.h\<close>, \<^verbatim>\<open>grpc_client.cpp\<close>): what the
  constructor makes of its options, the table of RPC wrappers that the macros expand to, and the context
  each call is issued with. \<open>rpc_call\<close> of \<open>Client\<close> and \<open>UnaryCall\<close> of \<open>Grpc\<close> do the rest. The stubs are
  parameters; the clock is an argument, in nanoseconds.
\<close>

section \<open>Construction\<close>

record TlsConfig =
  tls_enabled :: bool
  server_ca_cert :: string
  client_cert :: string
  client_key :: string
  server_name :: string

datatype ChannelCredentials =
    InsecureChannelCredentials
  | SslCredentials (pem_root_certs: string) (pem_private_key: string) (pem_cert_chain: string)

record Channel =
  ch_target :: string
  ch_credentials :: ChannelCredentials
  ssl_target_name_override :: "string option"

record GrpcClient =
  gc_ns :: string
  gc_identity :: string
  api_key :: string
  auth_header :: string
  gc_channel :: Channel

definition new_GrpcClient :: "string \<Rightarrow> string \<Rightarrow> string \<Rightarrow> TlsConfig \<Rightarrow> string \<Rightarrow> GrpcClient" where
  "new_GrpcClient target ns identity tls key =
     \<lparr>gc_ns = ns, gc_identity = identity, api_key = key,
      auth_header = (if key \<noteq> [] then ''Bearer '' @ key else []),
      gc_channel = \<lparr>ch_target = target,
        ch_credentials = (if tls_enabled tls
                          then SslCredentials (server_ca_cert tls) (client_key tls) (client_cert tls)
                          else InsecureChannelCredentials),
        ssl_target_name_override = (if server_name tls \<noteq> [] then Some (server_name tls) else None)\<rparr>\<rparr>"

section \<open>The wrappers\<close>

datatype service = WorkflowService | OperatorService | TestService

text \<open>A method: its name in \<^verbatim>\<open>GrpcClient\<close>, the stub and the RPC it calls, and whether it is a long poll.\<close>

record rpc_method =
  rm_name :: string
  rm_service :: service
  rm_rpc :: string
  rm_poll :: bool

definition TEMPORAL_WS_CALL :: "string \<times> bool \<Rightarrow> rpc_method" where
  "TEMPORAL_WS_CALL mp = \<lparr>rm_name = fst mp, rm_service = WorkflowService, rm_rpc = fst mp, rm_poll = snd mp\<rparr>"

definition TEMPORAL_OP_CALL :: "string \<Rightarrow> rpc_method" where
  "TEMPORAL_OP_CALL m = \<lparr>rm_name = m, rm_service = OperatorService, rm_rpc = m, rm_poll = False\<rparr>"

definition ws_calls :: "(string \<times> bool) list" where
  "ws_calls =
     [(''StartWorkflowExecution'', False), (''DescribeWorkflowExecution'', False),
      (''ListWorkflowExecutions'', False), (''CountWorkflowExecutions'', False),
      (''SignalWithStartWorkflowExecution'', False), (''CreateSchedule'', False), (''DescribeSchedule'', False),
      (''DeleteSchedule'', False), (''UpdateSchedule'', False), (''PatchSchedule'', False),
      (''ListSchedules'', False), (''GetWorkflowExecutionHistory'', True), (''PollWorkflowTaskQueue'', True),
      (''RespondWorkflowTaskCompleted'', False), (''RespondWorkflowTaskFailed'', False),
      (''PollActivityTaskQueue'', True), (''RespondActivityTaskCompleted'', False),
      (''RespondActivityTaskFailed'', False), (''PollNexusTaskQueue'', True),
      (''RespondNexusTaskCompleted'', False), (''RespondNexusTaskFailed'', False),
      (''RecordActivityTaskHeartbeat'', False), (''SignalWorkflowExecution'', False),
      (''RequestCancelWorkflowExecution'', False), (''TerminateWorkflowExecution'', False),
      (''QueryWorkflow'', False), (''RespondQueryTaskCompleted'', False), (''UpdateWorkflowExecution'', False),
      (''ResetWorkflowExecution'', False), (''GetWorkerBuildIdCompatibility'', False),
      (''UpdateWorkerBuildIdCompatibility'', False), (''GetWorkerVersioningRules'', False),
      (''UpdateWorkerVersioningRules'', False), (''StartBatchOperation'', False), (''StopBatchOperation'', False),
      (''DescribeBatchOperation'', False), (''ListBatchOperations'', False), (''GetClusterInfo'', False),
      (''ListWorkerDeployments'', False), (''DescribeWorkerDeployment'', False),
      (''SetWorkerDeploymentCurrentVersion'', False)]"

definition op_calls :: "string list" where
  "op_calls =
     [''AddSearchAttributes'', ''ListSearchAttributes'', ''RemoveSearchAttributes'', ''ListClusters'',
      ''CreateNexusEndpoint'', ''GetNexusEndpoint'', ''ListNexusEndpoints'', ''AddOrUpdateRemoteCluster'',
      ''RemoveRemoteCluster'', ''DeleteNamespace'']"

definition test_methods :: "rpc_method list" where
  "test_methods =
     [\<lparr>rm_name = ''LockTimeSkipping'', rm_service = TestService, rm_rpc = ''LockTimeSkipping'', rm_poll = False\<rparr>,
      \<lparr>rm_name = ''UnlockTimeSkipping'', rm_service = TestService, rm_rpc = ''UnlockTimeSkipping'', rm_poll = False\<rparr>,
      \<lparr>rm_name = ''TestServerSleep'', rm_service = TestService, rm_rpc = ''Sleep'', rm_poll = False\<rparr>,
      \<lparr>rm_name = ''GetCurrentTime'', rm_service = TestService, rm_rpc = ''GetCurrentTime'', rm_poll = False\<rparr>]"

definition rpc_methods :: "rpc_method list" where
  "rpc_methods = map TEMPORAL_WS_CALL ws_calls @ map TEMPORAL_OP_CALL op_calls @ test_methods"

section \<open>Issuing a call\<close>

definition kPollSeconds :: int where
  "kPollSeconds = 5"

record ClientContext =
  ctx_deadline :: "int option"
  ctx_metadata :: "(string \<times> string) list"

definition call_context :: "GrpcClient \<Rightarrow> int \<Rightarrow> bool \<Rightarrow> ClientContext" where
  "call_context c now poll =
     \<lparr>ctx_deadline = (if poll then Some (now + kPollSeconds * ns_per_s) else None),
      ctx_metadata = (if auth_header c \<noteq> [] then [(''authorization'', auth_header c), (''temporal-namespace'', gc_ns c)]
                      else [])\<rparr>"

definition issue ::
  "GrpcClient \<Rightarrow> int \<Rightarrow> (service \<Rightarrow> string \<Rightarrow> ClientContext \<Rightarrow> ('q, 'r, 'w) stub) \<Rightarrow> 'r \<Rightarrow> rpc_method \<Rightarrow> 'q \<Rightarrow> ('w, 'r) io" where
  "issue c now stubs unset m req =
     rpc_call (rm_rpc m) (rm_poll m) unset (stubs (rm_service m) (rm_rpc m) (call_context c now (rm_poll m))) req"

section \<open>The table\<close>

lemma polls_table:
  "list_all (\<lambda>m. rm_poll m \<longleftrightarrow> rm_name m \<in> set [''GetWorkflowExecutionHistory'', ''PollWorkflowTaskQueue'',
      ''PollActivityTaskQueue'', ''PollNexusTaskQueue'']) rpc_methods"
  by code_simp

lemma polls_of_table:
  "m \<in> set rpc_methods \<Longrightarrow> rm_poll m \<longleftrightarrow>
     rm_name m \<in> {''GetWorkflowExecutionHistory'', ''PollWorkflowTaskQueue'', ''PollActivityTaskQueue'', ''PollNexusTaskQueue''}"
  using polls_table by (simp add: list_all_iff)

text \<open>The RPC names are distinct, so the text of an error names one method.\<close>

lemma rpc_names_distinct: "distinct (map rm_rpc rpc_methods)"
  by code_simp

lemma auth_header_iff: "auth_header (new_GrpcClient target ns ident tls key) = [] \<longleftrightarrow> key = []"
  by (simp add: new_GrpcClient_def)

lemma call_context_of_options:
  "call_context (new_GrpcClient target ns ident tls key) now poll =
     \<lparr>ctx_deadline = (if poll then Some (now + 5000000000) else None),
      ctx_metadata = (if key = [] then [] else [(''authorization'', ''Bearer '' @ key), (''temporal-namespace'', ns)])\<rparr>"
  by (simp add: call_context_def new_GrpcClient_def kPollSeconds_def ns_per_s_def)

lemma UnaryCall_cases:
  "UnaryCall name poll unset st =
     (case st of
        RpcOk resp \<Rightarrow> Inr resp
      | RpcFail code msg \<Rightarrow>
          (case code of
             DEADLINE_EXCEEDED \<Rightarrow> if poll then Inr unset else Inl (RpcError (''rpc '' @ name @ '' failed: '' @ msg))
           | NOT_FOUND \<Rightarrow> Inl (NotFoundError (''rpc '' @ name @ '' failed: '' @ msg))
           | OtherCode \<Rightarrow> Inl (RpcError (''rpc '' @ name @ '' failed: '' @ msg))))"
  by (simp add: Let_def split: rpc.split status_code.split)

lemma issue_cases:
  assumes "rm_poll m \<longleftrightarrow> long_poll"
  shows "issue (new_GrpcClient target ns ident tls key) now stubs unset m req w =
    (case stubs (rm_service m) (rm_rpc m)
       \<lparr>ctx_deadline = (if long_poll then Some (now + 5000000000) else None),
        ctx_metadata = (if key = [] then [] else [(''authorization'', ''Bearer '' @ key), (''temporal-namespace'', ns)])\<rparr> req w of
       (st, w') \<Rightarrow> (case st of
           RpcOk resp \<Rightarrow> Inr resp
         | RpcFail DEADLINE_EXCEEDED msg \<Rightarrow>
             if long_poll then Inr unset else Inl (ClientRpc (RpcError (''rpc '' @ rm_rpc m @ '' failed: '' @ msg)))
         | RpcFail NOT_FOUND msg \<Rightarrow> Inl (ClientRpc (NotFoundError (''rpc '' @ rm_rpc m @ '' failed: '' @ msg)))
         | RpcFail OtherCode msg \<Rightarrow> Inl (ClientRpc (RpcError (''rpc '' @ rm_rpc m @ '' failed: '' @ msg))), w'))"
  unfolding issue_def rpc_call_def UnaryCall_cases call_context_of_options assms
  by (rule prod.case_cong) (simp_all split: rpc.split status_code.split)

text \<open>
  C35. How a call of the shared connection ends. Whatever the options of the connection and whichever
  method: the stub is called once, with the API key and the namespace in its metadata when there
  is a key and with nothing otherwise; exactly the history and the three task polls have a deadline,
  five seconds from now, and for exactly these an elapsed deadline gives the empty response; every
  other error is thrown with the name of the RPC, as \<^verbatim>\<open>NotFoundError\<close> when the server says so; and a
  response is returned as it came.
\<close>

theorem rpc_outcomes:
  assumes "m \<in> set rpc_methods"
  shows "issue (new_GrpcClient target ns ident tls key) now stubs unset m req w =
    (let long_poll = rm_name m \<in> {''GetWorkflowExecutionHistory'', ''PollWorkflowTaskQueue'',
                                   ''PollActivityTaskQueue'', ''PollNexusTaskQueue''};
         ctx = \<lparr>ctx_deadline = (if long_poll then Some (now + 5000000000) else None),
                ctx_metadata = (if key = [] then []
                                else [(''authorization'', ''Bearer '' @ key), (''temporal-namespace'', ns)])\<rparr>;
         (st, w') = stubs (rm_service m) (rm_rpc m) ctx req w;
         text = (\<lambda>msg. ''rpc '' @ rm_rpc m @ '' failed: '' @ msg)
     in (case st of
           RpcOk resp \<Rightarrow> Inr resp
         | RpcFail DEADLINE_EXCEEDED msg \<Rightarrow> if long_poll then Inr unset else Inl (ClientRpc (RpcError (text msg)))
         | RpcFail NOT_FOUND msg \<Rightarrow> Inl (ClientRpc (NotFoundError (text msg)))
         | RpcFail OtherCode msg \<Rightarrow> Inl (ClientRpc (RpcError (text msg))), w'))"
  unfolding Let_def by (rule issue_cases [OF polls_of_table [OF assms]])

theorem rpc_outcomes_witness:
  "\<forall>tls (w :: nat). issue (new_GrpcClient ''host'' ''ns'' ''me'' tls ''k'') 7
       (\<lambda>s name ctx req w. (if ctx_deadline ctx = Some 5000000007 \<and> map_of (ctx_metadata ctx) ''authorization'' = Some ''Bearer k''
                            then RpcFail DEADLINE_EXCEEDED ''late'' else RpcOk [1 :: nat], Suc w)) []
       (TEMPORAL_WS_CALL (''PollNexusTaskQueue'', True)) () w = (Inr [], Suc w)"
proof (intro allI)
  fix tls and w :: nat
  have "TEMPORAL_WS_CALL (''PollNexusTaskQueue'', True) \<in> set rpc_methods"
    by (simp add: rpc_methods_def ws_calls_def)
  then show "issue (new_GrpcClient ''host'' ''ns'' ''me'' tls ''k'') 7
       (\<lambda>s name ctx req w. (if ctx_deadline ctx = Some 5000000007 \<and> map_of (ctx_metadata ctx) ''authorization'' = Some ''Bearer k''
                            then RpcFail DEADLINE_EXCEEDED ''late'' else RpcOk [1 :: nat], Suc w)) []
       (TEMPORAL_WS_CALL (''PollNexusTaskQueue'', True)) () w = (Inr [], Suc w)"
    by (simp add: rpc_outcomes) (simp add: TEMPORAL_WS_CALL_def)
qed

end
