(* ===== verification/Search_Attribute.thy ===== *)
theory Search_Attribute
  imports Data_Converter Client
begin

text \<open>
  Search-attribute values (\<^verbatim>\<open>src/common/search_attribute.cpp\<close>): JSON payloads tagged with the indexed type the
  server checks. The JSON library is the parameter of \<open>Data_Converter\<close>, with the three further
  constructors used here; \<open>None\<close> is a value whose text form the library refuses to write.
\<close>

record ('j, 'd) sa_lib = "'j json_lib" +
  json_of_double :: "'d \<Rightarrow> 'j"
  json_of_bool :: "bool \<Rightarrow> 'j"
  json_of_strings :: "string list \<Rightarrow> 'j"

definition kType :: string where "kType = ''type''"

definition Encode :: "('j, 'd) sa_lib \<Rightarrow> string \<Rightarrow> 'j \<Rightarrow> Payload option" where
  "Encode J type v = map_option (\<lambda>t. \<lparr>metadata = [kEncoding \<mapsto> kJson, kType \<mapsto> type], pdata = t\<rparr>) (dump J v)"

definition sa_Keyword :: "('j, 'd) sa_lib \<Rightarrow> string \<Rightarrow> Payload option" where
  "sa_Keyword J s = Encode J ''Keyword'' (json_of_string J s)"

definition sa_Text :: "('j, 'd) sa_lib \<Rightarrow> string \<Rightarrow> Payload option" where
  "sa_Text J s = Encode J ''Text'' (json_of_string J s)"

definition sa_Int :: "('j, 'd) sa_lib \<Rightarrow> int \<Rightarrow> Payload option" where
  "sa_Int J n = Encode J ''Int'' (json_of_int J n)"

definition sa_Double :: "('j, 'd) sa_lib \<Rightarrow> 'd \<Rightarrow> Payload option" where
  "sa_Double J x = Encode J ''Double'' (json_of_double J x)"

definition sa_Bool :: "('j, 'd) sa_lib \<Rightarrow> bool \<Rightarrow> Payload option" where
  "sa_Bool J b = Encode J ''Bool'' (json_of_bool J b)"

definition sa_KeywordList :: "('j, 'd) sa_lib \<Rightarrow> string list \<Rightarrow> Payload option" where
  "sa_KeywordList J vs = Encode J ''KeywordList'' (json_of_strings J vs)"

lemmas attribute_defs = sa_Keyword_def sa_Text_def sa_Int_def sa_Double_def sa_Bool_def sa_KeywordList_def

text \<open>What a value is encoded as: a value of one of the six types, its payload, and its JSON form.\<close>

datatype 'd attribute = AKeyword string | AText string | AInt int | ADouble 'd | ABool bool | AKeywordList "string list"

fun attribute_payload :: "('j, 'd) sa_lib \<Rightarrow> 'd attribute \<Rightarrow> Payload option" where
  "attribute_payload J (AKeyword s) = sa_Keyword J s"
| "attribute_payload J (AText s) = sa_Text J s"
| "attribute_payload J (AInt n) = sa_Int J n"
| "attribute_payload J (ADouble x) = sa_Double J x"
| "attribute_payload J (ABool b) = sa_Bool J b"
| "attribute_payload J (AKeywordList vs) = sa_KeywordList J vs"

fun attribute_json :: "('j, 'd) sa_lib \<Rightarrow> 'd attribute \<Rightarrow> 'j" where
  "attribute_json J (AKeyword s) = json_of_string J s"
| "attribute_json J (AText s) = json_of_string J s"
| "attribute_json J (AInt n) = json_of_int J n"
| "attribute_json J (ADouble x) = json_of_double J x"
| "attribute_json J (ABool b) = json_of_bool J b"
| "attribute_json J (AKeywordList vs) = json_of_strings J vs"

fun attribute_type :: "'d attribute \<Rightarrow> IndexedValueType" where
  "attribute_type (AKeyword s) = Keyword"
| "attribute_type (AText s) = Text"
| "attribute_type (AInt n) = IntType"
| "attribute_type (ADouble x) = DoubleType"
| "attribute_type (ABool b) = BoolType"
| "attribute_type (AKeywordList vs) = KeywordList"

text \<open>
  A search attribute reads back and carries a type the client can register: its payload decodes with
  the default converters to the JSON value it was made of, and its type tag is the name that
  \<^verbatim>\<open>AddSearchAttributes\<close> accepts for exactly that type.
\<close>

theorem search_attribute_reads_back:
  assumes "json_laws (json_lib.truncate J) plain" and "plain (attribute_json J v)"
  shows "\<exists>p type. attribute_payload J v = Some p
    \<and> FromPayloadJson (DefaultConverters (json_lib.truncate J)) p = Inr (attribute_json J v)
    \<and> metadata p kType = Some type \<and> IndexedValueTypeFromString type = Inr (attribute_type v)"
proof -
  obtain t where t: "dump J (attribute_json J v) = Some t" "parse J t = Some (attribute_json J v)"
    using assms by (auto simp: json_laws_def json_lib.truncate_def)
  have read: "FromPayloadJson (DefaultConverters (json_lib.truncate J)) \<lparr>metadata = [kEncoding \<mapsto> kJson, kType \<mapsto> type], pdata = t\<rparr>
      = Inr (attribute_json J v)" for type
    using t(2) by (simp add: FromPayloadJson_def DefaultConverters_def NilPayloadConverter_def BytesPayloadConverter_def
        JsonPayloadConverter_def payload_encoding_def kType_def encoding_defs json_lib.truncate_def)
  show ?thesis
    using t(1) read by (cases v) (auto simp: attribute_defs Encode_def IndexedValueTypeFromString_def)
qed

end
