(* ===== verification/Logger.thy ===== *)
theory Logger
  imports Prelude
begin

text \<open>
  The default logger (\<^verbatim>\<open>include/temporal/log/logger.h\<close>, \<^verbatim>\<open>src/log/logger.cpp\<close>): one record is one write of a time
  stamp, the level, the message and its fields. The broken-down UTC time that \<^verbatim>\<open>gmtime_r\<close> gives and the
  milliseconds are arguments; what reaches the stream is the list of writes, since the mutex is held for
  each.
\<close>

datatype Level = Debug | Info | Warn | Error

record Field =
  field_key :: string
  field_value :: string

definition F :: "string \<Rightarrow> string \<Rightarrow> Field" where
  "F key v = \<lparr>field_key = key, field_value = v\<rparr>"

fun LevelName :: "Level \<Rightarrow> string" where
  "LevelName Debug = ''DEBUG''"
| "LevelName Info = ''INFO''"
| "LevelName Warn = ''WARN''"
| "LevelName Error = ''ERROR''"

record tm =
  tm_year :: int
  tm_mon :: int
  tm_mday :: int
  tm_hour :: int
  tm_min :: int
  tm_sec :: int

text \<open>The conversion \<^verbatim>\<open>%0nd\<close>: the sign counts towards the width.\<close>

definition zero_padded :: "nat \<Rightarrow> int \<Rightarrow> string" where
  "zero_padded n i =
     (let digits = nat_to_string (nat (abs i)); sign = (if i < 0 then ''-'' else [])
      in sign @ replicate (n - length sign - length digits) (CHR ''0'') @ digits)"

definition buf_size :: nat where
  "buf_size = 32"

text \<open>\<^verbatim>\<open>snprintf\<close> keeps what fits before the terminating NUL.\<close>

definition Utc8601 :: "tm \<Rightarrow> int \<Rightarrow> string" where
  "Utc8601 t ms =
     take (buf_size - 1)
       (zero_padded 4 (tm_year t + 1900) @ ''-'' @ zero_padded 2 (tm_mon t + 1) @ ''-'' @ zero_padded 2 (tm_mday t) @ ''T''
        @ zero_padded 2 (tm_hour t) @ '':'' @ zero_padded 2 (tm_min t) @ '':'' @ zero_padded 2 (tm_sec t) @ ''.''
        @ zero_padded 3 ms @ ''Z'')"

definition NL :: char where
  "NL = CHR 0x0A"

definition log_line :: "string \<Rightarrow> Level \<Rightarrow> string \<Rightarrow> Field list \<Rightarrow> string" where
  "log_line stamp level message fs =
     stamp @ '' '' @ LevelName level @ '' '' @ message
     @ concat (map (\<lambda>f. '' '' @ field_key f @ ''='' @ field_value f) fs) @ [NL]"

text \<open>The stream is what has been written so far.\<close>

definition Log :: "tm \<Rightarrow> int \<Rightarrow> Level \<Rightarrow> string \<Rightarrow> Field list \<Rightarrow> string \<Rightarrow> string" where
  "Log t ms level message fs stream = stream @ log_line (Utc8601 t ms) level message fs"

text \<open>The shorthands of the base class.\<close>

definition log_Debug :: "tm \<Rightarrow> int \<Rightarrow> string \<Rightarrow> Field list \<Rightarrow> string \<Rightarrow> string" where
  "log_Debug t ms m fs = Log t ms Debug m fs"

definition log_Info :: "tm \<Rightarrow> int \<Rightarrow> string \<Rightarrow> Field list \<Rightarrow> string \<Rightarrow> string" where
  "log_Info t ms m fs = Log t ms Info m fs"

definition log_Warn :: "tm \<Rightarrow> int \<Rightarrow> string \<Rightarrow> Field list \<Rightarrow> string \<Rightarrow> string" where
  "log_Warn t ms m fs = Log t ms Warn m fs"

definition log_Error :: "tm \<Rightarrow> int \<Rightarrow> string \<Rightarrow> Field list \<Rightarrow> string \<Rightarrow> string" where
  "log_Error t ms m fs = Log t ms Error m fs"

section \<open>Time stamps\<close>

definition valid_tm :: "tm \<Rightarrow> bool" where
  "valid_tm t \<longleftrightarrow> 0 \<le> tm_year t + 1900 \<and> tm_year t + 1900 \<le> 9999 \<and> 0 \<le> tm_mon t \<and> tm_mon t \<le> 11
     \<and> 1 \<le> tm_mday t \<and> tm_mday t \<le> 31 \<and> 0 \<le> tm_hour t \<and> tm_hour t \<le> 23 \<and> 0 \<le> tm_min t \<and> tm_min t \<le> 59
     \<and> 0 \<le> tm_sec t \<and> tm_sec t \<le> 60"

lemma length_nat_to_string: "n < 10 ^ Suc k \<Longrightarrow> length (nat_to_string n) \<le> Suc k"
proof (induction k arbitrary: n)
  case (Suc k)
  show ?case
  proof (cases "n < 10")
    case False
    then have "length (nat_to_string n) = Suc (length (nat_to_string (n div 10)))"
      by (subst nat_to_string.simps) simp
    with Suc.IH [of "n div 10"] Suc.prems show ?thesis by auto
  qed simp
qed simp

lemma length_zero_padded:
  assumes "0 \<le> i" and "i < 10 ^ Suc k"
  shows "length (zero_padded (Suc k) i) = Suc k"
proof -
  have "nat i < 10 ^ Suc k" using assms by (simp add: nat_less_iff)
  from length_nat_to_string [OF this] assms(1) show ?thesis by (simp add: zero_padded_def Let_def)
qed

lemma length_Utc8601:
  assumes "valid_tm t" and "0 \<le> ms" and "ms < 1000"
  shows "length (Utc8601 t ms) = 24"
  using assms length_zero_padded [of "tm_year t + 1900" 3] length_zero_padded [of "tm_mon t + 1" 1]
    length_zero_padded [of "tm_mday t" 1] length_zero_padded [of "tm_hour t" 1] length_zero_padded [of "tm_min t" 1]
    length_zero_padded [of "tm_sec t" 1] length_zero_padded [of ms 2]
  by (simp add: Utc8601_def valid_tm_def buf_size_def numeral_nat)

section \<open>Lines\<close>

lemma NL_not_digit: "NL \<notin> set (nat_to_string n)"
  using nat_to_string_digits [of NL n] by (auto simp: is_digit_def NL_def)

lemma NL_not_in_stamp: "NL \<notin> set (Utc8601 t ms)"
proof -
  have "NL \<notin> set (zero_padded n i)" for n i
    using NL_not_digit by (auto simp: zero_padded_def NL_def Let_def)
  then show ?thesis by (auto simp: Utc8601_def NL_def dest: in_set_takeD)
qed

definition has_break :: "string \<Rightarrow> Field list \<Rightarrow> bool" where
  "has_break message fs \<longleftrightarrow> NL \<in> set message \<or> (\<exists>f \<in> set fs. NL \<in> set (field_key f) \<or> NL \<in> set (field_value f))"

definition breaks :: "string \<Rightarrow> Field list \<Rightarrow> nat" where
  "breaks message fs = count_list message NL + (\<Sum>f\<leftarrow>fs. count_list (field_key f) NL + count_list (field_value f) NL)"

lemma breaks_0 [simp]: "breaks message fs = 0 \<longleftrightarrow> \<not> has_break message fs"
  by (auto simp: breaks_def has_break_def count_list_0_iff)

lemma count_log_line: "count_list (log_line (Utc8601 t ms) level message fs) NL = Suc (breaks message fs)"
proof -
  have "count_list (concat (map (\<lambda>f. '' '' @ field_key f @ ''='' @ field_value f) fs)) NL
      = (\<Sum>f\<leftarrow>fs. count_list (field_key f) NL + count_list (field_value f) NL)"
    by (induction fs) (simp_all add: NL_def)
  then show ?thesis
    using NL_not_in_stamp [of t ms]
    by (cases level) (simp_all add: log_line_def breaks_def NL_def count_list_0_iff [THEN iffD2])
qed

lemma count_stream:
  "count_list (fold (\<lambda>(t, ms, level, message, fs). Log t ms level message fs) records stream) NL
     = count_list stream NL + length records + (\<Sum>(t, ms, level, message, fs)\<leftarrow>records. breaks message fs)"
  by (induction records arbitrary: stream) (auto simp: Log_def count_log_line)

text \<open>
  A stream of records has one line per record exactly when no message, key or value contains a line
  break: nothing is escaped, so a record with a break in it takes more lines.
\<close>

theorem one_line_per_record:
  "count_list (fold (\<lambda>(t, ms, level, message, fs). Log t ms level message fs) records []) NL = length records
     \<longleftrightarrow> list_all (\<lambda>(t, ms, level, message, fs). \<not> has_break message fs) records"
  by (auto simp: count_stream list_all_iff)

end
