(* ===== verification/Test_Environment.thy ===== *)
theory Test_Environment
  imports Client
begin

text \<open>
  The scope of a test environment (\<^verbatim>\<open>testing/test_workflow_environment.h\<close>): its constructor unlocks the
  time skipping of a shared test server and its destructor locks it again, both ignoring errors.

  The server is a parameter. What the code relies on is what its comments say of it: a lock counter
  that a lock raises and an unlock lowers, an unlock at zero being rejected, and time being skipped only
  while the counter is zero.
\<close>

section \<open>The server\<close>

text \<open>An RPC answers whether it was accepted; a rejected one is an exception of the client.\<close>

record 'w test_server =
  lock_rpc :: "'w \<Rightarrow> bool \<times> 'w"
  unlock_rpc :: "'w \<Rightarrow> bool \<times> 'w"
  lock_counter :: "'w \<Rightarrow> nat"

definition counter_laws :: "'w test_server \<Rightarrow> bool" where
  "counter_laws S \<longleftrightarrow>
     (\<forall>w. lock_counter S (snd (lock_rpc S w)) = Suc (lock_counter S w))
     \<and> (\<forall>w. lock_counter S (snd (unlock_rpc S w)) = lock_counter S w - 1)
     \<and> (\<forall>w. fst (unlock_rpc S w) \<longleftrightarrow> 0 < lock_counter S w)"

definition skips_time :: "'w test_server \<Rightarrow> 'w \<Rightarrow> bool" where
  "skips_time S w \<longleftrightarrow> lock_counter S w = 0"

section \<open>The environment\<close>

text \<open>\<^verbatim>\<open>LockTimeSkipping\<close> and \<^verbatim>\<open>UnlockTimeSkipping\<close> of the client: \<open>Inl\<close> where they throw.\<close>

definition LockTimeSkipping :: "'w test_server \<Rightarrow> 'w \<Rightarrow> 'w + 'w" where
  "LockTimeSkipping S w = (case lock_rpc S w of (ok, w') \<Rightarrow> if ok then Inr w' else Inl w')"

definition UnlockTimeSkipping :: "'w test_server \<Rightarrow> 'w \<Rightarrow> 'w + 'w" where
  "UnlockTimeSkipping S w = (case unlock_rpc S w of (ok, w') \<Rightarrow> if ok then Inr w' else Inl w')"

definition ignoring :: "'w + 'w \<Rightarrow> 'w" where
  "ignoring x = (case x of Inl w \<Rightarrow> w | Inr w \<Rightarrow> w)"

definition open_environment :: "'w test_server \<Rightarrow> 'w \<Rightarrow> 'w" where
  "open_environment S w = ignoring (UnlockTimeSkipping S w)"

definition close_environment :: "'w test_server \<Rightarrow> 'w \<Rightarrow> 'w" where
  "close_environment S w = ignoring (LockTimeSkipping S w)"

text \<open>The rest of the class passes its calls to the client it connected to the given target.\<close>

definition MakeClient :: "string \<Rightarrow> string \<Rightarrow> ClientOptions \<Rightarrow> Client \<times> string" where
  "MakeClient default_identity target options = Connect default_identity (options\<lparr>co_target := target\<rparr>)"

definition CurrentTime :: "(unit, proto_duration, 'w) stub \<Rightarrow> ('w, int) io" where
  "CurrentTime stub = GetCurrentTime stub"

definition environment_Sleep :: "(proto_duration, unit, 'w) stub \<Rightarrow> int \<Rightarrow> ('w, unit) io" where
  "environment_Sleep stub duration = Sleep stub duration"

definition environment_LockTimeSkipping :: "'w test_server \<Rightarrow> 'w \<Rightarrow> 'w + 'w" where
  "environment_LockTimeSkipping S w = LockTimeSkipping S w"

definition environment_UnlockTimeSkipping :: "'w test_server \<Rightarrow> 'w \<Rightarrow> 'w + 'w" where
  "environment_UnlockTimeSkipping S w = UnlockTimeSkipping S w"

lemma MakeClient_target: "target \<noteq> [] \<Longrightarrow> snd (MakeClient ident target options) = target"
  by (simp add: MakeClient_def Connect_def)

lemma environment_counter:
  assumes "counter_laws S"
  shows "lock_counter S (open_environment S w) = lock_counter S w - 1"
    and "lock_counter S (close_environment S w) = Suc (lock_counter S w)"
  using assms
  by (auto simp: counter_laws_def open_environment_def close_environment_def ignoring_def LockTimeSkipping_def
      UnlockTimeSkipping_def split: prod.split) (metis snd_conv)+

lemma repeated_counter:
  assumes "counter_laws S"
  shows "lock_counter S ((open_environment S ^^ n) w) = lock_counter S w - n"
    and "lock_counter S ((close_environment S ^^ n) w) = lock_counter S w + n"
  by (induction n) (simp_all add: environment_counter [OF assms])

section \<open>Balance\<close>

text \<open>
  Environments that do not overlap leave the server as they found it, locked once, however many
  follow each other. Environments that overlap do not: of \<open>n\<close> open at the same time only the
  first unlocks, but each locks when it closes, so the server is left locked \<open>n\<close> times and the next
  environment skips time only when \<open>n\<close> was one; and already the first of them to close stops the time
  skipping of those still open.
\<close>

theorem overlapping_environments_leave_locks:
  assumes laws: "counter_laws S" and start: "lock_counter S w = 1" and n: "0 < n"
  shows "lock_counter S (((close_environment S \<circ> open_environment S) ^^ n) w) = 1
    \<and> lock_counter S ((close_environment S ^^ n) ((open_environment S ^^ n) w)) = n
    \<and> (skips_time S (open_environment S ((close_environment S ^^ n) ((open_environment S ^^ n) w))) \<longleftrightarrow> n = 1)
    \<and> skips_time S ((open_environment S ^^ n) w)
    \<and> \<not> skips_time S (close_environment S ((open_environment S ^^ n) w))"
proof -
  have "lock_counter S (((close_environment S \<circ> open_environment S) ^^ m) w) = 1" for m
    by (induction m) (simp_all add: environment_counter [OF laws] start)
  moreover have "(n - 1 = 0) = (n = 1)" using n by auto
  ultimately show ?thesis
    using n by (simp add: repeated_counter [OF laws] environment_counter [OF laws] skips_time_def start)
qed

definition counting_server :: "nat test_server" where
  "counting_server = \<lparr>lock_rpc = (\<lambda>c. (True, Suc c)), unlock_rpc = (\<lambda>c. (0 < c, c - 1)), lock_counter = id\<rparr>"

theorem overlapping_environments_leave_locks_witness:
  "counter_laws counting_server \<and>
   \<not> skips_time counting_server (close_environment counting_server ((open_environment counting_server ^^ 2) 1))"
  using overlapping_environments_leave_locks [of counting_server 1 2]
  by (simp add: counter_laws_def counting_server_def)

end
