(* ===== verification/Spec2Isabelle.thy ===== *)
theory Spec2Isabelle
  imports Replay Coroutine Failure_Converter Poller_Stop Worker_Serving Runner_Types Worker_Facade Tracing_Chain Typed_Messages Grpc_Client
    Search_Attribute Logger Test_Environment
begin

text \<open>
  A verification development for temporal-cpp, a C++ SDK for the Temporal workflow service.

  The program. A worker (\<^verbatim>\<open>src/internal/worker_impl.cpp\<close>) runs poll loops. A workflow task it polls goes to
  \<^verbatim>\<open>WorkflowTaskHandler::Handle\<close> (\<^verbatim>\<open>src/internal/workflow_task_handler.cpp\<close>), which either resumes the runner
  of that execution from its LRU cache (\<^verbatim>\<open>lru_cache.h\<close>) or scans the whole history, builds a
  \<^verbatim>\<open>WorkflowRunner\<close>, replays the workflow function on a coroutine (\<^verbatim>\<open>coroutine.cpp\<close>), compares the commands
  it produced with the recorded ones (\<^verbatim>\<open>determinism.h\<close>), and answers the service. Activity and Nexus tasks
  go to their own handlers. Values travel as payloads made by the data converter
  (\<^verbatim>\<open>src/converter/data_converter.cpp\<close>) and the failure converter.

  Theories, by what they model.
    \<^item> \<^verbatim>\<open>Prelude\<close>: lemmas and fact collections the others share; \<^verbatim>\<open>Proto_Util\<close>: payload, duration, retry
      policy and failure conversions, and the UUID generator, of \<^verbatim>\<open>proto_util.cpp\<close>.
    \<^item> \<^verbatim>\<open>Determinism\<close>: \<^verbatim>\<open>MatchReplayCommands\<close> and its messages. \<^verbatim>\<open>Lru_Cache\<close>: the cache as the list and the
      index the code keeps. \<^verbatim>\<open>Coroutine\<close>: the two threads of a coroutine as a step relation over the
      program points of both.
    \<^item> \<^verbatim>\<open>History\<close>: the history events, \<^verbatim>\<open>ScanHistory\<close> and its \<^verbatim>\<open>Prescan\<close>. \<^verbatim>\<open>Runner\<close>: the state of
      \<^verbatim>\<open>WorkflowRunner\<close> as a record, and every operation the workflow context calls. \<^verbatim>\<open>Runner_Exec\<close>: running the
      workflow function (a tree of calls and continuations), query and update handlers, and applying new
      events to a live runner. \<^verbatim>\<open>Runner_Types\<close>: the conformance of a runner's references, and the throw nobody
      catches. \<^verbatim>\<open>Replay\<close>: the simulation between a live run and its replay.
    \<^item> \<^verbatim>\<open>Grpc\<close>, \<^verbatim>\<open>Grpc_Client\<close>: the error classes of \<^verbatim>\<open>UnaryCall\<close>; the connection, the table of RPC wrappers and
      the context of a call, of \<^verbatim>\<open>grpc_client.cpp\<close>. \<^verbatim>\<open>Task_Handler\<close>: \<^verbatim>\<open>Handle\<close>, history paging, legacy queries,
      updates, the sticky cache and \<^verbatim>\<open>ReplayHistory\<close>.
    \<^item> \<^verbatim>\<open>Base64\<close>, \<^verbatim>\<open>Data_Converter\<close>, \<^verbatim>\<open>Failure_Converter\<close>: the payload converters, the codecs, the remote
      payload stores and the failure conversions.
    \<^item> \<^verbatim>\<open>Activity_Handler\<close>, \<^verbatim>\<open>Nexus_Handler\<close>: the two other task handlers, heartbeats and interceptor chains.
      \<^verbatim>\<open>Interceptors\<close>: the interceptor classes, and how \<^verbatim>\<open>RunBody\<close> wires the inbound and the outbound chain.
      \<^verbatim>\<open>Tracing\<close>: the tracing interceptor of \<^verbatim>\<open>src/interceptor/tracing.cpp\<close> and its in-memory tracer;
      \<^verbatim>\<open>Tracing_Chain\<close>: the objects it puts into the chains, the slot that holds the span of the running workflow, and
      the default tracer.
    \<^item> \<^verbatim>\<open>Worker\<close>: concurrency gate, rate limiter, poller scaler, sessions, and the bodies of the poll loops.
      \<^verbatim>\<open>Poller_Stop\<close>: the pollers and \<^verbatim>\<open>Stop\<close> as threads around one condition variable. \<^verbatim>\<open>Worker_Lifecycle\<close>: the
      worker object, its construction, registration, \<^verbatim>\<open>Start\<close>, \<^verbatim>\<open>Stop\<close> and \<^verbatim>\<open>ReplayWorkflowHistory\<close>. \<^verbatim>\<open>Worker_Facade\<close>:
      \<^verbatim>\<open>worker::Worker\<close>, its typed registrations, and \<^verbatim>\<open>Run\<close>. \<^verbatim>\<open>Worker_Metrics\<close>: a poller's thread, pass by pass, with the
      metrics it reports; \<^verbatim>\<open>Worker_Serving\<close>: the workflow loop with the task handler it calls.
    \<^item> \<^verbatim>\<open>Workflow_Api\<close>: what workflow code is written against, as bodies of \<^verbatim>\<open>Runner\<close>: futures, signal channels,
      the selector, the members of the context, sessions, and the adapters of typed functions. \<^verbatim>\<open>Task_Sequence\<close>: a
      run over any number of tasks, and signals received live and on replay.
    \<^item> \<^verbatim>\<open>Client\<close>: the calls of \<^verbatim>\<open>src/client/client.cpp\<close>, each as the requests it sends and what it makes of the
      answers. \<^verbatim>\<open>Typed_Api\<close>: the templates of \<^verbatim>\<open>client.h\<close> and \<^verbatim>\<open>worker.h\<close> that encode arguments and decode results, and
      workflows written as C++ coroutines (\<^verbatim>\<open>coro.h\<close>). \<^verbatim>\<open>Typed_Messages\<close>: typed handles for signals, queries and updates
      (\<^verbatim>\<open>typed_handles.h\<close>) and the overloads that take them. \<^verbatim>\<open>Search_Attribute\<close>, \<^verbatim>\<open>Logger\<close>: the values and the lines of
      the files of those names. \<^verbatim>\<open>Test_Environment\<close>: the scope of \<^verbatim>\<open>TestWorkflowEnvironment\<close>.

  What is a parameter. The service behind the RPC stubs is the record \<^verbatim>\<open>gateway\<close> for the task handler and a
  stub per call for the client, which answers from a state of its own; the JSON and zlib libraries,
  the random source, the user's interceptors, the test server and the user's workflow and activity functions are
  arguments. What a theorem needs of them is a named hypothesis (\<^verbatim>\<open>json_laws\<close>, \<^verbatim>\<open>zlib_laws\<close>, \<^verbatim>\<open>object_laws\<close>,
  \<^verbatim>\<open>counter_laws\<close>, \<^verbatim>\<open>marker_codec\<close>, and of the service \<^verbatim>\<open>start_service\<close>, \<^verbatim>\<open>query_service\<close>, \<^verbatim>\<open>update_service\<close>) and is
  shown to hold of a concrete instance.

  Interfaces. The runner's demands on its converter are the locale \<^verbatim>\<open>marker_codec\<close>, which this theory shows
  the default data converter meets. The cache's contract is the locale \<^verbatim>\<open>lru\<close>, interpreted on the list and
  index of \<^verbatim>\<open>Lru_Cache\<close>; the handler's lemmas rest on it. \<^verbatim>\<open>payload_codec\<close> and \<^verbatim>\<open>payload_storage\<close> are the
  contracts of a codec and of a payload store, interpreted on those the library ships. \<^verbatim>\<open>call_relation\<close> carries
  what holds across one call of a runner to a whole run, interpreted on the typing of references, on
  the state the body cannot reach (coroutine, scan and status) and on the commands that end a run, which no call sends. \<^verbatim>\<open>stop_safe\<close> is what a monitor must do for \<^verbatim>\<open>Stop\<close> to wake its waiters, interpreted on the gate; the scaler does not meet it.

  What is shown.
    \<^item> Replay: a live first task and its replay agree under the conditions of \<^verbatim>\<open>first_task_replays\<close>, the determinism check accepts
      exactly the histories that match, the scan records commands and outcomes, events applied in
      pieces equal events applied at once, and signals are received over any tasks as on replay, accepted updates
      included.
    \<^item> The runner: in every state it can reach its registries point to futures of their kind and id
      (\<^verbatim>\<open>runner_references_typed\<close>); a throw outside \<^verbatim>\<open>std::exception\<close> strands the run; interceptors nest as
      configured around the workflow and in the opposite order around its activity calls.
    \<^item> Tasks: every workflow and activity task is answered at most once on every path, the cache
      invariant is kept, finished runs leave the cache (a run failed for non-determinism apart), history paging is complete.
    \<^item> Data structures: the cache refines a recency list; Base64 is RFC 4648 and round-trips; values, codecs, stores
      and failures round-trip, and chained codecs do not; durations and UUIDs have their wire form.
    \<^item> Threads: the coroutine's two threads strictly alternate and its destructor ends when the body lets
      the abort through and awaits nothing while it unwinds, and may hang for ever otherwise; the gate, limiter and scaler keep their bounds, the loops give back what they took, and
      stopping joins every poller of a gate but may miss one of the scaler.
    \<^item> Across components: a session created by a workflow is pinned to a queue its worker polls, one trace
      runs from the client's start call to the activity, and a client's result is the completion at the
      end of the chain of runs. A typed activity call returns to the workflow what the registered function
      returned for exactly its arguments, a typed workflow started by a client gives that client the value
      the function returned, and typed queries and updates reach their handlers and come back, updates
      past their validator. The workflow loop answers only tasks it dispatched, none twice, and counts as handled
      exactly the answers the service accepted; the default tracer changes nothing.

  Bounds. Durations and clock readings are unbounded integers; the 64-bit nanoseconds of \<^verbatim>\<open>std::chrono\<close> overflow
  for a heartbeat timeout above 36 years only. An exception that leaves \<^verbatim>\<open>Handle\<close>, and a call that does not return, give
  the handler before the step that did not finish; what that step did to a resident runner by then is not
  tracked. The session counter is part of \<^verbatim>\<open>Worker\<close>, and the creation activity of \<^verbatim>\<open>Worker_Lifecycle\<close> only
  hands out the queue.

  Fuel. Running a workflow body takes a number of steps as fuel, because user code may loop;
  \<^verbatim>\<open>resume_budget_irrelevant\<close> shows that any fuel that is enough gives the same result. Running out marks the
  runner deadlocked when a deadlock timeout is set and is the value \<^verbatim>\<open>Hangs\<close> otherwise, never a success. The
  client's waiting and paging loops take the number of answers they may read, and are \<^verbatim>\<open>None\<close> when that is not
  enough. A workflow function that loops for ever is a corecursive body. Every other function is total with
  a termination proof.

  Not modelled. The wire encoding of gRPC and protobuf, sockets and TLS beyond the options the channel is
  asked for; the text of log records the handlers write; metrics handlers that throw; outbound interceptors
  that throw, tracing apart; the installation of process signal handlers in \<^verbatim>\<open>Run\<close>, whose flag is an argument. Wall-clock
  time appears only as the instants passed to the limiter, the heartbeat throttle, the deadlock timeout, the
  poll deadline, the latency timers and the logger. What is left of the sources is includes, declarations,
  comments and special member functions the compiler generates. Thread interleaving is modelled for the coroutine, the gate, the scaler, the
  stop of the pollers and the sticky metric; the other code runs under one lock.
\<close>

section \<open>The runner's converter is the data converter\<close>

text \<open>
  The converter the runner calls for the strings and integers of its markers, as instances of
  \<^verbatim>\<open>ToPayload\<close> and \<^verbatim>\<open>FromPayload\<close>. Where \<^verbatim>\<open>ToPayload\<close> throws, on a string that is no valid text, the
  runner has no payload; the theorems keep to strings it encodes.
\<close>

definition encoded :: "dc_error + Payload \<Rightarrow> Payload" where
  "encoded x = (case x of Inr p \<Rightarrow> p | Inl e \<Rightarrow> empty_payload)"

definition decoded :: "('j \<Rightarrow> 'a option) \<Rightarrow> dc_error + 'j \<Rightarrow> 'a option" where
  "decoded get x = (case x of Inr j \<Rightarrow> get j | Inl e \<Rightarrow> None)"

definition json_converter ::
  "'j json_lib \<Rightarrow> 'j DataConverter \<Rightarrow> (wf_error \<Rightarrow> Failure) option \<Rightarrow> converter" where
  "json_converter J dc fc =
     \<lparr>to_payload_string = (\<lambda>s. encoded (ToPayload_value dc (json_of_string J s))),
      from_payload_string = (\<lambda>p. decoded (get_string J) (FromPayload_value dc p)),
      to_payload_int = (\<lambda>n. encoded (ToPayload_value dc (json_of_int J n))),
      from_payload_int = (\<lambda>p. decoded (get_int J) (FromPayload_value dc p)),
      failure_converter = fc\<rparr>"

definition WithFailureConverter :: "(wf_error \<Rightarrow> Failure) \<Rightarrow> converter \<Rightarrow> converter" where
  "WithFailureConverter fc cv = cv\<lparr>failure_converter := Some fc\<rparr>"

text \<open>Setting the failure converter afterwards leaves the payload side as it was; the last one set is in force.\<close>

lemma WithFailureConverter_json:
  "WithFailureConverter fc (json_converter J dc fc') = json_converter J dc (Some fc)"
  by (simp add: WithFailureConverter_def json_converter_def)

text \<open>The default data converter keeps what the runner relies on for its markers.\<close>

lemma default_payload:
  assumes "json_laws J plain" and "plain v"
  shows "\<exists>t. t \<noteq> [] \<and> encoded (ToPayload_value (DefaultDataConverter J) v) = \<lparr>metadata = [kEncoding \<mapsto> kJson], pdata = t\<rparr>
    \<and> FromPayload_value (DefaultDataConverter J) \<lparr>metadata = [kEncoding \<mapsto> kJson], pdata = t\<rparr> = Inr v"
proof -
  obtain t where t: "dump J v = Some t" "t \<noteq> []" "parse J t = Some v"
    using json_lawsD(8) [OF assms] by blast
  then show ?thesis
    using to_payload_stack(3) [OF assms t(1)] from_payload_stack(3) [OF t(3)]
    by (simp add: encoded_def ToPayload_value_def FromPayload_value_def DefaultDataConverter_def)
qed

lemma json_marker_codec:
  assumes J: "json_laws J plain"
  shows "marker_codec (json_converter J (DefaultDataConverter J) fc) (\<lambda>s. plain (json_of_string J s))"
proof
  fix s :: string
  assume "plain (json_of_string J s)"
  from default_payload [OF J this] json_lawsD(5) [OF J]
  show "from_payload_string (json_converter J (DefaultDataConverter J) fc)
      (to_payload_string (json_converter J (DefaultDataConverter J) fc) s) = Some s"
    "pdata (to_payload_string (json_converter J (DefaultDataConverter J) fc) s) \<noteq> []"
    by (auto simp: json_converter_def decoded_def)
next
  fix n :: int
  assume n: "- (2 ^ 31) \<le> n" "n < 2 ^ 31"
  from default_payload [OF J json_lawsD(9) [OF J n]] json_lawsD(11) [OF J n]
  show "from_payload_int (json_converter J (DefaultDataConverter J) fc)
      (to_payload_int (json_converter J (DefaultDataConverter J) fc) n) = Some n"
    by (auto simp: json_converter_def decoded_def)
next
  show "plain (json_of_string J [])" by (rule json_lawsD(10) [OF J])
qed

interpretation tiny: marker_codec "json_converter tiny_lib (DefaultDataConverter tiny_lib) None"
  "\<lambda>s. tiny_plain (json_of_string tiny_lib s)"
  by (rule json_marker_codec [OF tiny_laws])

section \<open>Replay\<close>

text \<open>What the server appends for the commands of a task, one event each.\<close>

definition recorded_tail :: "'s WorkflowRunner \<Rightarrow> HistoryEvent list" where
  "recorded_tail r = map (\<lambda>c. \<lparr>event_id = 0, attrs = echo_attrs c\<rparr>) (commands r @ terminal_commands r)"

lemma echo_not_other: "\<not> is_other (echo_attrs c)"
  by (cases c) simp_all

lemma recorded_tail_records: "records (recorded_tail r) (commands r @ terminal_commands r)"
  by (simp add: records_def recorded_tail_def filter_map comp_def echo_not_other)

text \<open>
  C1. Replay of a first task is faithful, for workflow code that keeps to these rules: it does not ask
  whether it is replaying and uses no mutable side effects, and every \<^verbatim>\<open>GetVersion\<close> has a non-empty range
  that ends in an \<^verbatim>\<open>int\<close> and a change id the converter encodes (\<open>safe_body\<close>); and for a live run that did not overrun its
  deadlock timeout, sent a command for every one it counted as produced and had no cancellation of an activity refused
  (\<open>all_sent\<close>; the double version query below breaks this), and whose local activities fail with texts the converter encodes
  (\<open>text_failures\<close>). The converter is the default one, over any JSON library with the laws \<open>json_laws\<close>. Then:
  when that first task is executed live and the server records its commands as events, a later replay of
  that history from scratch, in another world and possibly with other interceptors and activities, sends
  nothing, ends in the same status with the same result, futures, locals and produced commands, and
  passes the determinism check. The history before the task has no events but the start, signals, a cancellation
  request and those the scan ignores.
\<close>

theorem first_task_replays:
  assumes J: "json_laws J plain"
    and cv: "conv E = json_converter J (DefaultDataConverter J) fc" "conv E' = conv E"
    and tf: "text_failures (\<lambda>s. plain (json_of_string J s)) E"
    and h: "first_task_history h"
    and run: "Run E n (built E t wi False h fn s0) = Ok rl" "\<not> deadlocked rl"
    and safe: "safe_body (\<lambda>s. plain (json_of_string J s)) (fn (ps_input (ScanHistory h)))"
    and sent: "all_sent rl"
    and rec: "records tail (commands rl @ terminal_commands rl)"
  shows "\<exists>r. Run E' n (built E' t wi True (h @ tail) fn s0) = Ok r
    \<and> commands r = [] \<and> CheckDeterminism r = None
    \<and> status r = status rl \<and> run_result r = run_result rl \<and> run_failure r = run_failure rl
    \<and> heap r = heap rl \<and> locals r = locals rl \<and> coroutine r = coroutine rl
    \<and> produced_commands r = produced_commands rl"
proof -
  have cv': "conv E' = json_converter J (DefaultDataConverter J) fc" using cv by simp
  obtain V M where "Run E' n (built E' t wi True (h @ tail) fn s0) = Ok (mirror (ScanHistory (h @ tail)) True V M rl)"
    and "CheckDeterminism (mirror (ScanHistory (h @ tail)) True V M rl) = None"
    using marker_codec.replay_first_task [OF json_marker_codec [OF J] h cv(1) cv' tf run safe sent rec] by blast
  then show ?thesis by (simp add: mirror_def)
qed

definition demo_env :: env where
  "demo_env = \<lparr>conv = json_converter tiny_lib (DefaultDataConverter tiny_lib) None, local_activity_resolver = None,
     interceptor_chain = None, world = 0\<rparr>"

definition demo_info :: WorkflowInfo where
  "demo_info = \<lparr>wi_workflow_id = ''w'', wi_run_id = ''r'', wi_workflow_type = ''t'', wi_task_queue = ''q'',
     wi_ns = ''default'', wi_headers = Map.empty\<rparr>"

definition demo_history :: "HistoryEvent list" where
  "demo_history = [\<lparr>event_id = 1, attrs = WorkflowExecutionStarted ''t'' [] Map.empty\<rparr>]"

text \<open>A workflow that asks for a version, starts a timer and returns.\<close>

definition demo_workflow :: "Payloads \<Rightarrow> unit body" where
  "demo_workflow p = Invoke (DoGetVersion ''change'' 0 1) (\<lambda>v. Invoke (DoStartTimer 1000) (\<lambda>f. Finish (Returned [])))"

lemmas run_defs = Run_def ResumeCoroutine_def start_coroutine_def has_coroutine_def built_def new_runner_def
  SetDeadlockTimeout_def ReapplyHistoricalUpdates_def effect_defs

lemma demo_scan: "ScanHistory demo_history = empty_prescan\<lparr>last_event_id := 1\<rparr>"
  by (simp add: ScanHistory_def demo_history_def scan_step_def scan_defs empty_prescan_def)

theorem first_task_replays_witness:
  "case Run demo_env 9 (built demo_env 0 demo_info False demo_history demo_workflow ()) of
     Ok rl \<Rightarrow> \<exists>r. Run (demo_env\<lparr>world := 7\<rparr>) 9 (built (demo_env\<lparr>world := 7\<rparr>) 0 demo_info True
                  (demo_history @ recorded_tail rl) demo_workflow ()) = Ok r
                \<and> commands r = [] \<and> CheckDeterminism r = None
   | _ \<Rightarrow> False"
proof -
  obtain rl where run: "Run demo_env 9 (built demo_env 0 demo_info False demo_history demo_workflow ()) = Ok rl"
    and ok: "\<not> deadlocked rl" "all_sent rl"
    by (simp add: run_defs demo_scan demo_workflow_def eval_nat_numeral GetVersion_def StartTimer_def timer_known_def
        Let_def all_sent_def refused_cancel_def terminal_commands_def empty_prescan_def)
  have safe: "safe_body (\<lambda>s. tiny_plain (json_of_string tiny_lib s)) (demo_workflow (ps_input (ScanHistory demo_history)))"
    unfolding demo_workflow_def by (intro safe_body.intros) (simp_all add: tiny_plain_def tiny_lib_def)
  have h: "first_task_history demo_history" by (simp add: first_task_history_def demo_history_def)
  have tf: "text_failures (\<lambda>s. tiny_plain (json_of_string tiny_lib s)) demo_env"
    by (simp add: text_failures_def demo_env_def)
  have "\<exists>r. Run (demo_env\<lparr>world := 7\<rparr>) 9 (built (demo_env\<lparr>world := 7\<rparr>) 0 demo_info True
      (demo_history @ recorded_tail rl) demo_workflow ()) = Ok r \<and> commands r = [] \<and> CheckDeterminism r = None"
    using first_task_replays [OF tiny_laws, of demo_env None "demo_env\<lparr>world := 7\<rparr>", OF _ _ tf h run ok(1) safe ok(2)
        recorded_tail_records] by (auto simp: demo_env_def)
  with run show ?thesis by simp
qed

text \<open>A workflow that asks for the same version twice, then starts a timer.\<close>

definition twice_versioned :: "string \<Rightarrow> int \<Rightarrow> int \<Rightarrow> Payloads \<Rightarrow> unit body" where
  "twice_versioned cid lo hi p =
     Invoke (DoGetVersion cid lo hi) (\<lambda>v. Invoke (DoGetVersion cid lo hi)
       (\<lambda>v. Invoke (DoStartTimer 1000) (\<lambda>f. Finish (Returned []))))"

definition version_details :: "converter \<Rightarrow> string \<Rightarrow> int \<Rightarrow> string \<rightharpoonup> proto_payload list" where
  "version_details cv cid hi = [''change-id'' \<mapsto> ToProtoPayloads [to_payload_string cv cid],
     ''version'' \<mapsto> ToProtoPayloads [to_payload_int cv hi]]"

lemma twice_versioned_live:
  assumes "lo \<le> hi"
  shows "\<exists>rl. Run E 9 (built E 0 wi False demo_history (twice_versioned cid lo hi) ()) = Ok rl
    \<and> recorded_tail rl = map (\<lambda>a. \<lparr>event_id = 0, attrs = a\<rparr>)
        [MarkerRecorded ''Version'' (version_details (conv E) cid hi), TimerEv (TimerStarted ''t0''), WorkflowExecutionCompleted]"
  using assms
  by (simp add: run_defs demo_scan twice_versioned_def eval_nat_numeral GetVersion_def StartTimer_def timer_known_def
      timer_id_def Let_def empty_prescan_def recorded_tail_def terminal_commands_def version_details_def digit_char_def
      fun_upd_twist)

lemma twice_versioned_scan:
  fixes cv :: converter and cid :: string and hi :: int
  defines "h \<equiv> demo_history @ map (\<lambda>a. \<lparr>event_id = 0, attrs = a\<rparr>)
    [MarkerRecorded ''Version'' (version_details cv cid hi), TimerEv (TimerStarted ''t0''), WorkflowExecutionCompleted]"
  shows "ScanHistory h = empty_prescan\<lparr>last_event_id := 0,
    timers := [''t0'' \<mapsto> \<lparr>to_started = True, to_fired = False, to_cancelled = False\<rparr>],
    version_markers := [([to_payload_string cv cid], [to_payload_int cv hi])],
    ps_commands := [mk_command_event Marker ''Version'' [], mk_command_event Timer ''t0'' [], mk_command_event CompleteWorkflow [] []]\<rparr>"
  by (simp add: h_def ScanHistory_def demo_history_def scan_step_def scan_defs scan_marker_def scan_version_def
      empty_prescan_def version_details_def no_timer_def map_at_def Let_def)

lemma twice_versioned_replay:
  assumes "change_versions r cid = Some hi" and "lo \<le> hi" and "timer_known (scan r) ''t0''" and "timer_seq r = 0"
    and "coroutine r = NoCoroutine" and "post_update_timeline (scan r) = []" and "input r = []"
    and "workflow_fn r = twice_versioned cid lo hi"
  shows "\<exists>r'. Run E 9 r = Ok r' \<and> scan r' = scan r \<and> produced_commands r' =
    [mk_command_event Marker ''Version'' [], mk_command_event Marker ''Version'' [], mk_command_event Timer ''t0'' [],
     mk_command_event CompleteWorkflow [] []]"
  using assms
  by (simp add: Run_def ResumeCoroutine_def start_coroutine_def has_coroutine_def ReapplyHistoricalUpdates_def
      push_produced_def twice_versioned_def eval_nat_numeral GetVersion_def StartTimer_recorded timer_id_def Let_def
      digit_char_def)

text \<open>
  C40. Asking twice for the version of one change breaks replay: the second call counts a marker that
  was never sent, so the replay of the recorded history, by the same code, is reported as
  non-deterministic.
\<close>

theorem repeated_version_reported_nondeterministic:
  assumes mc: "marker_codec (conv E) utf8" and cid: "utf8 cid" and "lo \<le> hi" "- (2 ^ 31) \<le> hi" "hi < 2 ^ 31"
  shows "\<exists>rl r m. Run E 9 (built E 0 wi False demo_history (twice_versioned cid lo hi) ()) = Ok rl
    \<and> Run E 9 (built E 0 wi True (demo_history @ recorded_tail rl) (twice_versioned cid lo hi) ()) = Ok r
    \<and> CheckDeterminism r = Some m"
proof -
  obtain rl where live: "Run E 9 (built E 0 wi False demo_history (twice_versioned cid lo hi) ()) = Ok rl"
    and tail: "recorded_tail rl = map (\<lambda>a. \<lparr>event_id = 0, attrs = a\<rparr>)
      [MarkerRecorded ''Version'' (version_details (conv E) cid hi), TimerEv (TimerStarted ''t0''), WorkflowExecutionCompleted]"
    using twice_versioned_live [OF assms(3)] by blast
  note scan = twice_versioned_scan [where cv = "conv E" and cid = cid and hi = hi, folded tail]
  let ?r = "built E 0 wi True (demo_history @ recorded_tail rl) (twice_versioned cid lo hi) ()"
  have "change_versions ?r cid = Some hi"
    using marker_codec.load_versions_snoc [OF mc cid assms(4,5), of "[]" Map.empty]
    by (simp add: built_def SetDeadlockTimeout_def new_runner_def scan)
  moreover have "timer_known (scan ?r) ''t0''" "timer_seq ?r = 0" "coroutine ?r = NoCoroutine"
    "post_update_timeline (scan ?r) = []" "input ?r = []" "workflow_fn ?r = twice_versioned cid lo hi"
    by (simp_all add: built_def SetDeadlockTimeout_def new_runner_def scan timer_known_def empty_prescan_def)
  ultimately obtain r where run: "Run E 9 ?r = Ok r" and "scan r = scan ?r" and "produced_commands r =
      [mk_command_event Marker ''Version'' [], mk_command_event Marker ''Version'' [], mk_command_event Timer ''t0'' [],
       mk_command_event CompleteWorkflow [] []]"
    using twice_versioned_replay [of ?r cid hi lo E] assms(3) by blast
  then have "CheckDeterminism r \<noteq> None"
    by (simp add: CheckDeterminism_def MatchReplayCommands_None built_def SetDeadlockTimeout_def new_runner_def scan
        CommandMatchesEvent.simps)
  with live run show ?thesis by blast
qed

theorem repeated_version_reported_nondeterministic_witness:
  "\<exists>rl r m. Run demo_env 9 (built demo_env 0 demo_info False demo_history (twice_versioned ''change'' 0 1) ()) = Ok rl
    \<and> Run demo_env 9 (built demo_env 0 demo_info True (demo_history @ recorded_tail rl) (twice_versioned ''change'' 0 1) ()) = Ok r
    \<and> CheckDeterminism r = Some m"
proof (rule repeated_version_reported_nondeterministic)
  show "marker_codec (conv demo_env) (\<lambda>s. tiny_plain (json_of_string tiny_lib s))"
    by (simp add: demo_env_def tiny.marker_codec_axioms)
qed (simp_all add: tiny_plain_def tiny_lib_def)

end
